(* ===== verification/Navette_Prelude.thy ===== *)
theory Navette_Prelude
  imports Main "HOL-Library.Word"
begin

text \<open>
  Shared vocabulary of the development: the machine integers of the Rust code at their
  width, raw FFI pointers and the memory region they designate, the three ways a call can
  end (a value, a panic, an access outside the caller's memory), big-endian byte strings,
  and the decimal rendering used by formatted error messages.
\<close>

unbundle bit_operations_syntax

named_theorems ffi_simps \<open>unfolding of the pointer and outcome primitives\<close>
named_theorems wire_simps \<open>lengths and contents of encoded byte strings\<close>

section \<open>Machine integers\<close>

type_synonym byte = "8 word"
type_synonym bytes = "byte list"
type_synonym u16 = "16 word"
type_synonym u32 = "32 word"
type_synonym i32 = "32 word"
type_synonym u64 = "64 word"

text \<open>
  \<open>i32\<close> values are read with \<^const>\<open>sint\<close>. \<open>n as usize\<close> sign-extends (usize has 64
  bits), so a negative length becomes a huge one; \<open>n as i32\<close> keeps the low 32 bits.
\<close>

definition usize_of_i32 :: "i32 \<Rightarrow> nat" where
  "usize_of_i32 n = unat (scast n :: u64)"

definition i32_of_usize :: "nat \<Rightarrow> i32" where
  "i32_of_usize n = word_of_nat n"

definition i32_MAX :: i32 where
  "i32_MAX = 0x7FFFFFFF"

section \<open>Outcomes and pointers\<close>

text \<open>
  \<open>Undef\<close> is an access outside the memory region a pointer designates (undefined
  behaviour of the unsafe code); \<open>Panic\<close> is a Rust panic, which aborts the process
  (\<open>panic = "abort"\<close> in the crate's profiles).
\<close>

datatype 'a outcome = Ret 'a | Panic | Undef

fun obind :: "'a outcome \<Rightarrow> ('a \<Rightarrow> 'b outcome) \<Rightarrow> 'b outcome" where
  "obind (Ret x) f = f x"
| "obind Panic f = Panic"
| "obind Undef f = Undef"

text \<open>Ended normally: neither a panic nor an access outside memory.\<close>

fun returns :: "'a outcome \<Rightarrow> bool" where
  "returns (Ret x) = True"
| "returns Panic = False"
| "returns Undef = False"

text \<open>What holds of the value, if there is one.\<close>

definition when_ret :: "('a \<Rightarrow> bool) \<Rightarrow> 'a outcome \<Rightarrow> bool" where
  "when_ret P m = (case m of Ret x \<Rightarrow> P x | _ \<Rightarrow> True)"

definition omap :: "('a \<Rightarrow> 'b) \<Rightarrow> 'a outcome \<Rightarrow> 'b outcome" where
  "omap f m = obind m (\<lambda>x. Ret (f x))"

text \<open>
  A raw pointer is null or designates a region; the region's content is carried with the
  pointer (copy-in, copy-out), regions of distinct arguments are disjoint as the exclusive
  borrows made by the code require.
\<close>

datatype 'a ptr = Null | Ptr 'a

fun is_null :: "'a ptr \<Rightarrow> bool" where
  "is_null Null = True"
| "is_null (Ptr _) = False"

definition from_raw_parts :: "bytes ptr \<Rightarrow> nat \<Rightarrow> bytes outcome" where
  "from_raw_parts p n =
     (case p of Null \<Rightarrow> Undef
      | Ptr mem \<Rightarrow> if n \<le> length mem then Ret (take n mem) else Undef)"

text \<open>\<open>copy_nonoverlapping(src, dst, src.len())\<close>: the region after the copy.\<close>

definition copy_nonoverlapping :: "bytes \<Rightarrow> bytes ptr \<Rightarrow> bytes ptr outcome" where
  "copy_nonoverlapping src p =
     (case p of Null \<Rightarrow> Undef
      | Ptr mem \<Rightarrow> if length src \<le> length mem
                   then Ret (Ptr (src @ drop (length src) mem)) else Undef)"

text \<open>
  The region after a mutable slice made from it has been given the content \<open>buf\<close>: the slice
  covers the first \<open>length buf\<close> bytes.
\<close>

fun put_slice :: "bytes \<Rightarrow> bytes ptr \<Rightarrow> bytes ptr" where
  "put_slice buf Null = Null"
| "put_slice buf (Ptr mem) = Ptr (buf @ drop (length buf) mem)"

text \<open>\<open>p.add(i).write(b)\<close>.\<close>

definition write_at :: "nat \<Rightarrow> byte \<Rightarrow> bytes ptr \<Rightarrow> bytes ptr outcome" where
  "write_at i b p =
     (case p of Null \<Rightarrow> Undef
      | Ptr mem \<Rightarrow> if i < length mem then Ret (Ptr (mem[i := b])) else Undef)"

text \<open>What a caller promises of a (pointer, length) pair: the region is that long.\<close>

definition valid_buf :: "bytes ptr \<Rightarrow> i32 \<Rightarrow> bool" where
  "valid_buf p n = (case p of Null \<Rightarrow> True | Ptr mem \<Rightarrow> 0 \<le> sint n \<longrightarrow> nat (sint n) \<le> length mem)"

section \<open>Big-endian byte strings\<close>

fun be_nat :: "nat \<Rightarrow> nat \<Rightarrow> bytes" where
  "be_nat 0 n = []"
| "be_nat (Suc k) n = be_nat k (n div 256) @ [word_of_nat n]"

definition nat_of_be :: "bytes \<Rightarrow> nat" where
  "nat_of_be bs = foldl (\<lambda>v b. v * 256 + unat b) 0 bs"

definition to_be_bytes :: "'a::len word \<Rightarrow> bytes" where
  "to_be_bytes w = be_nat (LENGTH('a) div 8) (unat w)"

section \<open>Characters, bytes and decimal rendering\<close>

definition byte_of_char :: "char \<Rightarrow> byte" where
  "byte_of_char c = word_of_nat (of_char c)"

abbreviation ascii :: "string \<Rightarrow> bytes" where
  "ascii s \<equiv> map byte_of_char s"

fun dec_nat :: "nat \<Rightarrow> string" where
  "dec_nat n = (if n < 10 then [char_of (48 + n)] else dec_nat (n div 10) @ [char_of (48 + n mod 10)])"

declare dec_nat.simps [simp del]

definition dec_i32 :: "i32 \<Rightarrow> string" where
  "dec_i32 n = (if sint n < 0 then CHR ''-'' # dec_nat (nat (- sint n)) else dec_nat (nat (sint n)))"

section \<open>Lemmas: integers\<close>

lemma usize_of_i32_nonneg: "0 \<le> sint n \<Longrightarrow> usize_of_i32 n = nat (sint n)"
proof -
  assume n: "0 \<le> sint n"
  have "sint n < 2 ^ 31"
    using sint_lt [of n] by simp
  moreover have "uint (scast n :: u64) = sint n mod 2 ^ 64"
    unfolding scast_eq uint_word_of_int by simp
  ultimately have "uint (scast n :: u64) = sint n"
    using n by simp
  then show ?thesis
    by (simp add: usize_of_i32_def flip: nat_uint_eq)
qed

lemma usize_of_i32_neg: "sint n < 0 \<Longrightarrow> 2 ^ 63 \<le> usize_of_i32 n"
proof -
  assume n: "sint n < 0"
  have lo: "- (2 ^ 31) \<le> sint n"
    using sint_ge [of n] by simp
  have "uint (scast n :: u64) = sint n mod 2 ^ 64"
    unfolding scast_eq uint_word_of_int by simp
  also have "\<dots> = sint n + 2 ^ 64"
    using n lo mod_pos_pos_trivial [of "sint n + 2 ^ 64" "2 ^ 64"] by simp
  finally have "2 ^ 63 \<le> uint (scast n :: u64)"
    using lo by simp
  then have "nat (2 ^ 63) \<le> nat (uint (scast n :: u64))"
    by (rule nat_mono)
  then show ?thesis
    by (simp add: usize_of_i32_def flip: nat_uint_eq)
qed

lemma sint_i32_of_usize: "n < 2 ^ 31 \<Longrightarrow> sint (i32_of_usize n) = int n"
  by (simp add: i32_of_usize_def signed_of_nat signed_take_bit_int_eq_self)

lemma usize_of_i32_of_usize [simp]: "n < 2 ^ 31 \<Longrightarrow> usize_of_i32 (i32_of_usize n) = n"
  by (simp add: usize_of_i32_nonneg sint_i32_of_usize)

lemma nonneg_i32_less: "0 \<le> sint (n :: i32) \<Longrightarrow> nat (sint n) < 2 ^ 31"
  using sint_lt [of n] by simp

lemma sint_i32_MAX: "sint i32_MAX = 2 ^ 31 - 1"
  by (simp add: i32_MAX_def)

text \<open>A property of bytes is checked on the 256 of them.\<close>

lemma byte_in_upto: "(b :: byte) \<in> set (map word_of_nat [0..<256])"
proof -
  have "unat b < 256"
    using unsigned_less [of b] by simp
  then have "word_of_nat (unat b) \<in> (word_of_nat :: nat \<Rightarrow> byte) ` {0..<256}"
    by (intro imageI) simp
  then show ?thesis by simp
qed

lemma byte_cases_all: "\<forall>b \<in> set (map word_of_nat [0..<256]). P (b :: byte) \<Longrightarrow> P b"
  using byte_in_upto [of b] by blast

section \<open>Lemmas: slices\<close>

lemma unat_byte_of_nat: "n < 256 \<Longrightarrow> unat (word_of_nat n :: byte) = n"
  by (simp add: unat_of_nat)

lemma drop_take_append: "a \<le> c \<Longrightarrow> c \<le> length xs \<Longrightarrow> drop a (take c xs) @ drop c xs = drop a xs"
proof -
  assume "a \<le> c" "c \<le> length xs"
  then have "drop a (take c xs @ drop c xs) = drop a (take c xs) @ drop c xs"
    by (simp only: drop_append) simp
  then show ?thesis by simp
qed

section \<open>Lemmas: outcomes and pointers\<close>

lemma obind_Ret_iff [simp]: "obind m f = Ret y \<longleftrightarrow> (\<exists>x. m = Ret x \<and> f x = Ret y)"
  by (cases m) auto

lemma obind_assoc [simp]: "obind (obind m f) g = obind m (\<lambda>x. obind (f x) g)"
  by (cases m) auto

lemma obind_cong [fundef_cong]:
  "m = m' \<Longrightarrow> (\<And>x. m' = Ret x \<Longrightarrow> f x = f' x) \<Longrightarrow> obind m f = obind m' f'"
  by (cases m) auto

lemma omap_simps [simp]:
  "omap f (Ret x) = Ret (f x)" "omap f Panic = Panic" "omap f Undef = Undef"
  by (simp_all add: omap_def)

lemma from_raw_parts_Ptr [ffi_simps]:
  "n \<le> length mem \<Longrightarrow> from_raw_parts (Ptr mem) n = Ret (take n mem)"
  by (simp add: from_raw_parts_def)

lemma copy_nonoverlapping_Ptr [ffi_simps]:
  "length src \<le> length mem \<Longrightarrow>
   copy_nonoverlapping src (Ptr mem) = Ret (Ptr (src @ drop (length src) mem))"
  by (simp add: copy_nonoverlapping_def)

lemma write_at_Ptr [ffi_simps]:
  "i < length mem \<Longrightarrow> write_at i b (Ptr mem) = Ret (Ptr (mem[i := b]))"
  by (simp add: write_at_def)

lemma is_null_iff: "is_null p \<longleftrightarrow> p = Null"
  by (cases p) auto

lemma not_null_iff: "\<not> is_null p \<longleftrightarrow> (\<exists>mem. p = Ptr mem)"
  by (cases p) auto

text \<open>The slice made from a valid (pointer, length) argument pair.\<close>

lemma from_raw_parts_valid:
  assumes "valid_buf p n" "\<not> is_null p" "\<not> sint n < 0"
  obtains mem where "p = Ptr mem" "nat (sint n) \<le> length mem"
    "from_raw_parts p (usize_of_i32 n) = Ret (take (nat (sint n)) mem)"
  using assms
  by (cases p) (auto simp: valid_buf_def usize_of_i32_nonneg from_raw_parts_def)

lemma returns_iff: "returns m \<longleftrightarrow> (\<exists>x. m = Ret x)"
  by (cases m) auto

lemma returns_obind: "returns m \<Longrightarrow> (\<And>x. m = Ret x \<Longrightarrow> returns (f x)) \<Longrightarrow> returns (obind m f)"
  by (cases m) auto

lemma returns_from_raw_parts:
  "valid_buf p n \<Longrightarrow> \<not> is_null p \<Longrightarrow> \<not> sint n < 0 \<Longrightarrow> returns (from_raw_parts p (usize_of_i32 n))"
  by (auto simp: returns_iff elim: from_raw_parts_valid)

lemma when_ret_simps [simp]:
  "when_ret P (Ret x) = P x" "when_ret P Panic" "when_ret P Undef"
  by (simp_all add: when_ret_def)

lemma when_ret_obind: "(\<And>x. m = Ret x \<Longrightarrow> when_ret P (f x)) \<Longrightarrow> when_ret P (obind m f)"
  by (cases m) auto

lemma when_retD: "when_ret (\<lambda>(x, y). P x y) m \<Longrightarrow> m = Ret (x, y) \<Longrightarrow> P x y"
  by simp

section \<open>Lemmas: big-endian byte strings\<close>

lemma length_be_nat [simp]: "length (be_nat k n) = k"
  by (induction k arbitrary: n) auto

lemma length_to_be_bytes [simp]: "length (to_be_bytes (w :: 'a::len word)) = LENGTH('a) div 8"
  by (simp add: to_be_bytes_def)

lemma nat_of_be_Nil [simp]: "nat_of_be [] = 0"
  by (simp add: nat_of_be_def)

lemma nat_of_be_snoc [simp]: "nat_of_be (bs @ [b]) = nat_of_be bs * 256 + unat b"
  by (simp add: nat_of_be_def)

lemma nat_of_be_be_nat: "nat_of_be (be_nat k n) = n mod 256 ^ k"
proof (induction k arbitrary: n)
  case 0
  then show ?case by simp
next
  case (Suc k)
  have "unat (word_of_nat n :: byte) = n mod 256"
    by (simp add: unat_of_nat)
  then have "nat_of_be (be_nat (Suc k) n) = (n div 256) mod 256 ^ k * 256 + n mod 256"
    by (simp add: Suc.IH)
  also have "\<dots> = n mod (256 * 256 ^ k)"
    by (simp add: mod_mult2_eq)
  finally show ?case by simp
qed

lemma nat_of_be_less: "nat_of_be bs < 256 ^ length bs"
proof (induction bs rule: rev_induct)
  case Nil
  then show ?case by simp
next
  case (snoc b bs)
  have "unat b < 256" using unsigned_less [of b] by simp
  with snoc have "nat_of_be bs * 256 + unat b < (nat_of_be bs + 1) * 256" by simp
  also have "\<dots> \<le> 256 ^ length bs * 256"
    using snoc by (intro mult_right_mono) auto
  finally show ?case by (simp add: mult.commute)
qed

lemma be_nat_nat_of_be: "be_nat (length bs) (nat_of_be bs) = bs"
proof (induction bs rule: rev_induct)
  case Nil
  then show ?case by simp
next
  case (snoc b bs)
  have b: "unat b < 256" using unsigned_less [of b] by simp
  then have "(nat_of_be bs * 256 + unat b) div 256 = nat_of_be bs" by simp
  moreover have "word_of_nat (nat_of_be bs * 256 + unat b) = b"
  proof -
    have "word_of_nat 256 = (0 :: byte)"
      by code_simp
    then show ?thesis
      by (simp only: of_nat_add of_nat_mult mult_zero_right add_0) simp
  qed
  ultimately show ?case using snoc by simp
qed

lemma nat_of_be_to_be_bytes:
  assumes "LENGTH('a::len) = 8 * k"
  shows "nat_of_be (to_be_bytes (w :: 'a word)) = unat w"
proof -
  have "(256 :: nat) ^ k = 2 ^ LENGTH('a)"
    by (simp add: assms power_mult)
  then show ?thesis
    using unsigned_less [of w, where ?'a = nat] assms
    by (simp add: to_be_bytes_def nat_of_be_be_nat)
qed

end
