(* ===== verification/Rust_Std.thy ===== *)
theory Rust_Std
  imports Navette_Prelude
begin

text \<open>
  The part of Rust's standard library the code relies on beyond integers and slices:
  UTF-8 validation (\<open>std::str::from_utf8\<close>) with the offsets its error reports, the
  rendering of that error, its lossy variant, strings as their UTF-8 bytes, and slice
  indexing, which panics out of range.
\<close>

definition string_of_bytes :: "bytes \<Rightarrow> string" where
  "string_of_bytes bs = map (\<lambda>b. char_of (unat b)) bs"

section \<open>UTF-8 validation\<close>

text \<open>\<open>Utf8Error\<close>: how many bytes are valid, and the length of the invalid sequence if known.\<close>

record utf8_error =
  valid_up_to :: nat
  error_len :: "nat option"

definition in_range :: "byte \<Rightarrow> nat \<Rightarrow> nat \<Rightarrow> bool" where
  "in_range b lo hi \<longleftrightarrow> lo \<le> unat b \<and> unat b \<le> hi"

definition is_continuation :: "byte \<Rightarrow> bool" where
  "is_continuation b = in_range b 0x80 0xBF"

definition utf8_char_width :: "byte \<Rightarrow> nat" where
  "utf8_char_width b =
     (if unat b < 0x80 then 1 else if in_range b 0xC2 0xDF then 2
      else if in_range b 0xE0 0xEF then 3 else if in_range b 0xF0 0xF4 then 4 else 0)"

text \<open>The second byte of a sequence: excludes overlong forms, surrogates and values past U+10FFFF.\<close>

definition second_ok :: "byte \<Rightarrow> byte \<Rightarrow> bool" where
  "second_ok b b2 =
     (if unat b = 0xE0 then in_range b2 0xA0 0xBF
      else if unat b = 0xED then in_range b2 0x80 0x9F
      else if unat b = 0xF0 then in_range b2 0x90 0xBF
      else if unat b = 0xF4 then in_range b2 0x80 0x8F
      else is_continuation b2)"

text \<open>One character: the rest of the input, or the length of the invalid sequence.\<close>

definition utf8_step :: "byte \<Rightarrow> bytes \<Rightarrow> nat option + bytes" where
  "utf8_step b bs =
     (let w = utf8_char_width b in
      if w = 1 then Inr bs
      else if w = 0 then Inl (Some 1)
      else case bs of
        [] \<Rightarrow> Inl None
      | b2 # bs \<Rightarrow>
          if \<not> second_ok b b2 then Inl (Some 1)
          else if w = 2 then Inr bs
          else case bs of
            [] \<Rightarrow> Inl None
          | b3 # bs \<Rightarrow>
              if \<not> is_continuation b3 then Inl (Some 2)
              else if w = 3 then Inr bs
              else case bs of
                [] \<Rightarrow> Inl None
              | b4 # bs \<Rightarrow> if \<not> is_continuation b4 then Inl (Some 3) else Inr bs)"

lemma utf8_step_shorter: "utf8_step b bs = Inr rest \<Longrightarrow> length rest \<le> length bs"
  by (auto simp: utf8_step_def Let_def split: if_splits list.splits)

function utf8_validate :: "nat \<Rightarrow> bytes \<Rightarrow> utf8_error option" where
  "utf8_validate index [] = None"
| "utf8_validate index (b # bs) =
     (case utf8_step b bs of
        Inl n \<Rightarrow> Some \<lparr>valid_up_to = index, error_len = n\<rparr>
      | Inr rest \<Rightarrow> utf8_validate (index + (length (b # bs) - length rest)) rest)"
  by pat_completeness auto
termination
  by (relation "measure (\<lambda>(index, bs). length bs)") (auto dest: utf8_step_shorter)

definition from_utf8 :: "bytes \<Rightarrow> utf8_error + string" where
  "from_utf8 bs = (case utf8_validate 0 bs of Some e \<Rightarrow> Inl e | None \<Rightarrow> Inr (string_of_bytes bs))"

definition show_utf8_error :: "utf8_error \<Rightarrow> string" where
  "show_utf8_error e =
     (case error_len e of
        Some n \<Rightarrow> ''invalid utf-8 sequence of '' @ dec_nat n @ '' bytes from index '' @ dec_nat (valid_up_to e)
      | None \<Rightarrow> ''incomplete utf-8 byte sequence from index '' @ dec_nat (valid_up_to e))"

text \<open>
  \<open>String::from_utf8_lossy\<close>: every invalid sequence, as far as \<open>Utf8Error\<close> delimits it,
  becomes one U+FFFD (three UTF-8 bytes).
\<close>

definition replacement :: bytes where
  "replacement = [0xEF, 0xBF, 0xBD]"

lemma utf8_step_error: "utf8_step b bs = Inl (Some n) \<Longrightarrow> 0 < n"
  by (auto simp: utf8_step_def Let_def split: if_splits list.splits)

function utf8_lossy :: "bytes \<Rightarrow> bytes" where
  "utf8_lossy [] = []"
| "utf8_lossy (b # bs) =
     (case utf8_step b bs of
        Inr rest \<Rightarrow> take (length (b # bs) - length rest) (b # bs) @ utf8_lossy rest
      | Inl None \<Rightarrow> replacement
      | Inl (Some n) \<Rightarrow> replacement @ utf8_lossy (drop n (b # bs)))"
  by pat_completeness auto
termination
  by (relation "measure length") (auto dest: utf8_step_shorter utf8_step_error)

definition from_utf8_lossy :: "bytes \<Rightarrow> string" where
  "from_utf8_lossy bs = string_of_bytes (utf8_lossy bs)"

section \<open>Slices\<close>

text \<open>\<open>&xs[i..j]\<close>, \<open>&xs[i..]\<close>, \<open>xs[i]\<close> and \<open>xs.split_at_mut(i)\<close> panic out of range.\<close>

definition slice_range :: "nat \<Rightarrow> nat \<Rightarrow> 'a list \<Rightarrow> 'a list outcome" where
  "slice_range i j xs = (if i \<le> j \<and> j \<le> length xs then Ret (take (j - i) (drop i xs)) else Panic)"

definition slice_from :: "nat \<Rightarrow> 'a list \<Rightarrow> 'a list outcome" where
  "slice_from i xs = (if i \<le> length xs then Ret (drop i xs) else Panic)"

definition index :: "'a list \<Rightarrow> nat \<Rightarrow> 'a outcome" where
  "index xs i = (if i < length xs then Ret (xs ! i) else Panic)"

definition split_at :: "nat \<Rightarrow> 'a list \<Rightarrow> ('a list \<times> 'a list) outcome" where
  "split_at i xs = (if i \<le> length xs then Ret (take i xs, drop i xs) else Panic)"

text \<open>\<open>xs.get(i)\<close>.\<close>

definition get :: "'a list \<Rightarrow> nat \<Rightarrow> 'a option" where
  "get xs i = (if i < length xs then Some (xs ! i) else None)"

text \<open>\<open>Result::expect\<close>.\<close>

fun expect :: "'e + 'a \<Rightarrow> 'a outcome" where
  "expect (Inl _) = Panic"
| "expect (Inr x) = Ret x"

text \<open>\<open>u32::from_be_bytes\<close> and its like.\<close>

definition from_be_bytes :: "bytes \<Rightarrow> 'a::len word" where
  "from_be_bytes bs = word_of_nat (nat_of_be bs)"

text \<open>\<open>i32::try_from\<close> on a length.\<close>

definition i32_try_from :: "nat \<Rightarrow> i32 option" where
  "i32_try_from n = (if n < 2 ^ 31 then Some (i32_of_usize n) else None)"

section \<open>Lemmas\<close>

lemma slice_range_in [simp]: "i \<le> j \<Longrightarrow> j \<le> length xs \<Longrightarrow> slice_range i j xs = Ret (take (j - i) (drop i xs))"
  by (simp add: slice_range_def)

lemma slice_from_in [simp]: "i \<le> length xs \<Longrightarrow> slice_from i xs = Ret (drop i xs)"
  by (simp add: slice_from_def)

lemma index_in [simp]: "i < length xs \<Longrightarrow> index xs i = Ret (xs ! i)"
  by (simp add: index_def)

lemma split_at_in [simp]: "i \<le> length xs \<Longrightarrow> split_at i xs = Ret (take i xs, drop i xs)"
  by (simp add: split_at_def)

lemma i32_try_from_in [simp]: "n < 2 ^ 31 \<Longrightarrow> i32_try_from n = Some (i32_of_usize n)"
  by (simp add: i32_try_from_def)

lemma byte_of_char_of [simp]: "byte_of_char (char_of (unat b)) = b"
proof -
  have "unat b < 256" using unsigned_less [of b] by simp
  then show ?thesis by (simp add: byte_of_char_def)
qed

lemma ascii_string_of_bytes [simp]: "ascii (string_of_bytes bs) = bs"
  by (simp add: string_of_bytes_def comp_def)

lemma char_of_byte_of_char [simp]: "char_of (unat (byte_of_char c)) = c"
proof -
  have "(of_char c :: nat) < 256" by simp
  then have "unat (byte_of_char c) = of_char c"
    by (simp add: byte_of_char_def unat_of_nat)
  then show ?thesis by simp
qed

lemma string_of_bytes_ascii [simp]: "string_of_bytes (ascii s) = s"
  by (simp add: string_of_bytes_def comp_def)

lemma length_string_of_bytes [simp]: "length (string_of_bytes bs) = length bs"
  by (simp add: string_of_bytes_def)

text \<open>ASCII input is valid, and a valid string is its own bytes.\<close>

lemma utf8_validate_ascii: "\<forall>b \<in> set bs. unat b < 0x80 \<Longrightarrow> utf8_validate i bs = None"
proof (induction bs arbitrary: i)
  case (Cons b bs)
  then have "utf8_step b bs = Inr bs"
    by (simp add: utf8_step_def utf8_char_width_def)
  with Cons show ?case by simp
qed simp

lemma utf8_lossy_ascii: "\<forall>b \<in> set bs. unat b < 0x80 \<Longrightarrow> utf8_lossy bs = bs"
proof (induction bs)
  case (Cons b bs)
  then have "utf8_step b bs = Inr bs"
    by (simp add: utf8_step_def utf8_char_width_def)
  with Cons show ?case by simp
qed simp

lemma from_utf8_ascii: "\<forall>b \<in> set bs. unat b < 0x80 \<Longrightarrow> from_utf8 bs = Inr (string_of_bytes bs)"
  by (simp add: from_utf8_def utf8_validate_ascii)

lemma from_utf8_Inr: "from_utf8 bs = Inr s \<Longrightarrow> ascii s = bs"
  by (auto simp: from_utf8_def split: option.splits)

lemma utf8_validate_valid_up_to:
  "utf8_validate i bs = Some e \<Longrightarrow> i \<le> valid_up_to e \<and> valid_up_to e < i + length bs"
proof (induction i bs rule: utf8_validate.induct)
  case (2 i b bs)
  then show ?case
    by (fastforce split: sum.splits dest: utf8_step_shorter)
qed simp

end
