(* ===== verification/Last_Error.thy ===== *)
theory Last_Error
  imports Navette_Prelude
begin

text \<open>
  The last-error slot of the rustls shim (\<open>crates/librustls-mojo/src/error.rs\<close>). One
  thread's \<open>LAST_ERROR\<close> cell is a field of the state every other operation of the crate
  extends. A message is the sequence of its UTF-8 bytes, written as characters.
\<close>

record error_state =
  LAST_ERROR :: "string option"

definition set_last_error :: "string \<Rightarrow> 'z error_state_scheme \<Rightarrow> 'z error_state_scheme" where
  "set_last_error msg s = s\<lparr>LAST_ERROR := Some msg\<rparr>"

definition clear_last_error :: "'z error_state_scheme \<Rightarrow> 'z error_state_scheme" where
  "clear_last_error s = s\<lparr>LAST_ERROR := None\<rparr>"

definition rlsm_last_error ::
  "bytes ptr \<Rightarrow> i32 \<Rightarrow> 'z error_state_scheme \<Rightarrow> (i32 \<times> bytes ptr) outcome" where
  "rlsm_last_error out_buf buf_len s =
     (case LAST_ERROR s of
        None \<Rightarrow> Ret (0, out_buf)
      | Some msg \<Rightarrow>
          let needed = length msg + 1 in
          if sint buf_len < 0 \<or> usize_of_i32 buf_len < needed then Ret (-1, out_buf)
          else if is_null out_buf then Ret (-1, out_buf)
          else obind (copy_nonoverlapping (ascii msg) out_buf) (\<lambda>out_buf.
               obind (write_at (length msg) 0 out_buf) (\<lambda>out_buf.
               Ret (i32_of_usize needed, out_buf))))"

text \<open>
  The macro \<open>rlsm_err!(msg; return ret)\<close>: store the message, then return \<open>ret\<close> (here
  with the output arguments as they are at that point).
\<close>

definition rlsm_err ::
  "string \<Rightarrow> 'r \<Rightarrow> 'z error_state_scheme \<Rightarrow> ('r \<times> 'z error_state_scheme) outcome" where
  "rlsm_err msg ret s = Ret (ret, set_last_error msg s)"

text \<open>How a C caller reads the buffer: the bytes before the first NUL.\<close>

definition c_string :: "bytes \<Rightarrow> bytes" where
  "c_string mem = takeWhile (\<lambda>b. b \<noteq> 0) mem"

section \<open>Lemmas\<close>

lemma LAST_ERROR_set [simp]: "LAST_ERROR (set_last_error msg s) = Some msg"
  by (simp add: set_last_error_def)

lemma LAST_ERROR_clear [simp]: "LAST_ERROR (clear_last_error s) = None"
  by (simp add: clear_last_error_def)

lemma more_set_last_error [simp]: "error_state.more (set_last_error msg s) = error_state.more s"
  by (simp add: set_last_error_def)

lemma more_clear_last_error [simp]: "error_state.more (clear_last_error s) = error_state.more s"
  by (simp add: clear_last_error_def)

lemma returns_rlsm_err [simp]: "returns (rlsm_err m r s)"
  by (simp add: rlsm_err_def)

lemma c_string_append:
  "0 \<notin> set bs \<Longrightarrow> c_string (bs @ 0 # rest) = bs"
  by (induction bs) (auto simp: c_string_def)

text \<open>Every branch of the copy-out, for a buffer as long as the caller says.\<close>

lemma rlsm_last_error_valid:
  assumes "valid_buf p n"
  shows "rlsm_last_error p n s =
    (case LAST_ERROR s of
       None \<Rightarrow> Ret (0, p)
     | Some msg \<Rightarrow>
         (case p of
            Ptr mem \<Rightarrow>
              if sint n < int (length msg) + 1 then Ret (-1, p)
              else Ret (i32_of_usize (length msg + 1),
                        Ptr (ascii msg @ 0 # drop (length msg + 1) mem))
          | Null \<Rightarrow> Ret (-1, p)))"
proof (cases "LAST_ERROR s")
  case None
  then show ?thesis by (simp add: rlsm_last_error_def)
next
  case (Some msg)
  show ?thesis
  proof (cases p)
    case Null
    then show ?thesis using Some by (simp add: rlsm_last_error_def)
  next
    case (Ptr mem)
    have "(ascii msg @ drop (length msg) mem)[length msg := 0] = ascii msg @ 0 # drop (Suc (length msg)) mem"
      if "length msg < length mem"
      using that by (simp add: list_update_append flip: Cons_nth_drop_Suc)
    with Some Ptr assms show ?thesis
      by (auto simp: rlsm_last_error_def Let_def valid_buf_def usize_of_i32_nonneg
          copy_nonoverlapping_Ptr write_at_Ptr)
  qed
qed

text \<open>
  C19. A message stored by any operation is read back by the caller: with a buffer of at
  least \<open>len + 1\<close> bytes, \<open>rlsm_last_error\<close> returns \<open>len + 1\<close>, leaves the
  NUL-terminated message at the start of the buffer and every later byte as it was; with
  a shorter buffer it returns -1 and writes nothing.
\<close>

theorem last_error_roundtrip:
  assumes "valid_buf (Ptr mem) n" and "0 \<le> sint n" and "CHR 0x00 \<notin> set msg"
  shows "(\<exists>mem'. rlsm_last_error (Ptr mem) n (set_last_error msg s) = Ret (i32_of_usize (length msg + 1), Ptr mem')
            \<and> c_string mem' = ascii msg \<and> length mem' = length mem
            \<and> drop (length msg + 1) mem' = drop (length msg + 1) mem
            \<and> sint (i32_of_usize (length msg + 1)) = int (length msg + 1))
         \<or> sint n < int (length msg) + 1 \<and>
           rlsm_last_error (Ptr mem) n (set_last_error msg s) = Ret (-1, Ptr mem)"
proof (cases "sint n < int (length msg) + 1")
  case True
  then show ?thesis using assms by (simp add: rlsm_last_error_valid)
next
  case False
  have "byte_of_char c \<noteq> 0" if "c \<in> set msg" for c
  proof -
    have "of_char c \<noteq> (0 :: nat)"
      using that assms(3) of_char_eq_iff [of c "CHR 0x00", where ?'a = nat] by auto
    moreover have "of_char c < (256 :: nat)" by simp
    ultimately have "\<not> 256 dvd (of_char c :: nat)"
      by (intro nat_dvd_not_less) auto
    then show ?thesis
      by (simp add: byte_of_char_def word_of_nat_eq_0_iff)
  qed
  then have "0 \<notin> set (ascii msg)" by force
  moreover have "length msg + 1 \<le> length mem" "length msg + 1 < 2 ^ 31"
    using False assms sint_lt [of n] by (auto simp: valid_buf_def)
  ultimately show ?thesis
    using False assms
    by (auto simp: rlsm_last_error_valid c_string_append sint_i32_of_usize)
qed

theorem last_error_roundtrip_witness:
  "rlsm_last_error (Ptr [7, 7, 7, 7, 7]) 5 (set_last_error ''bad'' \<lparr>LAST_ERROR = None\<rparr>) =
   Ret (4, Ptr [98, 97, 100, 0, 7])"
  using last_error_roundtrip [of "[7, 7, 7, 7, 7]" 5 "''bad''" "\<lparr>LAST_ERROR = None\<rparr>"]
    rlsm_last_error_valid [of "Ptr [7, 7, 7, 7, 7]" 5 "set_last_error ''bad'' \<lparr>LAST_ERROR = None\<rparr>"]
  by (simp add: valid_buf_def i32_of_usize_def byte_of_char_def)

end
