(* ===== verification/Handle_Table.thy ===== *)
theory Handle_Table
  imports Last_Error
begin

text \<open>
  Handles and handle tables (\<open>crates/librustls-mojo/src/handles.rs\<close>): the global handle
  counter, the typed tables that own the shim's objects, the contract a table keeps while
  the counter has not been exhausted, and the interleavings of the atomic steps of
  concurrent insertions in the locked build.
\<close>

section \<open>The handle counter\<close>

text \<open>The process-wide \<open>NEXT_HANDLE\<close> beside the thread's error slot.\<close>

record shim = error_state +
  NEXT_HANDLE :: i32

definition NEXT_HANDLE_init :: i32 where
  "NEXT_HANDLE_init = 1"

text \<open>\<open>fetch_add\<close> wraps; on a non-positive value the counter is stored back as \<open>i32::MAX\<close>.\<close>

definition next_handle :: "i32 \<Rightarrow> i32 option \<times> i32" where
  "next_handle counter =
     (let h = counter; counter = counter + 1 in
      if 0 < sint h then (Some h, counter) else (None, i32_MAX))"

section \<open>Tables\<close>

text \<open>
  The map of a table. The locked and the \<open>skip-locks\<close> builds run the same operations on
  it; they differ in who excludes concurrent access.
\<close>

type_synonym 'a handle_table = "i32 \<rightharpoonup> 'a"

definition HandleTable_new :: "'a handle_table" where
  "HandleTable_new = Map.empty"

definition HandleTable_insert ::
  "'a \<Rightarrow> i32 \<times> 'a handle_table \<Rightarrow> i32 option \<times> (i32 \<times> 'a handle_table)" where
  "HandleTable_insert value st =
     (case st of (counter, tbl) \<Rightarrow>
      case next_handle counter of
        (None, counter) \<Rightarrow> (None, (counter, tbl))
      | (Some h, counter) \<Rightarrow> (Some h, (counter, tbl(h \<mapsto> value))))"

definition HandleTable_with :: "i32 \<Rightarrow> ('a \<Rightarrow> 'r) \<Rightarrow> 'a handle_table \<Rightarrow> 'r option" where
  "HandleTable_with handle f tbl = map_option f (tbl handle)"

definition HandleTable_with_mut ::
  "i32 \<Rightarrow> ('a \<Rightarrow> 'r \<times> 'a) \<Rightarrow> 'a handle_table \<Rightarrow> 'r option \<times> 'a handle_table" where
  "HandleTable_with_mut handle f tbl =
     (case tbl handle of
        None \<Rightarrow> (None, tbl)
      | Some v \<Rightarrow> (case f v of (r, v') \<Rightarrow> (Some r, tbl(handle \<mapsto> v'))))"

definition HandleTable_remove :: "i32 \<Rightarrow> 'a handle_table \<Rightarrow> 'a option \<times> 'a handle_table" where
  "HandleTable_remove handle tbl = (tbl handle, tbl(handle := None))"

text \<open>
  What holds of the counter and a table while no insertion has failed: live handles are
  positive and were drawn before the counter's present value; after the last positive
  handle the counter has wrapped to \<open>i32::MIN\<close>.
\<close>

definition handles_below :: "i32 \<Rightarrow> 'a handle_table \<Rightarrow> bool" where
  "handles_below counter tbl \<longleftrightarrow>
     (\<forall>h v. tbl h = Some v \<longrightarrow> 0 < sint h \<and> (0 < sint counter \<longrightarrow> sint h < sint counter))
     \<and> (0 < sint counter \<or> counter = i32_MAX + 1)"

section \<open>Sessions\<close>

text \<open>
  A session is a sequence of table operations, one after the other; it is \<open>None\<close> when an
  insertion fails. The operations are arguments, so that every store of handles has one.
\<close>

datatype 'v store_op = Op_insert 'v | Op_update i32 "'v \<Rightarrow> 'v" | Op_remove i32

fun touches :: "i32 \<Rightarrow> 'v store_op \<Rightarrow> bool" where
  "touches h (Op_insert v) = False"
| "touches h (Op_update h' f) = (h = h')"
| "touches h (Op_remove h') = (h = h')"

fun session ::
  "('v \<Rightarrow> 's \<Rightarrow> i32 option \<times> 's) \<Rightarrow> (i32 \<Rightarrow> ('v \<Rightarrow> 'v) \<Rightarrow> 's \<Rightarrow> 's) \<Rightarrow> (i32 \<Rightarrow> 's \<Rightarrow> 's) \<Rightarrow>
   'v store_op list \<Rightarrow> 's \<Rightarrow> (i32 list \<times> 's) option" where
  "session ins upd rem [] s = Some ([], s)"
| "session ins upd rem (Op_insert v # ops) s =
     (case ins v s of
        (None, _) \<Rightarrow> None
      | (Some h, s) \<Rightarrow> map_option (\<lambda>(hs, s). (h # hs, s)) (session ins upd rem ops s))"
| "session ins upd rem (Op_update h f # ops) s = session ins upd rem ops (upd h f s)"
| "session ins upd rem (Op_remove h # ops) s = session ins upd rem ops (rem h s)"

text \<open>The table operations on the pair of the counter and the table.\<close>

definition upd_entry :: "i32 \<Rightarrow> ('a \<Rightarrow> 'a) \<Rightarrow> i32 \<times> 'a handle_table \<Rightarrow> i32 \<times> 'a handle_table" where
  "upd_entry h f st = (fst st, snd (HandleTable_with_mut h (\<lambda>v. ((), f v)) (snd st)))"

definition rem_entry :: "i32 \<Rightarrow> i32 \<times> 'a handle_table \<Rightarrow> i32 \<times> 'a handle_table" where
  "rem_entry h st = (fst st, snd (HandleTable_remove h (snd st)))"

section \<open>Concurrent insertions\<close>

text \<open>
  In the locked build \<open>insert\<close> is three atomic actions: the \<open>fetch_add\<close> on the counter,
  the \<open>store\<close> that pins an exhausted counter, and the insertion under the table's mutex.
  \<open>remove\<close> is one. A thread inserts one value and may remove it again.
\<close>

datatype 'a inserter =
  Ins_start 'a | Ins_drawn i32 'a | Ins_done i32 'a | Ins_failed | Ins_removed i32

record 'a world =
  counter :: i32
  table :: "'a handle_table"
  threads :: "'a inserter list"

inductive hstep :: "'a world \<Rightarrow> 'a world \<Rightarrow> bool" where
  fetch_add: "i < length (threads w) \<Longrightarrow> threads w ! i = Ins_start v \<Longrightarrow>
     hstep w (w\<lparr>counter := counter w + 1,
                threads := (threads w)[i := Ins_drawn (counter w) v]\<rparr>)"
| locked_insert: "i < length (threads w) \<Longrightarrow> threads w ! i = Ins_drawn h v \<Longrightarrow> 0 < sint h \<Longrightarrow>
     hstep w (w\<lparr>table := (table w)(h \<mapsto> v), threads := (threads w)[i := Ins_done h v]\<rparr>)"
| pin_store: "i < length (threads w) \<Longrightarrow> threads w ! i = Ins_drawn h v \<Longrightarrow> \<not> 0 < sint h \<Longrightarrow>
     hstep w (w\<lparr>counter := i32_MAX, threads := (threads w)[i := Ins_failed]\<rparr>)"
| locked_remove: "i < length (threads w) \<Longrightarrow> threads w ! i = Ins_done h v \<Longrightarrow>
     hstep w (w\<lparr>table := (table w)(h := None), threads := (threads w)[i := Ins_removed h]\<rparr>)"

definition world_init :: "'a list \<Rightarrow> 'a world" where
  "world_init vs = \<lparr>counter = NEXT_HANDLE_init, table = HandleTable_new,
                    threads = map Ins_start vs\<rparr>"

fun drawn_handle :: "'a inserter \<Rightarrow> i32 option" where
  "drawn_handle (Ins_start v) = None"
| "drawn_handle (Ins_drawn h v) = Some h"
| "drawn_handle (Ins_done h v) = Some h"
| "drawn_handle Ins_failed = None"
| "drawn_handle (Ins_removed h) = Some h"

definition drawers :: "'a inserter list \<Rightarrow> nat set" where
  "drawers ts = {i. i < length ts \<and> drawn_handle (ts ! i) \<noteq> None}"

text \<open>
  The invariant of every interleaving of fewer than \<open>2\<^sup>3\<^sup>1\<close> insertions: the counter is one
  more than the number of draws, the handles drawn are pairwise different and positive,
  nobody failed, and the table holds exactly the values inserted and not removed.
\<close>

definition world_ok :: "'a world \<Rightarrow> bool" where
  "world_ok w \<longleftrightarrow>
     unat (counter w) = 1 + card (drawers (threads w))
   \<and> (\<forall>i < length (threads w). \<forall>h. drawn_handle (threads w ! i) = Some h \<longrightarrow>
        0 < unat h \<and> unat h \<le> card (drawers (threads w))
        \<and> (\<forall>j < length (threads w). drawn_handle (threads w ! j) = Some h \<longrightarrow> i = j))
   \<and> Ins_failed \<notin> set (threads w)
   \<and> (\<forall>h v. table w h = Some v \<longleftrightarrow> (\<exists>i < length (threads w). threads w ! i = Ins_done h v))"

section \<open>The contract of a handle store\<close>

locale handle_store =
  fixes inv :: "'s \<Rightarrow> bool"
    and ins :: "'v \<Rightarrow> 's \<Rightarrow> i32 option \<times> 's"
    and upd :: "i32 \<Rightarrow> ('v \<Rightarrow> 'v) \<Rightarrow> 's \<Rightarrow> 's"
    and rem :: "i32 \<Rightarrow> 's \<Rightarrow> 's"
    and look :: "'s \<Rightarrow> i32 \<Rightarrow> 'v option"
  assumes ins_fresh: "inv s \<Longrightarrow> ins v s = (Some h, s') \<Longrightarrow> 0 < sint h \<and> look s h = None"
    and ins_look: "inv s \<Longrightarrow> ins v s = (Some h, s') \<Longrightarrow> look s' = (look s)(h \<mapsto> v)"
    and ins_inv: "inv s \<Longrightarrow> ins v s = (Some h, s') \<Longrightarrow> inv s'"
    and ins_full: "ins v s = (None, s') \<Longrightarrow> look s' = look s"
    and upd_look: "look (upd h f s) = (look s)(h := map_option f (look s h))"
    and upd_inv: "inv s \<Longrightarrow> inv (upd h f s)"
    and rem_look: "look (rem h s) = (look s)(h := None)"
    and rem_inv: "inv s \<Longrightarrow> inv (rem h s)"
begin

lemma session_inv: "session ins upd rem ops s = Some (hs, s') \<Longrightarrow> inv s \<Longrightarrow> inv s'"
proof (induction ops arbitrary: s hs)
  case (Cons op ops)
  then show ?case
    by (cases op)
      (auto split: prod.splits option.splits dest: ins_inv upd_inv rem_inv)
qed auto

text \<open>An entry no operation names keeps its value, and no insertion is given its handle.\<close>

lemma session_frame:
  "session ins upd rem ops s = Some (hs, s') \<Longrightarrow> inv s \<Longrightarrow> look s h = Some v \<Longrightarrow>
   \<forall>op \<in> set ops. \<not> touches h op \<Longrightarrow> look s' h = Some v \<and> h \<notin> set hs"
proof (induction ops arbitrary: s hs)
  case (Cons op ops)
  show ?case
  proof (cases op)
    case (Op_insert w)
    with Cons(2) obtain h' s1 hs1 where step: "ins w s = (Some h', s1)"
      "session ins upd rem ops s1 = Some (hs1, s')" "hs = h' # hs1"
      by (auto split: prod.splits option.splits)
    moreover have "h' \<noteq> h" using ins_fresh [OF Cons(3) step(1)] Cons(4) by auto
    ultimately show ?thesis
      using Cons ins_look [OF Cons(3) step(1)] ins_inv [OF Cons(3) step(1)] by fastforce
  next
    case (Op_update h' f)
    then show ?thesis
      using Cons.IH [of "upd h' f s" hs] Cons.prems by (simp add: upd_look upd_inv)
  next
    case (Op_remove h')
    then show ?thesis
      using Cons.IH [of "rem h' s" hs] Cons.prems by (simp add: rem_look rem_inv)
  qed
qed auto

text \<open>A handle obtained and then left alone still denotes what was inserted.\<close>

lemma insert_then_session:
  assumes "inv s" "ins v s = (Some h, s1)" "session ins upd rem ops s1 = Some (hs, s')"
    and "\<forall>op \<in> set ops. \<not> touches h op"
  shows "look s' h = Some v \<and> h \<notin> set hs"
  using session_frame [OF assms(3) ins_inv [OF assms(1,2)] _ assms(4)] ins_look [OF assms(1,2)]
  by simp

end

section \<open>Lemmas: the counter and one table\<close>

lemma sint_Suc: "sint (h :: i32) \<noteq> 2 ^ 31 - 1 \<Longrightarrow> sint (h + 1) = sint h + 1"
  using sint_lt [of h] sint_ge [of h]
  by (simp add: sint_word_ariths signed_take_bit_int_eq_self)

lemma eq_i32_MAX: "sint (h :: i32) = 2 ^ 31 - 1 \<Longrightarrow> h = i32_MAX"
  by (rule signed_word_eqI [where ?'a = int]) (simp add: sint_i32_MAX)

lemma next_handle_pos: "0 < sint c \<Longrightarrow> next_handle c = (Some c, c + 1)"
  by (simp add: next_handle_def)

lemma next_handle_nonpos: "sint c \<le> 0 \<Longrightarrow> next_handle c = (None, i32_MAX)"
  by (simp add: next_handle_def)

lemma next_handle_Some_iff: "next_handle c = (Some h, c') \<longleftrightarrow> 0 < sint c \<and> h = c \<and> c' = c + 1"
  by (auto simp: next_handle_def)

lemma handles_below_step:
  assumes "handles_below c t" "0 < sint c"
  shows "handles_below (c + 1) t" and "handles_below (c + 1) (t(c \<mapsto> v))"
proof -
  have "c = i32_MAX \<and> sint (c + 1) < 0 \<or> sint (c + 1) = sint c + 1"
  proof (cases "sint c = 2 ^ 31 - 1")
    case True
    then have "c = i32_MAX" by (rule eq_i32_MAX)
    then show ?thesis by (simp add: i32_MAX_def)
  qed (use sint_Suc in blast)
  with assms show "handles_below (c + 1) t" "handles_below (c + 1) (t(c \<mapsto> v))"
    by (fastforce simp: handles_below_def)+
qed

lemma handles_below_next:
  "handles_below c t \<Longrightarrow> next_handle c = (Some h, c') \<Longrightarrow> handles_below c' t"
  by (auto simp: next_handle_Some_iff handles_below_step)

lemma handles_below_remove: "handles_below c t \<Longrightarrow> handles_below c (t(h := None))"
  by (auto simp: handles_below_def split: if_splits)

lemma handles_below_replace: "handles_below c t \<Longrightarrow> t h = Some v \<Longrightarrow> handles_below c (t(h \<mapsto> w))"
  by (auto simp: handles_below_def split: if_splits)

lemma handles_below_fresh: "handles_below c t \<Longrightarrow> 0 < sint c \<Longrightarrow> t c = None"
  by (auto simp: handles_below_def)

lemma handles_below_init: "handles_below NEXT_HANDLE_init HandleTable_new"
  by (simp add: handles_below_def NEXT_HANDLE_init_def HandleTable_new_def)

lemma HandleTable_insert_pos:
  "0 < sint c \<Longrightarrow> HandleTable_insert v (c, t) = (Some c, (c + 1, t(c \<mapsto> v)))"
  by (simp add: HandleTable_insert_def next_handle_pos)

lemma HandleTable_insert_Some_iff:
  "HandleTable_insert v (c, t) = (Some h, st) \<longleftrightarrow> 0 < sint c \<and> h = c \<and> st = (c + 1, t(c \<mapsto> v))"
  by (auto simp: HandleTable_insert_def next_handle_def)

lemma HandleTable_insert_None_iff:
  "HandleTable_insert v (c, t) = (None, st) \<longleftrightarrow> sint c \<le> 0 \<and> st = (i32_MAX, t)"
  by (auto simp: HandleTable_insert_def next_handle_def)

interpretation ht: handle_store
  "\<lambda>st. handles_below (fst st) (snd st)" HandleTable_insert upd_entry rem_entry snd
proof
  fix s s' :: "i32 \<times> 'a handle_table" and v h
  show "handles_below (fst s) (snd s) \<Longrightarrow> HandleTable_insert v s = (Some h, s') \<Longrightarrow>
        0 < sint h \<and> snd s h = None"
    by (cases s) (auto simp: HandleTable_insert_Some_iff handles_below_fresh)
  show "handles_below (fst s) (snd s) \<Longrightarrow> HandleTable_insert v s = (Some h, s') \<Longrightarrow>
        snd s' = (snd s)(h \<mapsto> v)"
    by (cases s) (auto simp: HandleTable_insert_Some_iff)
  show "handles_below (fst s) (snd s) \<Longrightarrow> HandleTable_insert v s = (Some h, s') \<Longrightarrow>
        handles_below (fst s') (snd s')"
    by (cases s) (auto simp: HandleTable_insert_Some_iff handles_below_step)
  show "HandleTable_insert v s = (None, s') \<Longrightarrow> snd s' = snd s"
    by (cases s) (auto simp: HandleTable_insert_None_iff)
next
  fix s :: "i32 \<times> 'a handle_table" and h f
  show "snd (upd_entry h f s) = (snd s)(h := map_option f (snd s h))"
    by (auto simp: upd_entry_def HandleTable_with_mut_def split: option.splits)
  show "handles_below (fst s) (snd s) \<Longrightarrow>
        handles_below (fst (upd_entry h f s)) (snd (upd_entry h f s))"
    by (auto simp: upd_entry_def HandleTable_with_mut_def handles_below_replace split: option.splits)
  show "snd (rem_entry h s) = (snd s)(h := None)"
    by (simp add: rem_entry_def HandleTable_remove_def)
  show "handles_below (fst s) (snd s) \<Longrightarrow>
        handles_below (fst (rem_entry h s)) (snd (rem_entry h s))"
    by (simp add: rem_entry_def HandleTable_remove_def handles_below_remove)
qed

section \<open>Lemmas: concurrent insertions\<close>

lemma finite_drawers [simp]: "finite (drawers ts)"
  by (simp add: drawers_def)

lemma card_drawers_le: "card (drawers ts) \<le> length ts"
  using card_mono [of "{..<length ts}" "drawers ts"] by (auto simp: drawers_def)

lemma drawers_fetch:
  assumes "i < length ts" "ts ! i = Ins_start v"
  shows "card (drawers (ts[i := Ins_drawn h v])) = Suc (card (drawers ts))"
    and "Suc (card (drawers ts)) \<le> length ts"
proof -
  have eq: "drawers (ts[i := Ins_drawn h v]) = insert i (drawers ts)" and "i \<notin> drawers ts"
    using assms by (auto simp: drawers_def nth_list_update split: if_splits)
  then show *: "card (drawers (ts[i := Ins_drawn h v])) = Suc (card (drawers ts))"
    by simp
  show "Suc (card (drawers ts)) \<le> length ts"
    using card_drawers_le [of "ts[i := Ins_drawn h v]"] * by simp
qed

lemma drawers_same:
  "drawn_handle t = drawn_handle (ts ! i) \<Longrightarrow> drawers (ts[i := t]) = drawers ts"
  by (cases "i < length ts") (auto simp: drawers_def nth_list_update)

lemma sint_pos_of_unat: "0 < unat (h :: i32) \<Longrightarrow> unat h < 2 ^ 31 \<Longrightarrow> 0 < sint h"
  using sint_i32_of_usize [of "unat h"] by (simp add: i32_of_usize_def flip: nat_uint_eq)

lemma hstep_length: "hstep w w' \<Longrightarrow> length (threads w') = length (threads w)"
  by (induction rule: hstep.induct) auto

lemma world_okD:
  assumes "world_ok w"
  shows "unat (counter w) = 1 + card (drawers (threads w))"
    and "i < length (threads w) \<Longrightarrow> drawn_handle (threads w ! i) = Some h \<Longrightarrow>
         0 < unat h \<and> unat h \<le> card (drawers (threads w))"
    and "i < length (threads w) \<Longrightarrow> j < length (threads w) \<Longrightarrow>
         drawn_handle (threads w ! i) = Some h \<Longrightarrow> drawn_handle (threads w ! j) = Some h \<Longrightarrow> i = j"
    and "Ins_failed \<notin> set (threads w)"
    and "table w h = Some v \<longleftrightarrow> (\<exists>i < length (threads w). threads w ! i = Ins_done h v)"
  using assms unfolding world_ok_def by blast+

lemma world_ok_positive:
  assumes "world_ok w" "length (threads w) < 2 ^ 31"
    and "i < length (threads w)" "drawn_handle (threads w ! i) = Some h"
  shows "0 < sint h"
  using world_okD(2) [OF assms(1,3,4)] assms(2) card_drawers_le [of "threads w"]
  by (intro sint_pos_of_unat) linarith+

lemma ex_nth_update:
  assumes "i < length ts"
  shows "(\<exists>j < length ts. ts[i := t] ! j = x) \<longleftrightarrow> t = x \<or> (\<exists>j < length ts. j \<noteq> i \<and> ts ! j = x)"
  using assms by (metis nth_list_update_eq nth_list_update_neq)

text \<open>A thread that keeps its handle preserves everything but the table clause.\<close>

lemma world_ok_keep:
  assumes ok: "world_ok w" and i: "i < length (threads w)"
    and same: "drawn_handle t = drawn_handle (threads w ! i)" and t: "t \<noteq> Ins_failed"
    and tab: "\<And>h v. table' h = Some v \<longleftrightarrow>
      (\<exists>j < length (threads w). (threads w)[i := t] ! j = Ins_done h v)"
  shows "world_ok (w\<lparr>table := table', threads := (threads w)[i := t]\<rparr>)"
proof -
  have dh: "drawn_handle ((threads w)[i := t] ! j) = drawn_handle (threads w ! j)"
    if "j < length (threads w)" for j
    using same i by (cases "j = i") auto
  have "Ins_failed \<notin> set ((threads w)[i := t])"
    using world_okD(4) [OF ok] t set_update_subset_insert [of "threads w" i t] by auto
  with ok tab same dh show ?thesis
    unfolding world_ok_def by (simp add: drawers_same)
qed

lemma world_ok_insert:
  assumes ok: "world_ok w" and i: "i < length (threads w)" "threads w ! i = Ins_drawn h v"
  shows "world_ok (w\<lparr>table := (table w)(h \<mapsto> v), threads := (threads w)[i := Ins_done h v]\<rparr>)"
proof (rule world_ok_keep [OF ok i(1)])
  fix h' v'
  have "threads w ! j \<noteq> Ins_done h v'" if "j < length (threads w)" for j
    using world_okD(3) [OF ok i(1) that, of h] i by auto
  then show "((table w)(h \<mapsto> v)) h' = Some v' \<longleftrightarrow>
      (\<exists>j < length (threads w). (threads w)[i := Ins_done h v] ! j = Ins_done h' v')"
    unfolding ex_nth_update [OF i(1)] using i by (auto simp: world_okD(5) [OF ok])
qed (simp_all add: i)

lemma world_ok_remove:
  assumes ok: "world_ok w" and i: "i < length (threads w)" "threads w ! i = Ins_done h v"
  shows "world_ok (w\<lparr>table := (table w)(h := None), threads := (threads w)[i := Ins_removed h]\<rparr>)"
proof (rule world_ok_keep [OF ok i(1)])
  fix h' v'
  have "j = i" if "j < length (threads w)" "threads w ! j = Ins_done h v'" for j
    using world_okD(3) [OF ok i(1) that(1), of h] i that by auto
  then show "((table w)(h := None)) h' = Some v' \<longleftrightarrow>
      (\<exists>j < length (threads w). (threads w)[i := Ins_removed h] ! j = Ins_done h' v')"
    unfolding ex_nth_update [OF i(1)] using i by (auto simp: world_okD(5) [OF ok])
qed (simp_all add: i)

lemma world_ok_fetch:
  assumes ok: "world_ok w" and bound: "length (threads w) < 2 ^ 31"
    and i: "i < length (threads w)" "threads w ! i = Ins_start v"
  shows "world_ok (w\<lparr>counter := counter w + 1,
                     threads := (threads w)[i := Ins_drawn (counter w) v]\<rparr>)"
proof -
  let ?ts = "threads w" and ?c = "counter w"
  let ?ts' = "?ts[i := Ins_drawn ?c v]"
  note card = drawers_fetch [OF i]
  have c: "unat ?c = 1 + card (drawers ?ts)"
    by (rule world_okD(1) [OF ok])
  then have "unat (?c + 1) = 1 + card (drawers ?ts')"
    using card bound by (simp add: unat_word_ariths)
  moreover have range: "0 < unat h \<and> unat h \<le> card (drawers ?ts')"
    if "j < length ?ts'" "drawn_handle (?ts' ! j) = Some h" for j h
  proof (cases "j = i")
    case True
    then show ?thesis using that c card i by simp
  next
    case False
    then show ?thesis using that world_okD(2) [OF ok, of j h] card by simp
  qed
  moreover have "j = k"
    if "j < length ?ts'" "drawn_handle (?ts' ! j) = Some h"
      "k < length ?ts'" "drawn_handle (?ts' ! k) = Some h" for j k h
  proof -
    have old: "h \<noteq> ?c" if "l < length ?ts" "drawn_handle (?ts ! l) = Some h" for l
      using world_okD(2) [OF ok that] c by auto
    show ?thesis
      using that old [of j] old [of k] world_okD(3) [OF ok, of j k h] i
      by (cases "j = i"; cases "k = i") simp_all
  qed
  moreover have "Ins_failed \<notin> set ?ts'"
    using world_okD(4) [OF ok] set_update_subset_insert [of ?ts i "Ins_drawn ?c v"] by auto
  moreover have "(\<exists>j < length ?ts'. ?ts' ! j = Ins_done h' v') \<longleftrightarrow>
      (\<exists>j < length ?ts. ?ts ! j = Ins_done h' v')" for h' v'
    using ex_nth_update [OF i(1)] i by auto
  ultimately show ?thesis
    using world_okD(5) [OF ok] by (simp add: world_ok_def)
qed

lemma hstep_ok: "hstep w w' \<Longrightarrow> length (threads w) < 2 ^ 31 \<Longrightarrow> world_ok w \<Longrightarrow> world_ok w'"
proof (induction rule: hstep.induct)
  case (pin_store i w h v)
  then show ?case using world_ok_positive [of w i h] by simp
qed (simp_all add: world_ok_fetch world_ok_insert world_ok_remove)

lemma world_init_ok: "world_ok (world_init vs)"
  by (auto simp: world_ok_def world_init_def drawers_def NEXT_HANDLE_init_def HandleTable_new_def
      cong: conj_cong)

lemma reachable_ok:
  "hstep\<^sup>*\<^sup>* (world_init vs) w \<Longrightarrow> length vs < 2 ^ 31 \<Longrightarrow> world_ok w \<and> length (threads w) = length vs"
proof (induction rule: rtranclp_induct)
  case base
  then show ?case by (simp add: world_init_ok) (simp add: world_init_def)
next
  case (step w w')
  then show ?case using hstep_ok [of w w'] hstep_length [of w w'] by simp
qed

section \<open>Properties\<close>

text \<open>
  C9. Under every interleaving of fewer than \<open>2\<^sup>3\<^sup>1\<close> concurrent insertions (and removals
  of what was inserted), no insertion fails, every handle drawn is positive, no two
  threads ever hold the same handle, and the table holds exactly the values inserted and
  not yet removed: no insertion is lost or overwritten.
\<close>

theorem concurrent_insertions:
  assumes "hstep\<^sup>*\<^sup>* (world_init vs) w" and "length vs < 2 ^ 31"
  shows "Ins_failed \<notin> set (threads w)
    \<and> (\<forall>i h. i < length vs \<and> drawn_handle (threads w ! i) = Some h \<longrightarrow>
         0 < sint h \<and> (\<forall>j < length vs. drawn_handle (threads w ! j) = Some h \<longrightarrow> i = j))
    \<and> (\<forall>h v. table w h = Some v \<longleftrightarrow> (\<exists>i < length vs. threads w ! i = Ins_done h v))"
proof -
  from reachable_ok [OF assms] have ok: "world_ok w" and len: "length (threads w) = length vs"
    by auto
  show ?thesis
    using world_okD(3,4,5) [OF ok] world_ok_positive [OF ok] assms(2) unfolding len by blast
qed

theorem concurrent_insertions_witness:
  "hstep\<^sup>*\<^sup>* (world_init [10, 20 :: nat])
     \<lparr>counter = 3, table = [1 \<mapsto> 20], threads = [Ins_drawn 2 10, Ins_done 1 20]\<rparr>
   \<and> Ins_failed \<notin> set [Ins_drawn 2 10, Ins_done 1 (20 :: nat)] \<and> 0 < sint (2 :: i32)"
proof -
  let ?w1 = "\<lparr>counter = 2, table = Map.empty, threads = [Ins_start 10, Ins_drawn 1 20]\<rparr> :: nat world"
  let ?w2 = "\<lparr>counter = 3, table = Map.empty, threads = [Ins_drawn 2 10, Ins_drawn 1 20]\<rparr> :: nat world"
  let ?w3 = "\<lparr>counter = 3, table = [1 \<mapsto> 20], threads = [Ins_drawn 2 10, Ins_done 1 20]\<rparr> :: nat world"
  have "hstep (world_init [10, 20]) ?w1"
    using hstep.fetch_add [of 1 "world_init [10, 20 :: nat]" 20]
    by (simp add: world_init_def NEXT_HANDLE_init_def HandleTable_new_def)
  moreover have "hstep ?w1 ?w2"
    using hstep.fetch_add [of 0 ?w1 10] by simp
  moreover have "hstep ?w2 ?w3"
    using hstep.locked_insert [of 1 ?w2 1 20] by simp
  ultimately have r: "hstep\<^sup>*\<^sup>* (world_init [10, 20]) ?w3"
    by (meson converse_rtranclp_into_rtranclp rtranclp.rtrancl_refl)
  then show ?thesis
    using concurrent_insertions [OF r] by simp
qed




end
