(* ===== verification/Tls_Config.thy ===== *)
theory Tls_Config
  imports Handle_Table Rust_Std
begin

text \<open>
  TLS configurations behind handles (\<open>crates/librustls-mojo/src/config.rs\<close>, and the
  insecure constructor of \<open>tcp.rs\<close>). The rustls configuration values are records of the
  fields the crate writes, over an opaque rest; what rustls, webpki-roots and
  rustls-pemfile compute is the argument \<open>api\<close>.
\<close>

section \<open>Configurations\<close>

datatype key_log = NoKeyLog | KeyLogFile

datatype resumption = Resumption_default | Resumption_disabled

text \<open>The server-certificate check: against roots, or the crate's \<open>NoCertVerifier\<close>.\<close>

datatype 'r cert_verifier = WebPkiRoots 'r | NoCertVerifier

record 'r client_config =
  cc_verifier :: "'r cert_verifier"
  cc_key_log :: key_log
  cc_resumption :: resumption
  cc_alpn_protocols :: "bytes list"

record ('cert, 'key) server_config =
  sc_certs :: "'cert list"
  sc_key :: 'key
  sc_key_log :: key_log
  sc_alpn_protocols :: "bytes list"

datatype ('r, 'cert, 'key) ConfigEntry =
  ConfigEntry_Client "'r client_config"
| ConfigEntry_Server "('cert, 'key) server_config"

record ('r, 'cert, 'key) config_shim = shim +
  CONFIG_TABLE :: "('r, 'cert, 'key) ConfigEntry handle_table"

text \<open>The third-party constructors and parsers the crate calls; errors are their rendering.\<close>

record ('r, 'cert, 'key) config_api =
  TLS_SERVER_ROOTS :: 'r
  client_builder :: "'r cert_verifier \<Rightarrow> 'r client_config"
  pemfile_certs :: "bytes \<Rightarrow> string + 'cert list"
  pemfile_private_key :: "bytes \<Rightarrow> string + 'key option"
  with_single_cert :: "'cert list \<Rightarrow> 'key \<Rightarrow> string + ('cert, 'key) server_config"

text \<open>What \<open>NoCertVerifier\<close> delegates to: rustls' signature checks over the provider's algorithms.\<close>

record ('cert, 'dss, 'algs, 'scheme) signature_api =
  sig_verify_tls12_signature :: "bytes \<Rightarrow> 'cert \<Rightarrow> 'dss \<Rightarrow> 'algs \<Rightarrow> string + unit"
  sig_verify_tls13_signature :: "bytes \<Rightarrow> 'cert \<Rightarrow> 'dss \<Rightarrow> 'algs \<Rightarrow> string + unit"
  sig_default_algorithms :: 'algs
  sig_supported_schemes :: "'algs \<Rightarrow> 'scheme list"

section \<open>Operations\<close>

text \<open>The methods of \<open>NoCertVerifier\<close>: any certificate is accepted, signatures are still checked.\<close>

definition NoCertVerifier_verify_server_cert ::
  "'cert \<Rightarrow> 'cert list \<Rightarrow> 'name \<Rightarrow> bytes \<Rightarrow> 'time \<Rightarrow> string + unit" where
  "NoCertVerifier_verify_server_cert end_entity intermediates server_name ocsp_response now = Inr ()"

definition NoCertVerifier_verify_tls12_signature ::
  "('cert, 'dss, 'algs, 'scheme) signature_api \<Rightarrow> bytes \<Rightarrow> 'cert \<Rightarrow> 'dss \<Rightarrow> string + unit" where
  "NoCertVerifier_verify_tls12_signature api message cert dss =
     sig_verify_tls12_signature api message cert dss (sig_default_algorithms api)"

definition NoCertVerifier_verify_tls13_signature ::
  "('cert, 'dss, 'algs, 'scheme) signature_api \<Rightarrow> bytes \<Rightarrow> 'cert \<Rightarrow> 'dss \<Rightarrow> string + unit" where
  "NoCertVerifier_verify_tls13_signature api message cert dss =
     sig_verify_tls13_signature api message cert dss (sig_default_algorithms api)"

definition NoCertVerifier_supported_verify_schemes ::
  "('cert, 'dss, 'algs, 'scheme) signature_api \<Rightarrow> 'scheme list" where
  "NoCertVerifier_supported_verify_schemes api = sig_supported_schemes api (sig_default_algorithms api)"

text \<open>\<open>config_table().insert(entry)\<close>.\<close>

definition config_table_insert ::
  "('r, 'cert, 'key) ConfigEntry \<Rightarrow> ('r, 'cert, 'key, 'z) config_shim_scheme \<Rightarrow>
   i32 option \<times> ('r, 'cert, 'key, 'z) config_shim_scheme" where
  "config_table_insert entry s =
     (case HandleTable_insert entry (NEXT_HANDLE s, CONFIG_TABLE s) of
        (h, (c, t)) \<Rightarrow> (h, s\<lparr>NEXT_HANDLE := c, CONFIG_TABLE := t\<rparr>))"

definition insert_client_config ::
  "'r client_config \<Rightarrow> ('r, 'cert, 'key, 'z) config_shim_scheme \<Rightarrow>
   (i32 \<times> ('r, 'cert, 'key, 'z) config_shim_scheme) outcome" where
  "insert_client_config cfg s =
     (case config_table_insert (ConfigEntry_Client cfg) s of
        (Some h, s) \<Rightarrow> Ret (h, s)
      | (None, s) \<Rightarrow> rlsm_err ''_insert_client_config: handle counter exhausted'' (-1) s)"

definition get_client_config ::
  "i32 \<Rightarrow> ('r, 'cert, 'key, 'z) config_shim_scheme \<Rightarrow> 'r client_config option" where
  "get_client_config handle s =
     Option.bind
       (HandleTable_with handle
          (\<lambda>entry. case entry of ConfigEntry_Client cfg \<Rightarrow> Some cfg | _ \<Rightarrow> None) (CONFIG_TABLE s))
       (\<lambda>x. x)"

definition get_server_config ::
  "i32 \<Rightarrow> ('r, 'cert, 'key, 'z) config_shim_scheme \<Rightarrow> ('cert, 'key) server_config option" where
  "get_server_config handle s =
     Option.bind
       (HandleTable_with handle
          (\<lambda>entry. case entry of ConfigEntry_Server cfg \<Rightarrow> Some cfg | _ \<Rightarrow> None) (CONFIG_TABLE s))
       (\<lambda>x. x)"

definition rlsm_client_config_new ::
  "('r, 'cert, 'key) config_api \<Rightarrow> ('r, 'cert, 'key, 'z) config_shim_scheme \<Rightarrow>
   (i32 \<times> ('r, 'cert, 'key, 'z) config_shim_scheme) outcome" where
  "rlsm_client_config_new api s =
     (let s = clear_last_error s;
          root_store = TLS_SERVER_ROOTS api;
          config = client_builder api (WebPkiRoots root_store);
          config = config\<lparr>cc_key_log := KeyLogFile\<rparr> in
      case config_table_insert (ConfigEntry_Client config) s of
        (Some h, s) \<Rightarrow> Ret (h, s)
      | (None, s) \<Rightarrow> rlsm_err ''rlsm_client_config_new: handle counter exhausted'' (-1) s)"

definition rlsm_client_config_new_insecure ::
  "('r, 'cert, 'key) config_api \<Rightarrow> ('r, 'cert, 'key, 'z) config_shim_scheme \<Rightarrow>
   (i32 \<times> ('r, 'cert, 'key, 'z) config_shim_scheme) outcome" where
  "rlsm_client_config_new_insecure api s =
     (let s = clear_last_error s;
          config = client_builder api NoCertVerifier;
          config = config\<lparr>cc_resumption := Resumption_disabled\<rparr> in
      insert_client_config config s)"

definition rlsm_server_config_new ::
  "('r, 'cert, 'key) config_api \<Rightarrow> bytes ptr \<Rightarrow> i32 \<Rightarrow> bytes ptr \<Rightarrow> i32 \<Rightarrow>
   ('r, 'cert, 'key, 'z) config_shim_scheme \<Rightarrow>
   (i32 \<times> ('r, 'cert, 'key, 'z) config_shim_scheme) outcome" where
  "rlsm_server_config_new api cert_pem cert_len key_pem key_len s =
     (let s = clear_last_error s in
      if is_null cert_pem then rlsm_err ''rlsm_server_config_new: null cert_pem pointer'' (-1) s
      else if is_null key_pem then rlsm_err ''rlsm_server_config_new: null key_pem pointer'' (-1) s
      else if sint cert_len < 0 then rlsm_err ''rlsm_server_config_new: negative cert_len'' (-1) s
      else if sint key_len < 0 then rlsm_err ''rlsm_server_config_new: negative key_len'' (-1) s
      else
        obind (from_raw_parts cert_pem (usize_of_i32 cert_len)) (\<lambda>cert_bytes.
        obind (from_raw_parts key_pem (usize_of_i32 key_len)) (\<lambda>key_bytes.
        case pemfile_certs api cert_bytes of
          Inl e \<Rightarrow> rlsm_err (''rlsm_server_config_new: failed to parse cert PEM: '' @ e) (-1) s
        | Inr certs \<Rightarrow>
            if certs = [] then
              rlsm_err ''rlsm_server_config_new: no certificates found in cert_pem'' (-1) s
            else case pemfile_private_key api key_bytes of
              Inr None \<Rightarrow> rlsm_err ''rlsm_server_config_new: no private key found in key_pem'' (-1) s
            | Inl e \<Rightarrow> rlsm_err (''rlsm_server_config_new: failed to parse key PEM: '' @ e) (-1) s
            | Inr (Some key) \<Rightarrow>
                case with_single_cert api certs key of
                  Inl e \<Rightarrow>
                    rlsm_err (''rlsm_server_config_new: failed to build server config: '' @ e) (-1) s
                | Inr config \<Rightarrow>
                    let config = config\<lparr>sc_key_log := KeyLogFile\<rparr> in
                    case config_table_insert (ConfigEntry_Server config) s of
                      (Some h, s) \<Rightarrow> Ret (h, s)
                    | (None, s) \<Rightarrow>
                        rlsm_err ''rlsm_server_config_new: handle counter exhausted'' (-1) s)))"

definition rlsm_config_free ::
  "i32 \<Rightarrow> ('r, 'cert, 'key, 'z) config_shim_scheme \<Rightarrow>
   (i32 \<times> ('r, 'cert, 'key, 'z) config_shim_scheme) outcome" where
  "rlsm_config_free handle s =
     (let s = clear_last_error s in
      case HandleTable_remove handle (CONFIG_TABLE s) of
        (Some _, t) \<Rightarrow> Ret (0, s\<lparr>CONFIG_TABLE := t\<rparr>)
      | (None, t) \<Rightarrow>
          rlsm_err ''rlsm_config_free: invalid config handle'' (-1) (s\<lparr>CONFIG_TABLE := t\<rparr>))"

text \<open>The loop over the length-prefixed list; \<open>None\<close> is the truncated entry.\<close>

function parse_alpn_list :: "bytes \<Rightarrow> nat \<Rightarrow> bytes list \<Rightarrow> bytes list option" where
  "parse_alpn_list raw pos alpn_list =
     (if pos < length raw then
        (let proto_len = unat (raw ! pos);
             pos = pos + 1 in
         if pos + proto_len > length raw then None
         else parse_alpn_list raw (pos + proto_len) (alpn_list @ [take proto_len (drop pos raw)]))
      else Some alpn_list)"
  by pat_completeness auto
termination
  by (relation "measure (\<lambda>(raw, pos, alpn_list). length raw - pos)") auto

declare parse_alpn_list.simps [simp del]

text \<open>
  \<open>Arc::get_mut\<close> succeeds when no connection shares the configuration; whether it does is
  the argument \<open>unshared\<close>.
\<close>

definition rlsm_config_set_alpn_protocols ::
  "bool \<Rightarrow> i32 \<Rightarrow> bytes ptr \<Rightarrow> i32 \<Rightarrow> ('r, 'cert, 'key, 'z) config_shim_scheme \<Rightarrow>
   (i32 \<times> ('r, 'cert, 'key, 'z) config_shim_scheme) outcome" where
  "rlsm_config_set_alpn_protocols unshared config_handle protocols protocols_len s =
     (let s = clear_last_error s in
      if is_null protocols then
        rlsm_err ''rlsm_config_set_alpn_protocols: null protocols pointer'' (-1) s
      else if sint protocols_len < 0 then
        rlsm_err ''rlsm_config_set_alpn_protocols: negative protocols_len'' (-1) s
      else
        obind (from_raw_parts protocols (usize_of_i32 protocols_len)) (\<lambda>raw.
        case parse_alpn_list raw 0 [] of
          None \<Rightarrow> rlsm_err ''rlsm_config_set_alpn_protocols: truncated protocol entry'' (-1) s
        | Some alpn_list \<Rightarrow>
            case HandleTable_with_mut config_handle
                   (\<lambda>entry. case entry of
                      ConfigEntry_Client cfg \<Rightarrow>
                        if unshared
                        then (Inr 0, ConfigEntry_Client (cfg\<lparr>cc_alpn_protocols := alpn_list\<rparr>))
                        else (Inl ''rlsm_config_set_alpn_protocols: config already shared (connection created?)'', entry)
                    | ConfigEntry_Server cfg \<Rightarrow>
                        if unshared
                        then (Inr 0, ConfigEntry_Server (cfg\<lparr>sc_alpn_protocols := alpn_list\<rparr>))
                        else (Inl ''rlsm_config_set_alpn_protocols: config already shared (connection created?)'', entry))
                   (CONFIG_TABLE s) of
              (Some (Inr r), t) \<Rightarrow> Ret (r, s\<lparr>CONFIG_TABLE := t\<rparr>)
            | (Some (Inl msg), t) \<Rightarrow> rlsm_err msg (-1) (s\<lparr>CONFIG_TABLE := t\<rparr>)
            | (None, t) \<Rightarrow>
                rlsm_err ''rlsm_config_set_alpn_protocols: invalid config handle'' (-1) (s\<lparr>CONFIG_TABLE := t\<rparr>)))"

text \<open>The wire form of a protocol list, as the operation documents it.\<close>

definition alpn_wire :: "bytes list \<Rightarrow> bytes" where
  "alpn_wire ps = concat (map (\<lambda>p. word_of_nat (length p) # p) ps)"

text \<open>What setting the protocols does to an entry.\<close>

fun with_alpn :: "bytes list \<Rightarrow> ('r, 'cert, 'key) ConfigEntry \<Rightarrow> ('r, 'cert, 'key) ConfigEntry" where
  "with_alpn ps (ConfigEntry_Client cfg) = ConfigEntry_Client (cfg\<lparr>cc_alpn_protocols := ps\<rparr>)"
| "with_alpn ps (ConfigEntry_Server cfg) = ConfigEntry_Server (cfg\<lparr>sc_alpn_protocols := ps\<rparr>)"

section \<open>Lemmas: the protocol list\<close>

lemma alpn_wire_simps [simp]:
  "alpn_wire [] = []"
  "alpn_wire (p # ps) = word_of_nat (length p) # p @ alpn_wire ps"
  by (simp_all add: alpn_wire_def)

lemma alpn_wire_append [simp]: "alpn_wire (ps @ qs) = alpn_wire ps @ alpn_wire qs"
  by (simp add: alpn_wire_def)

lemma parse_alpn_wire:
  "\<forall>p \<in> set ps. length p < 256 \<Longrightarrow>
   parse_alpn_list (pre @ alpn_wire ps) (length pre) acc = Some (acc @ ps)"
proof (induction ps arbitrary: pre acc)
  case Nil
  then show ?case by (simp add: parse_alpn_list.simps)
next
  case (Cons p ps)
  let ?pre = "pre @ word_of_nat (length p) # p"
  have "unat (word_of_nat (length p) :: byte) = length p"
    using Cons.prems by (simp add: unat_of_nat)
  then have "parse_alpn_list (pre @ alpn_wire (p # ps)) (length pre) acc =
      parse_alpn_list (?pre @ alpn_wire ps) (length ?pre) (acc @ [p])"
    by (subst parse_alpn_list.simps) (simp add: Let_def nth_append)
  also have "\<dots> = Some ((acc @ [p]) @ ps)"
    using Cons.prems by (intro Cons.IH) simp
  finally show ?case by simp
qed

lemma parse_alpn_sound:
  "parse_alpn_list raw pos acc = Some ps \<Longrightarrow> pos \<le> length raw \<Longrightarrow> take pos raw = alpn_wire acc \<Longrightarrow>
   \<forall>p \<in> set acc. length p < 256 \<Longrightarrow> raw = alpn_wire ps \<and> (\<forall>p \<in> set ps. length p < 256)"
proof (induction raw pos acc rule: parse_alpn_list.induct)
  case (1 raw pos acc)
  show ?case
  proof (cases "pos < length raw")
    case False
    with 1 show ?thesis by (auto simp: parse_alpn_list.simps [of raw pos])
  next
    case True
    let ?n = "unat (raw ! pos)"
    let ?p = "take ?n (drop (Suc pos) raw)"
    have n: "Suc pos + ?n \<le> length raw"
      and rec: "parse_alpn_list raw (Suc pos + ?n) (acc @ [?p]) = Some ps"
      using 1(2) True by (auto simp: parse_alpn_list.simps [of raw pos] Let_def split: if_splits)
    have lt: "?n < 256" using unsigned_less [of "raw ! pos"] by simp
    have "take (Suc pos + ?n) raw = take pos raw @ raw ! pos # ?p"
      unfolding take_add [of "Suc pos"] using True by (simp add: take_Suc_conv_app_nth)
    also have "\<dots> = alpn_wire (acc @ [?p])"
      using 1(4) n by simp
    finally show ?thesis
      using 1(1) [OF True refl refl] rec n lt 1(5) by simp
  qed
qed

lemma parse_alpn_list_iff:
  "parse_alpn_list raw 0 [] = Some ps \<longleftrightarrow> raw = alpn_wire ps \<and> (\<forall>p \<in> set ps. length p < 256)"
  using parse_alpn_sound [of raw 0 "[]" ps] parse_alpn_wire [of ps "[]" "[]"] by auto

section \<open>Lemmas: the table\<close>

lemma config_table_insert_pos:
  "0 < sint (NEXT_HANDLE s) \<Longrightarrow> config_table_insert e s =
     (Some (NEXT_HANDLE s),
      s\<lparr>NEXT_HANDLE := NEXT_HANDLE s + 1, CONFIG_TABLE := (CONFIG_TABLE s)(NEXT_HANDLE s \<mapsto> e)\<rparr>)"
  by (simp add: config_table_insert_def HandleTable_insert_pos)

lemma NEXT_HANDLE_set_last_error [simp]: "NEXT_HANDLE (set_last_error m s) = NEXT_HANDLE s"
  by (simp add: set_last_error_def)

lemma NEXT_HANDLE_clear_last_error [simp]: "NEXT_HANDLE (clear_last_error s) = NEXT_HANDLE s"
  by (simp add: clear_last_error_def)

lemma CONFIG_TABLE_set_last_error [simp]: "CONFIG_TABLE (set_last_error m s) = CONFIG_TABLE s"
  by (simp add: set_last_error_def)

lemma CONFIG_TABLE_clear_last_error [simp]: "CONFIG_TABLE (clear_last_error s) = CONFIG_TABLE s"
  by (simp add: clear_last_error_def)

lemma set_alpn_parsed:
  assumes "from_raw_parts (Ptr mem) (usize_of_i32 n) = Ret raw" "0 \<le> sint n"
    and "parse_alpn_list raw 0 [] = Some ps"
  shows "rlsm_config_set_alpn_protocols True h (Ptr mem) n s =
    (case CONFIG_TABLE s h of
       Some e \<Rightarrow> Ret (0, (clear_last_error s)\<lparr>CONFIG_TABLE := (CONFIG_TABLE s)(h \<mapsto> with_alpn ps e)\<rparr>)
     | None \<Rightarrow> Ret (-1, set_last_error ''rlsm_config_set_alpn_protocols: invalid config handle'' s))"
  using assms
  by (auto simp: rlsm_config_set_alpn_protocols_def HandleTable_with_mut_def rlsm_err_def
      set_last_error_def clear_last_error_def split: option.splits ConfigEntry.splits)

lemma set_alpn_truncated:
  assumes "from_raw_parts (Ptr mem) (usize_of_i32 n) = Ret raw" "0 \<le> sint n"
    and "parse_alpn_list raw 0 [] = None"
  shows "rlsm_config_set_alpn_protocols u h (Ptr mem) n s =
    Ret (-1, set_last_error ''rlsm_config_set_alpn_protocols: truncated protocol entry'' s)"
  using assms
  by (simp add: rlsm_config_set_alpn_protocols_def rlsm_err_def set_last_error_def clear_last_error_def)

section \<open>Properties\<close>

text \<open>
  C10. \<open>rlsm_config_set_alpn_protocols\<close> accepts exactly the length-prefixed lists: on the
  wire form of a list of protocols (each shorter than 256 bytes) an unshared
  configuration gets that very list, client and server alike; on every other buffer the
  call fails with the truncation error and changes no configuration. No valid buffer
  makes it read outside its bounds.
\<close>

theorem set_alpn_exact:
  fixes s :: "('r, 'cert, 'key, 'z) config_shim_scheme"
  assumes "valid_buf (Ptr mem) n" and "0 \<le> sint n"
  shows "(\<forall>ps. take (nat (sint n)) mem = alpn_wire ps \<and> (\<forall>p \<in> set ps. length p < 256) \<longrightarrow>
            rlsm_config_set_alpn_protocols True h (Ptr mem) n s =
              (case CONFIG_TABLE s h of
                 Some e \<Rightarrow> Ret (0, (clear_last_error s)
                               \<lparr>CONFIG_TABLE := (CONFIG_TABLE s)(h \<mapsto> with_alpn ps e)\<rparr>)
               | None \<Rightarrow>
                   Ret (-1, set_last_error ''rlsm_config_set_alpn_protocols: invalid config handle'' s)))
       \<and> ((\<nexists>ps. take (nat (sint n)) mem = alpn_wire ps \<and> (\<forall>p \<in> set ps. length p < 256)) \<longrightarrow>
            rlsm_config_set_alpn_protocols u h (Ptr mem) n s =
              Ret (-1, set_last_error ''rlsm_config_set_alpn_protocols: truncated protocol entry'' s))"
proof -
  have raw: "from_raw_parts (Ptr mem) (usize_of_i32 n) = Ret (take (nat (sint n)) mem)"
    using assms by (simp add: valid_buf_def usize_of_i32_nonneg from_raw_parts_Ptr)
  have none: "parse_alpn_list bs 0 [] = None"
    if "\<nexists>ps. bs = alpn_wire ps \<and> (\<forall>p \<in> set ps. length p < 256)" for bs
    using that by (cases "parse_alpn_list bs 0 []") (auto simp: parse_alpn_list_iff)
  show ?thesis
    by (intro conjI allI impI set_alpn_parsed [OF raw assms(2)] set_alpn_truncated [OF raw assms(2)] none)
      (simp_all add: parse_alpn_list_iff)
qed

definition sample_config :: "(nat, nat, nat) config_shim" where
  "sample_config = \<lparr>LAST_ERROR = None, NEXT_HANDLE = 6,
     CONFIG_TABLE = [5 \<mapsto> ConfigEntry_Client
       \<lparr>cc_verifier = NoCertVerifier, cc_key_log = NoKeyLog, cc_resumption = Resumption_default,
        cc_alpn_protocols = []\<rparr>]\<rparr>"

theorem set_alpn_exact_witness:
  "rlsm_config_set_alpn_protocols True 5 (Ptr [2, 104, 50, 1, 120, 99]) 5 sample_config =
   Ret (0, sample_config\<lparr>CONFIG_TABLE := [5 \<mapsto> ConfigEntry_Client
       \<lparr>cc_verifier = NoCertVerifier, cc_key_log = NoKeyLog, cc_resumption = Resumption_default,
        cc_alpn_protocols = [[104, 50], [120]]\<rparr>]\<rparr>)"
  using conjunct1 [OF set_alpn_exact [of "[2, 104, 50, 1, 120, 99]" 5 5 sample_config], THEN spec,
      of "[[104, 50], [120]]"]
  by (simp add: valid_buf_def sample_config_def clear_last_error_def)

end
