(* ===== verification/Tcp_Tls.thy ===== *)
theory Tcp_Tls
  imports Tls_Config
begin

text \<open>
  TLS-over-TCP connections behind handles (\<open>crates/librustls-mojo/src/tcp.rs\<close>): the slice
  adapters handed to rustls, the loops that feed ciphertext and plaintext, and the FFI
  operations. A rustls connection is an opaque value with the calls of \<open>conn_api\<close>; what
  the loops rely on is stated about these calls in \<open>feeds\<close> and \<open>accepts\<close>.
\<close>

section \<open>I/O wrappers\<close>

record slice_reader =
  sr_data :: bytes
  sr_pos :: nat

text \<open>
  \<open>read(buf)\<close> with a buffer of \<open>n\<close> bytes: the bytes copied to its front. Slicing
  \<open>data[pos..]\<close> panics when \<open>pos\<close> is past the end.
\<close>

definition SliceReader_read :: "nat \<Rightarrow> slice_reader \<Rightarrow> (bytes \<times> slice_reader) outcome" where
  "SliceReader_read n self =
     (if sr_pos self > length (sr_data self) then Panic
      else let available = drop (sr_pos self) (sr_data self);
               to_copy = min (length available) n in
           Ret (take to_copy available, self\<lparr>sr_pos := sr_pos self + to_copy\<rparr>))"

record slice_writer =
  sw_buf :: bytes
  sw_pos :: nat

definition SliceWriter_write :: "bytes \<Rightarrow> slice_writer \<Rightarrow> (nat \<times> slice_writer) outcome" where
  "SliceWriter_write data self =
     (if sw_pos self > length (sw_buf self) then Panic
      else let space = length (sw_buf self) - sw_pos self;
               to_copy = min space (length data) in
           Ret (to_copy,
                self\<lparr>sw_buf := take (sw_pos self) (sw_buf self) @ take to_copy data
                               @ drop (sw_pos self + to_copy) (sw_buf self),
                     sw_pos := sw_pos self + to_copy\<rparr>))"

definition SliceWriter_flush :: "slice_writer \<Rightarrow> slice_writer" where
  "SliceWriter_flush self = self"

section \<open>Connections\<close>

text \<open>An I/O error: the one kind the code tells apart, and the rendering.\<close>

datatype io_error = WouldBlock string | OtherError string

text \<open>
  The calls made on a rustls connection. \<open>read_tls\<close> and \<open>write_tls\<close> are given the trait
  object: the function to call and its state.
\<close>

record 'c conn_api =
  api_read_tls :: "(nat \<Rightarrow> slice_reader \<Rightarrow> (bytes \<times> slice_reader) outcome) \<Rightarrow> slice_reader \<Rightarrow> 'c \<Rightarrow>
                   ((string + nat) \<times> slice_reader \<times> 'c) outcome"
  api_write_tls :: "(bytes \<Rightarrow> slice_writer \<Rightarrow> (nat \<times> slice_writer) outcome) \<Rightarrow> slice_writer \<Rightarrow> 'c \<Rightarrow>
                    ((string + nat) \<times> slice_writer \<times> 'c) outcome"
  api_process_new_packets :: "'c \<Rightarrow> (string + unit) \<times> 'c"
  api_reader_read :: "nat \<Rightarrow> 'c \<Rightarrow> (io_error + bytes) \<times> 'c"
  api_writer_write :: "bytes \<Rightarrow> 'c \<Rightarrow> (string + nat) \<times> 'c"
  api_is_handshaking :: "'c \<Rightarrow> bool"
  api_alpn_protocol :: "'c \<Rightarrow> bytes option"

record ('r, 'cert, 'key, 'name, 'cc, 'sc) tls_api =
  server_name_try_from :: "string \<Rightarrow> string + 'name"
  client_connection_new :: "'r client_config \<Rightarrow> 'name \<Rightarrow> string + 'cc"
  server_connection_new :: "('cert, 'key) server_config \<Rightarrow> string + 'sc"
  client_api :: "'cc conn_api"
  server_api :: "'sc conn_api"

datatype ('cc, 'sc) TlsConn = TlsConn_Client 'cc | TlsConn_Server 'sc

fun TlsConn_read_tls where
  "TlsConn_read_tls api rd (TlsConn_Client c) =
     omap (\<lambda>(r, rd, c). (r, rd, TlsConn_Client c))
       (api_read_tls (client_api api) SliceReader_read rd c)"
| "TlsConn_read_tls api rd (TlsConn_Server c) =
     omap (\<lambda>(r, rd, c). (r, rd, TlsConn_Server c))
       (api_read_tls (server_api api) SliceReader_read rd c)"

fun TlsConn_write_tls where
  "TlsConn_write_tls api wr (TlsConn_Client c) =
     omap (\<lambda>(r, wr, c). (r, wr, TlsConn_Client c))
       (api_write_tls (client_api api) SliceWriter_write wr c)"
| "TlsConn_write_tls api wr (TlsConn_Server c) =
     omap (\<lambda>(r, wr, c). (r, wr, TlsConn_Server c))
       (api_write_tls (server_api api) SliceWriter_write wr c)"

fun TlsConn_process_new_packets where
  "TlsConn_process_new_packets api (TlsConn_Client c) =
     map_prod id TlsConn_Client (api_process_new_packets (client_api api) c)"
| "TlsConn_process_new_packets api (TlsConn_Server c) =
     map_prod id TlsConn_Server (api_process_new_packets (server_api api) c)"

fun TlsConn_read_plaintext where
  "TlsConn_read_plaintext api n (TlsConn_Client c) =
     map_prod id TlsConn_Client (api_reader_read (client_api api) n c)"
| "TlsConn_read_plaintext api n (TlsConn_Server c) =
     map_prod id TlsConn_Server (api_reader_read (server_api api) n c)"

fun TlsConn_write_plaintext where
  "TlsConn_write_plaintext api data (TlsConn_Client c) =
     map_prod id TlsConn_Client (api_writer_write (client_api api) data c)"
| "TlsConn_write_plaintext api data (TlsConn_Server c) =
     map_prod id TlsConn_Server (api_writer_write (server_api api) data c)"

fun TlsConn_is_handshaking where
  "TlsConn_is_handshaking api (TlsConn_Client c) = api_is_handshaking (client_api api) c"
| "TlsConn_is_handshaking api (TlsConn_Server c) = api_is_handshaking (server_api api) c"

fun TlsConn_alpn_protocol where
  "TlsConn_alpn_protocol api (TlsConn_Client c) = api_alpn_protocol (client_api api) c"
| "TlsConn_alpn_protocol api (TlsConn_Server c) = api_alpn_protocol (server_api api) c"

record ('r, 'cert, 'key, 'cc, 'sc) tcp_shim = "('r, 'cert, 'key) config_shim" +
  CONN_TABLE :: "('cc, 'sc) TlsConn handle_table"

type_synonym ('r, 'cert, 'key, 'cc, 'sc, 'a) tcp_call =
  "('r, 'cert, 'key, 'cc, 'sc) tcp_shim \<Rightarrow>
   ('a \<times> ('r, 'cert, 'key, 'cc, 'sc) tcp_shim) outcome"

section \<open>Operations\<close>

definition conn_table_insert ::
  "('cc, 'sc) TlsConn \<Rightarrow> ('r, 'cert, 'key, 'cc, 'sc) tcp_shim \<Rightarrow>
   i32 option \<times> ('r, 'cert, 'key, 'cc, 'sc) tcp_shim" where
  "conn_table_insert conn s =
     (case HandleTable_insert conn (NEXT_HANDLE s, CONN_TABLE s) of
        (h, (c, t)) \<Rightarrow> (h, s\<lparr>NEXT_HANDLE := c, CONN_TABLE := t\<rparr>))"

definition rlsm_tls_client_new ::
  "('r, 'cert, 'key, 'name, 'cc, 'sc) tls_api \<Rightarrow> i32 \<Rightarrow> bytes ptr \<Rightarrow> i32 \<Rightarrow>
   ('r, 'cert, 'key, 'cc, 'sc, i32) tcp_call" where
  "rlsm_tls_client_new api config_handle server_name_ptr server_name_len s =
     (let s = clear_last_error s in
      if is_null server_name_ptr then
        rlsm_err ''rlsm_tls_client_new: null server_name pointer'' (-1) s
      else if sint server_name_len < 0 then
        rlsm_err ''rlsm_tls_client_new: negative server_name_len'' (-1) s
      else case get_client_config config_handle s of
        None \<Rightarrow> rlsm_err ''rlsm_tls_client_new: invalid client config handle'' (-1) s
      | Some cfg \<Rightarrow>
          obind (from_raw_parts server_name_ptr (usize_of_i32 server_name_len)) (\<lambda>name_bytes.
          case from_utf8 name_bytes of
            Inl e \<Rightarrow>
              rlsm_err (''rlsm_tls_client_new: server_name is not valid UTF-8: '' @ show_utf8_error e) (-1) s
          | Inr name_str \<Rightarrow>
              case server_name_try_from api name_str of
                Inl e \<Rightarrow>
                  rlsm_err (''rlsm_tls_client_new: invalid server name '' @ [CHR 0x27] @ name_str @ [CHR 0x27] @ '': '' @ e) (-1) s
              | Inr server_name \<Rightarrow>
                  case client_connection_new api cfg server_name of
                    Inl e \<Rightarrow>
                      rlsm_err (''rlsm_tls_client_new: failed to create client connection: '' @ e) (-1) s
                  | Inr conn \<Rightarrow>
                      case conn_table_insert (TlsConn_Client conn) s of
                        (Some h, s) \<Rightarrow> Ret (h, s)
                      | (None, s) \<Rightarrow>
                          rlsm_err ''rlsm_tls_client_new: handle counter exhausted'' (-1) s))"

definition rlsm_tls_server_new ::
  "('r, 'cert, 'key, 'name, 'cc, 'sc) tls_api \<Rightarrow> i32 \<Rightarrow>
   ('r, 'cert, 'key, 'cc, 'sc, i32) tcp_call" where
  "rlsm_tls_server_new api config_handle s =
     (let s = clear_last_error s in
      case get_server_config config_handle s of
        None \<Rightarrow> rlsm_err ''rlsm_tls_server_new: invalid server config handle'' (-1) s
      | Some cfg \<Rightarrow>
          case server_connection_new api cfg of
            Inl e \<Rightarrow> rlsm_err (''rlsm_tls_server_new: failed to create server connection: '' @ e) (-1) s
          | Inr conn \<Rightarrow>
              case conn_table_insert (TlsConn_Server conn) s of
                (Some h, s) \<Rightarrow> Ret (h, s)
              | (None, s) \<Rightarrow> rlsm_err ''rlsm_tls_server_new: handle counter exhausted'' (-1) s)"

definition rlsm_tls_conn_free :: "i32 \<Rightarrow> ('r, 'cert, 'key, 'cc, 'sc, i32) tcp_call" where
  "rlsm_tls_conn_free handle s =
     (let s = clear_last_error s in
      case HandleTable_remove handle (CONN_TABLE s) of
        (Some _, t) \<Rightarrow> Ret (0, s\<lparr>CONN_TABLE := t\<rparr>)
      | (None, t) \<Rightarrow>
          rlsm_err ''rlsm_tls_conn_free: invalid connection handle'' (-1) (s\<lparr>CONN_TABLE := t\<rparr>))"

text \<open>
  The closure of \<open>rlsm_tls_conn_read_tls\<close>: feed and process until the input is used up or
  nothing was consumed. The loop ends when rustls makes no progress; \<open>None\<close> is a loop that
  does not end.
\<close>

partial_function (option) read_tls_loop ::
  "('r, 'cert, 'key, 'name, 'cc, 'sc) tls_api \<Rightarrow> slice_reader \<Rightarrow> ('cc, 'sc) TlsConn \<Rightarrow>
   ((string + i32) \<times> ('cc, 'sc) TlsConn) outcome option" where
  "read_tls_loop api reader conn =
     (case TlsConn_read_tls api reader conn of
        Panic \<Rightarrow> Some Panic
      | Undef \<Rightarrow> Some Undef
      | Ret (res, reader, conn) \<Rightarrow>
          (case res of
             Inl e \<Rightarrow> Some (Ret (Inl (''rlsm_tls_conn_read_tls: read_tls failed: '' @ e), conn))
           | Inr consumed \<Rightarrow>
               (case TlsConn_process_new_packets api conn of
                  (Inl e, conn) \<Rightarrow>
                    Some (Ret (Inl (''rlsm_tls_conn_read_tls: process_new_packets failed: '' @ e), conn))
                | (Inr _, conn) \<Rightarrow>
                    if consumed = 0 then Some (Ret (Inr (i32_of_usize (sr_pos reader)), conn))
                    else if sr_pos reader \<ge> length (sr_data reader)
                    then Some (Ret (Inr (i32_of_usize (sr_pos reader)), conn))
                    else read_tls_loop api reader conn)))"

definition rlsm_tls_conn_read_tls ::
  "('r, 'cert, 'key, 'name, 'cc, 'sc) tls_api \<Rightarrow> i32 \<Rightarrow> bytes ptr \<Rightarrow> i32 \<Rightarrow>
   ('r, 'cert, 'key, 'cc, 'sc) tcp_shim \<Rightarrow>
   (i32 \<times> ('r, 'cert, 'key, 'cc, 'sc) tcp_shim) outcome option" where
  "rlsm_tls_conn_read_tls api handle ciphertext_ptr ct_len s =
     (let s = clear_last_error s in
      if is_null ciphertext_ptr then
        Some (rlsm_err ''rlsm_tls_conn_read_tls: null ciphertext pointer'' (-1) s)
      else if sint ct_len < 0 then
        Some (rlsm_err ''rlsm_tls_conn_read_tls: negative ct_len'' (-1) s)
      else case from_raw_parts ciphertext_ptr (usize_of_i32 ct_len) of
        Panic \<Rightarrow> Some Panic
      | Undef \<Rightarrow> Some Undef
      | Ret data \<Rightarrow>
          case CONN_TABLE s handle of
            None \<Rightarrow> Some (rlsm_err ''rlsm_tls_conn_read_tls: invalid connection handle'' (-1) s)
          | Some conn \<Rightarrow>
              map_option (\<lambda>r. obind r (\<lambda>(res, conn).
                let s = s\<lparr>CONN_TABLE := (CONN_TABLE s)(handle \<mapsto> conn)\<rparr> in
                case res of Inr n \<Rightarrow> Ret (n, s) | Inl msg \<Rightarrow> Ret (-1, set_last_error msg s)))
                (read_tls_loop api \<lparr>sr_data = data, sr_pos = 0\<rparr> conn))"

text \<open>The operations that fill a caller's buffer return the buffer's region with the result.\<close>

definition rlsm_tls_conn_write_tls ::
  "('r, 'cert, 'key, 'name, 'cc, 'sc) tls_api \<Rightarrow> i32 \<Rightarrow> bytes ptr \<Rightarrow> i32 \<Rightarrow>
   ('r, 'cert, 'key, 'cc, 'sc, i32 \<times> bytes ptr) tcp_call" where
  "rlsm_tls_conn_write_tls api handle out_buf buf_len s =
     (let s = clear_last_error s in
      if is_null out_buf then
        rlsm_err ''rlsm_tls_conn_write_tls: null out_buf pointer'' (-1, out_buf) s
      else if sint buf_len < 0 then
        rlsm_err ''rlsm_tls_conn_write_tls: negative buf_len'' (-1, out_buf) s
      else obind (from_raw_parts out_buf (usize_of_i32 buf_len)) (\<lambda>buf.
        case CONN_TABLE s handle of
          None \<Rightarrow> rlsm_err ''rlsm_tls_conn_write_tls: invalid connection handle'' (-1, out_buf) s
        | Some conn \<Rightarrow>
            obind (TlsConn_write_tls api \<lparr>sw_buf = buf, sw_pos = 0\<rparr> conn) (\<lambda>(res, writer, conn).
            let s = s\<lparr>CONN_TABLE := (CONN_TABLE s)(handle \<mapsto> conn)\<rparr>;
                out_buf = put_slice (sw_buf writer) out_buf in
            case res of
              Inr written \<Rightarrow> Ret ((i32_of_usize written, out_buf), s)
            | Inl e \<Rightarrow>
                rlsm_err (''rlsm_tls_conn_write_tls: write_tls failed: '' @ e) (-1, out_buf) s)))"

definition rlsm_tls_conn_read_plaintext ::
  "('r, 'cert, 'key, 'name, 'cc, 'sc) tls_api \<Rightarrow> i32 \<Rightarrow> bytes ptr \<Rightarrow> i32 \<Rightarrow>
   ('r, 'cert, 'key, 'cc, 'sc, i32 \<times> bytes ptr) tcp_call" where
  "rlsm_tls_conn_read_plaintext api handle out_buf buf_len s =
     (let s = clear_last_error s in
      if is_null out_buf then
        rlsm_err ''rlsm_tls_conn_read_plaintext: null out_buf pointer'' (-1, out_buf) s
      else if sint buf_len < 0 then
        rlsm_err ''rlsm_tls_conn_read_plaintext: negative buf_len'' (-1, out_buf) s
      else obind (from_raw_parts out_buf (usize_of_i32 buf_len)) (\<lambda>buf.
        case CONN_TABLE s handle of
          None \<Rightarrow> rlsm_err ''rlsm_tls_conn_read_plaintext: invalid connection handle'' (-1, out_buf) s
        | Some conn \<Rightarrow>
            case TlsConn_read_plaintext api (length buf) conn of (res, conn) \<Rightarrow>
            let s = s\<lparr>CONN_TABLE := (CONN_TABLE s)(handle \<mapsto> conn)\<rparr> in
            case res of
              Inr bs \<Rightarrow> Ret ((i32_of_usize (length bs), put_slice bs out_buf), s)
            | Inl (WouldBlock e) \<Rightarrow> Ret ((0, out_buf), s)
            | Inl (OtherError e) \<Rightarrow>
                rlsm_err (''rlsm_tls_conn_read_plaintext: reader failed: '' @ e) (-1, out_buf) s))"

text \<open>The write loop of \<open>rlsm_tls_conn_write_plaintext\<close>: an error, or the bytes accepted.\<close>

function write_plaintext_loop ::
  "('r, 'cert, 'key, 'name, 'cc, 'sc) tls_api \<Rightarrow> bytes \<Rightarrow> nat \<Rightarrow> ('cc, 'sc) TlsConn \<Rightarrow>
   (string + nat) \<times> ('cc, 'sc) TlsConn" where
  "write_plaintext_loop api data tot conn =
     (if tot < length data then
        (case TlsConn_write_plaintext api (drop tot data) conn of
           (Inl e, conn) \<Rightarrow> (Inl (''rlsm_tls_conn_write_plaintext: writer failed: '' @ e), conn)
         | (Inr n, conn) \<Rightarrow>
             if n = 0 then (Inr tot, conn)
             else write_plaintext_loop api data (tot + n) conn)
      else (Inr tot, conn))"
  by pat_completeness auto
termination
  by (relation "measure (\<lambda>(api, data, tot, conn). length data - tot)") auto

declare write_plaintext_loop.simps [simp del]

definition rlsm_tls_conn_write_plaintext ::
  "('r, 'cert, 'key, 'name, 'cc, 'sc) tls_api \<Rightarrow> i32 \<Rightarrow> bytes ptr \<Rightarrow> i32 \<Rightarrow>
   ('r, 'cert, 'key, 'cc, 'sc, i32) tcp_call" where
  "rlsm_tls_conn_write_plaintext api handle data_ptr data_len s =
     (let s = clear_last_error s in
      if is_null data_ptr then
        rlsm_err ''rlsm_tls_conn_write_plaintext: null data pointer'' (-1) s
      else if sint data_len < 0 then
        rlsm_err ''rlsm_tls_conn_write_plaintext: negative data_len'' (-1) s
      else obind (from_raw_parts data_ptr (usize_of_i32 data_len)) (\<lambda>data.
        case CONN_TABLE s handle of
          None \<Rightarrow> rlsm_err ''rlsm_tls_conn_write_plaintext: invalid connection handle'' (-1) s
        | Some conn \<Rightarrow>
            case write_plaintext_loop api data 0 conn of
              (Inl msg, conn) \<Rightarrow>
                rlsm_err msg (-1) (s\<lparr>CONN_TABLE := (CONN_TABLE s)(handle \<mapsto> conn)\<rparr>)
            | (Inr tot, conn) \<Rightarrow>
                case TlsConn_process_new_packets api conn of
                  (Inl e, conn) \<Rightarrow>
                    rlsm_err (''rlsm_tls_conn_write_plaintext: process_new_packets failed: '' @ e) (-1)
                      (s\<lparr>CONN_TABLE := (CONN_TABLE s)(handle \<mapsto> conn)\<rparr>)
                | (Inr _, conn) \<Rightarrow>
                    Ret (i32_of_usize tot, s\<lparr>CONN_TABLE := (CONN_TABLE s)(handle \<mapsto> conn)\<rparr>)))"

definition rlsm_tls_conn_is_handshaking ::
  "('r, 'cert, 'key, 'name, 'cc, 'sc) tls_api \<Rightarrow> i32 \<Rightarrow> ('r, 'cert, 'key, 'cc, 'sc, i32) tcp_call" where
  "rlsm_tls_conn_is_handshaking api handle s =
     (let s = clear_last_error s in
      case HandleTable_with handle (\<lambda>conn. if TlsConn_is_handshaking api conn then 1 else 0) (CONN_TABLE s) of
        Some v \<Rightarrow> Ret (v, s)
      | None \<Rightarrow> rlsm_err ''rlsm_tls_conn_is_handshaking: invalid connection handle'' (-1) s)"

definition rlsm_tls_conn_alpn ::
  "('r, 'cert, 'key, 'name, 'cc, 'sc) tls_api \<Rightarrow> i32 \<Rightarrow> bytes ptr \<Rightarrow> i32 \<Rightarrow>
   ('r, 'cert, 'key, 'cc, 'sc, i32 \<times> bytes ptr) tcp_call" where
  "rlsm_tls_conn_alpn api handle out_buf buf_len s =
     (let s = clear_last_error s in
      if is_null out_buf then
        rlsm_err ''rlsm_tls_conn_alpn: null out_buf pointer'' (-1, out_buf) s
      else if sint buf_len < 0 then
        rlsm_err ''rlsm_tls_conn_alpn: negative buf_len'' (-1, out_buf) s
      else obind (from_raw_parts out_buf (usize_of_i32 buf_len)) (\<lambda>buf.
        case CONN_TABLE s handle of
          None \<Rightarrow> rlsm_err ''rlsm_tls_conn_alpn: invalid connection handle'' (-1, out_buf) s
        | Some conn \<Rightarrow>
            case TlsConn_alpn_protocol api conn of
              None \<Rightarrow> Ret ((0, out_buf), s)
            | Some proto \<Rightarrow>
                if length proto > length buf then
                  rlsm_err (''rlsm_tls_conn_alpn: buffer too small; need '' @ dec_nat (length proto) @ '' bytes'')
                    (-1, out_buf) s
                else Ret ((i32_of_usize (length proto), put_slice proto out_buf), s)))"

section \<open>What the loops rely on\<close>

text \<open>
  \<open>feeds received a\<close>: one \<open>read_tls\<close> call either fails or reports 0 without touching the
  reader, or reads once through the reader it is given, reports that many bytes and takes
  exactly these; \<open>received\<close> is the ciphertext a connection has been given so far, which
  processing does not change.
\<close>

definition feeds :: "('c \<Rightarrow> bytes) \<Rightarrow> 'c conn_api \<Rightarrow> bool" where
  "feeds received a \<longleftrightarrow>
     (\<forall>read rd c.
        (\<exists>r c'. api_read_tls a read rd c = Ret (r, rd, c') \<and> received c' = received c
           \<and> (r = Inr 0 \<or> (\<exists>e. r = Inl e)))
      \<or> (\<exists>want conv. api_read_tls a read rd c =
              obind (read want rd) (\<lambda>(bs, rd'). Ret (Inr (length bs), rd', conv bs))
           \<and> (\<forall>bs. received (conv bs) = received c @ bs)))
   \<and> (\<forall>c. received (snd (api_process_new_packets a c)) = received c)"

text \<open>
  \<open>accepts sent a\<close>: a successful write takes a prefix of the data offered, of the length
  it reports; \<open>sent\<close> is the plaintext accepted so far.
\<close>

definition accepts :: "('c \<Rightarrow> bytes) \<Rightarrow> 'c conn_api \<Rightarrow> bool" where
  "accepts sent a \<longleftrightarrow>
     (\<forall>data n c c'. api_writer_write a data c = (Inr n, c') \<longrightarrow>
        n \<le> length data \<and> sent c' = sent c @ take n data)
   \<and> (\<forall>data e c c'. api_writer_write a data c = (Inl e, c') \<longrightarrow> sent c' = sent c)
   \<and> (\<forall>c. sent (snd (api_process_new_packets a c)) = sent c)"

text \<open>A writer that always takes something of a non-empty offer.\<close>

definition eager :: "'c conn_api \<Rightarrow> bool" where
  "eager a \<longleftrightarrow> (\<forall>data c. data \<noteq> [] \<longrightarrow> (\<exists>n c'. api_writer_write a data c = (Inr n, c') \<and> 0 < n))"

text \<open>A ghost of both kinds of connection.\<close>

fun ghost :: "('cc \<Rightarrow> 'g) \<Rightarrow> ('sc \<Rightarrow> 'g) \<Rightarrow> ('cc, 'sc) TlsConn \<Rightarrow> 'g" where
  "ghost gc gs (TlsConn_Client c) = gc c"
| "ghost gc gs (TlsConn_Server c) = gs c"

section \<open>Lemmas: the adapters\<close>

lemma SliceReader_read_ok:
  assumes "sr_pos rd \<le> length (sr_data rd)"
  obtains bs where "SliceReader_read n rd = Ret (bs, rd\<lparr>sr_pos := sr_pos rd + length bs\<rparr>)"
    "bs = take (length bs) (drop (sr_pos rd) (sr_data rd))"
    "sr_pos rd + length bs \<le> length (sr_data rd)"
  using assms by (simp add: SliceReader_read_def Let_def)

lemma SliceWriter_write_ok:
  assumes "sw_pos w \<le> length (sw_buf w)"
  shows "\<exists>k w'. SliceWriter_write data w = Ret (k, w') \<and> k \<le> length data
    \<and> sw_pos w' = sw_pos w + k \<and> sw_pos w' \<le> length (sw_buf w')
    \<and> length (sw_buf w') = length (sw_buf w)
    \<and> take (sw_pos w') (sw_buf w') = take (sw_pos w) (sw_buf w) @ take k data
    \<and> drop (sw_pos w') (sw_buf w') = drop (sw_pos w') (sw_buf w)"
  using assms by (auto simp: SliceWriter_write_def Let_def min_def)

section \<open>Lemmas: feeding ciphertext\<close>

text \<open>One call on a connection of either kind.\<close>

lemma TlsConn_read_tls_feeds:
  assumes "feeds gc (client_api api)" "feeds gs (server_api api)"
    and pos: "sr_pos rd \<le> length (sr_data rd)"
  obtains r rd' conn' where "TlsConn_read_tls api rd conn = Ret (r, rd', conn')"
    "sr_data rd' = sr_data rd" "sr_pos rd \<le> sr_pos rd'" "sr_pos rd' \<le> length (sr_data rd)"
    "ghost gc gs conn' = ghost gc gs conn @ take (sr_pos rd' - sr_pos rd) (drop (sr_pos rd) (sr_data rd))"
    "\<And>n. r = Inr n \<Longrightarrow> n = sr_pos rd' - sr_pos rd"
proof -
  have one: "\<exists>r rd' c'. api_read_tls a SliceReader_read rd c = Ret (r, rd', c')
      \<and> sr_data rd' = sr_data rd \<and> sr_pos rd \<le> sr_pos rd' \<and> sr_pos rd' \<le> length (sr_data rd)
      \<and> g c' = g c @ take (sr_pos rd' - sr_pos rd) (drop (sr_pos rd) (sr_data rd))
      \<and> (\<forall>n. r = Inr n \<longrightarrow> n = sr_pos rd' - sr_pos rd)"
    if "feeds g a" for g :: "'x \<Rightarrow> bytes" and a c
  proof -
    from that consider (none) r c' where "api_read_tls a SliceReader_read rd c = Ret (r, rd, c')"
        "g c' = g c" "r = Inr 0 \<or> (\<exists>e. r = Inl e)"
      | (once) want conv where "api_read_tls a SliceReader_read rd c =
          obind (SliceReader_read want rd) (\<lambda>(bs, rd'). Ret (Inr (length bs), rd', conv bs))"
          "\<forall>bs. g (conv bs) = g c @ bs"
      unfolding feeds_def by meson
    then show ?thesis
    proof cases
      case none
      then show ?thesis using pos by auto
    next
      case once
      obtain bs where bs: "SliceReader_read want rd = Ret (bs, rd\<lparr>sr_pos := sr_pos rd + length bs\<rparr>)"
        "bs = take (length bs) (drop (sr_pos rd) (sr_data rd))"
        "sr_pos rd + length bs \<le> length (sr_data rd)"
        by (rule SliceReader_read_ok [OF pos])
      then show ?thesis using once by simp
    qed
  qed
  show thesis
  proof (cases conn)
    case (TlsConn_Client c)
    with one [OF assms(1), of c] that show ?thesis by fastforce
  next
    case (TlsConn_Server c)
    with one [OF assms(2), of c] that show ?thesis by fastforce
  qed
qed

lemma feeds_process: "feeds g a \<Longrightarrow> api_process_new_packets a c = (r, c') \<Longrightarrow> g c' = g c"
  unfolding feeds_def by (metis snd_conv)

lemma accepts_process: "accepts g a \<Longrightarrow> api_process_new_packets a c = (r, c') \<Longrightarrow> g c' = g c"
  unfolding accepts_def by (metis snd_conv)

lemma TlsConn_process_feeds:
  assumes "feeds gc (client_api api)" "feeds gs (server_api api)"
    and "TlsConn_process_new_packets api conn = (r, conn')"
  shows "ghost gc gs conn' = ghost gc gs conn"
  using assms
  by (cases conn) (auto simp: map_prod_def split: prod.splits dest: feeds_process)

lemma TlsConn_process_accepts:
  assumes "accepts gc (client_api api)" "accepts gs (server_api api)"
    and "TlsConn_process_new_packets api conn = (r, conn')"
  shows "ghost gc gs conn' = ghost gc gs conn"
  using assms
  by (cases conn) (auto simp: map_prod_def split: prod.splits dest: accepts_process)

text \<open>The loop returns, and the connection has been given the input up to the final position.\<close>

lemma read_tls_loop_returns:
  assumes api: "feeds gc (client_api api)" "feeds gs (server_api api)"
  shows "sr_pos rd \<le> length (sr_data rd) \<Longrightarrow> \<exists>res conn' k.
    read_tls_loop api rd conn = Some (Ret (res, conn')) \<and> sr_pos rd + k \<le> length (sr_data rd)
    \<and> ghost gc gs conn' = ghost gc gs conn @ take k (drop (sr_pos rd) (sr_data rd))
    \<and> (\<forall>n. res = Inr n \<longrightarrow> n = i32_of_usize (sr_pos rd + k))"
proof (induction "length (sr_data rd) - sr_pos rd" arbitrary: rd conn rule: less_induct)
  case less
  obtain r rd' conn1 where call: "TlsConn_read_tls api rd conn = Ret (r, rd', conn1)"
    and rd': "sr_data rd' = sr_data rd" "sr_pos rd \<le> sr_pos rd'" "sr_pos rd' \<le> length (sr_data rd)"
    and g1: "ghost gc gs conn1 =
      ghost gc gs conn @ take (sr_pos rd' - sr_pos rd) (drop (sr_pos rd) (sr_data rd))"
    and n: "\<And>n. r = Inr n \<Longrightarrow> n = sr_pos rd' - sr_pos rd"
    using TlsConn_read_tls_feeds [OF api less.prems, of conn] by blast
  let ?k = "sr_pos rd' - sr_pos rd"
  have le: "sr_pos rd + ?k \<le> length (sr_data rd)" "sr_pos rd + ?k = sr_pos rd'" using rd' by auto
  show ?case
  proof (cases r)
    case (Inl e)
    then have "read_tls_loop api rd conn =
        Some (Ret (Inl (''rlsm_tls_conn_read_tls: read_tls failed: '' @ e), conn1))"
      using call by (subst read_tls_loop.simps) simp
    then show ?thesis using g1 le(1) by auto
  next
    case (Inr c)
    obtain pr conn2 where proc: "TlsConn_process_new_packets api conn1 = (pr, conn2)" by fastforce
    have g2: "ghost gc gs conn2 = ghost gc gs conn1"
      by (rule TlsConn_process_feeds [OF api proc])
    show ?thesis
    proof (cases "(\<exists>e. pr = Inl e) \<or> c = 0 \<or> sr_pos rd' \<ge> length (sr_data rd')")
      case True
      then have "\<exists>res. read_tls_loop api rd conn = Some (Ret (res, conn2))
          \<and> (\<forall>n. res = Inr n \<longrightarrow> n = i32_of_usize (sr_pos rd'))"
        using call Inr proc by (subst read_tls_loop.simps) (auto split: sum.splits)
      then show ?thesis using g1 g2 le by (metis (no_types, lifting))
    next
      case False
      then obtain u where u: "pr = Inr u" by (cases pr) auto
      have step: "read_tls_loop api rd conn = read_tls_loop api rd' conn2"
        using call Inr proc u False by (subst read_tls_loop.simps) simp
      have "length (sr_data rd') - sr_pos rd' < length (sr_data rd) - sr_pos rd"
        using False n [OF Inr] rd' by auto
      from less.hyps [OF this] rd' obtain res conn' k where
        "read_tls_loop api rd' conn2 = Some (Ret (res, conn'))" "sr_pos rd' + k \<le> length (sr_data rd)"
        "ghost gc gs conn' = ghost gc gs conn2 @ take k (drop (sr_pos rd') (sr_data rd))"
        "\<forall>n. res = Inr n \<longrightarrow> n = i32_of_usize (sr_pos rd' + k)"
        by fastforce
      moreover have "take (?k + k) (drop (sr_pos rd) (sr_data rd)) =
          take ?k (drop (sr_pos rd) (sr_data rd)) @ take k (drop (sr_pos rd') (sr_data rd))"
        unfolding take_add using rd' by simp
      ultimately show ?thesis
        using step g1 g2 rd' by (intro exI [of _ res] exI [of _ conn'] exI [of _ "?k + k"]) auto
    qed
  qed
qed

section \<open>Lemmas: writing plaintext\<close>

lemma TlsConn_write_accepts:
  assumes "accepts gc (client_api api)" "accepts gs (server_api api)"
    and "TlsConn_write_plaintext api data conn = (r, conn')"
  shows "(\<exists>e. r = Inl e) \<and> ghost gc gs conn' = ghost gc gs conn
    \<or> (\<exists>n \<le> length data. r = Inr n \<and> ghost gc gs conn' = ghost gc gs conn @ take n data)"
  using assms
  by (cases conn; cases r) (auto simp: accepts_def map_prod_def split: prod.splits)

lemma TlsConn_write_eager:
  assumes "eager (client_api api)" "eager (server_api api)" "data \<noteq> []"
  obtains n conn' where "TlsConn_write_plaintext api data conn = (Inr n, conn')" "0 < n"
proof (cases conn)
  case (TlsConn_Client c)
  moreover obtain n c' where "api_writer_write (client_api api) data c = (Inr n, c')" "0 < n"
    using assms unfolding eager_def by blast
  ultimately show ?thesis using that by simp
next
  case (TlsConn_Server c)
  moreover obtain n c' where "api_writer_write (server_api api) data c = (Inr n, c')" "0 < n"
    using assms unfolding eager_def by blast
  ultimately show ?thesis using that by simp
qed

lemma write_plaintext_loop_sent:
  assumes api: "accepts gc (client_api api)" "accepts gs (server_api api)"
  shows "tot \<le> length data \<Longrightarrow> write_plaintext_loop api data tot conn = (res, conn') \<Longrightarrow>
    \<exists>k. tot + k \<le> length data \<and> ghost gc gs conn' = ghost gc gs conn @ take k (drop tot data)
      \<and> (\<forall>n. res = Inr n \<longrightarrow> n = tot + k)"
proof (induction "length data - tot" arbitrary: tot conn rule: less_induct)
  case less
  show ?case
  proof (cases "tot < length data")
    case False
    then have "res = Inr tot" "conn' = conn"
      using less.prems by (simp_all add: write_plaintext_loop.simps)
    then show ?thesis using less.prems by auto
  next
    case True
    obtain r conn1 where call: "TlsConn_write_plaintext api (drop tot data) conn = (r, conn1)"
      by fastforce
    from TlsConn_write_accepts [OF api call] show ?thesis
    proof (elim disjE conjE exE)
      fix e assume "r = Inl e" "ghost gc gs conn1 = ghost gc gs conn"
      with less.prems True call show ?thesis
        by (auto simp: write_plaintext_loop.simps [of api data tot])
    next
      fix n assume n: "n \<le> length (drop tot data)" "r = Inr n"
        and g: "ghost gc gs conn1 = ghost gc gs conn @ take n (drop tot data)"
      show ?thesis
      proof (cases "n = 0")
        case True
        with n g less.prems \<open>tot < length data\<close> call show ?thesis
          by (auto simp: write_plaintext_loop.simps [of api data tot])
      next
        case False
        then have step: "write_plaintext_loop api data (tot + n) conn1 = (res, conn')"
          using n less.prems True call by (simp add: write_plaintext_loop.simps [of api data tot])
        have "length data - (tot + n) < length data - tot" "tot + n \<le> length data"
          using n True False by auto
        from less.hyps [OF this step] obtain k where "tot + n + k \<le> length data"
          "ghost gc gs conn' = ghost gc gs conn1 @ take k (drop (tot + n) data)"
          "\<forall>m. res = Inr m \<longrightarrow> m = tot + n + k" by blast
        then show ?thesis using g
          unfolding drop_drop [symmetric, of n tot] add.commute [of tot n]
          by (intro exI [of _ "n + k"]) (auto simp: take_add)
      qed
    qed
  qed
qed

lemma write_plaintext_loop_eager:
  assumes "eager (client_api api)" "eager (server_api api)"
  shows "\<exists>n conn'. write_plaintext_loop api data tot conn = (Inr n, conn') \<and> length data \<le> n"
proof (induction "length data - tot" arbitrary: tot conn rule: less_induct)
  case less
  show ?case
  proof (cases "tot < length data")
    case False
    then show ?thesis by (simp add: write_plaintext_loop.simps)
  next
    case True
    then obtain n conn1 where
      "TlsConn_write_plaintext api (drop tot data) conn = (Inr n, conn1)" "0 < n"
      using TlsConn_write_eager [OF assms, of "drop tot data" conn] by auto
    with True less.hyps [of "tot + n" conn1] show ?thesis
      by (auto simp: write_plaintext_loop.simps [of api data tot])
  qed
qed

lemma CONN_TABLE_set_last_error [simp]: "CONN_TABLE (set_last_error m s) = CONN_TABLE s"
  by (simp add: set_last_error_def)

lemma CONN_TABLE_clear_last_error [simp]: "CONN_TABLE (clear_last_error s) = CONN_TABLE s"
  by (simp add: clear_last_error_def)

section \<open>Properties\<close>

text \<open>
  C11. \<open>rlsm_tls_conn_read_tls\<close> always returns: on a valid buffer and a live handle the
  loop ends, the connection has been given a prefix of the ciphertext, in order, no byte
  dropped or repeated, and a non-negative result is the length of that prefix. Every other
  connection is untouched.
\<close>

theorem read_tls_feeds_prefix:
  fixes s :: "('r, 'cert, 'key, 'cc, 'sc) tcp_shim"
  assumes "feeds gc (client_api api)" and "feeds gs (server_api api)"
    and "nat (sint n) \<le> length mem" and "0 \<le> sint n" and "CONN_TABLE s h = Some conn"
  shows "\<exists>r s' conn' k. rlsm_tls_conn_read_tls api h (Ptr mem) n s = Some (Ret (r, s'))
    \<and> CONN_TABLE s' = (CONN_TABLE s)(h \<mapsto> conn')
    \<and> k \<le> nat (sint n) \<and> ghost gc gs conn' = ghost gc gs conn @ take k mem
    \<and> (r = -1 \<and> LAST_ERROR s' \<noteq> None \<or> sint r = int k \<and> LAST_ERROR s' = None)"
proof -
  let ?data = "take (nat (sint n)) mem"
  obtain res conn' k where
    loop: "read_tls_loop api \<lparr>sr_data = ?data, sr_pos = 0\<rparr> conn = Some (Ret (res, conn'))"
    and k: "k \<le> length ?data" "ghost gc gs conn' = ghost gc gs conn @ take k ?data"
      "\<forall>n. res = Inr n \<longrightarrow> n = i32_of_usize k"
    using read_tls_loop_returns [OF assms(1,2), of "\<lparr>sr_data = ?data, sr_pos = 0\<rparr>" conn] by auto
  have "k \<le> nat (sint n)" "k < 2 ^ 31" "take k ?data = take k mem"
    using k(1) sint_lt [of n] assms(3) by auto
  moreover have "from_raw_parts (Ptr mem) (usize_of_i32 n) = Ret ?data"
    using assms(3,4) by (simp add: usize_of_i32_nonneg from_raw_parts_Ptr)
  ultimately show ?thesis
    using loop k assms(4,5)
    by (cases res) (auto simp: rlsm_tls_conn_read_tls_def Let_def sint_i32_of_usize
        simp del: read_tls_loop.simps)
qed

text \<open>
  C12. \<open>rlsm_tls_conn_write_plaintext\<close> hands the writer a prefix of the data, in order; a
  non-negative result is the length of that prefix, so a writer that stops early is
  reported as a short count and not as an error. With a writer that always takes
  something, the loop hands over all of the data.
\<close>

theorem write_plaintext_sends_prefix:
  fixes s :: "('r, 'cert, 'key, 'cc, 'sc) tcp_shim"
  assumes "accepts gc (client_api api)" and "accepts gs (server_api api)"
    and "nat (sint n) \<le> length mem" and "0 \<le> sint n" and "CONN_TABLE s h = Some conn"
  shows "\<exists>r s' conn' k. rlsm_tls_conn_write_plaintext api h (Ptr mem) n s = Ret (r, s')
    \<and> CONN_TABLE s' = (CONN_TABLE s)(h \<mapsto> conn')
    \<and> k \<le> nat (sint n) \<and> ghost gc gs conn' = ghost gc gs conn @ take k mem
    \<and> (r = -1 \<and> LAST_ERROR s' \<noteq> None \<or> sint r = int k \<and> LAST_ERROR s' = None)
    \<and> (eager (client_api api) \<and> eager (server_api api) \<longrightarrow> k = nat (sint n))"
proof -
  let ?data = "take (nat (sint n)) mem"
  obtain res conn1 where loop: "write_plaintext_loop api ?data 0 conn = (res, conn1)" by fastforce
  obtain k where k: "k \<le> length ?data" "ghost gc gs conn1 = ghost gc gs conn @ take k ?data"
      "\<forall>n. res = Inr n \<longrightarrow> n = k"
    using write_plaintext_loop_sent [OF assms(1,2) _ loop] by auto
  obtain pr conn2 where proc: "TlsConn_process_new_packets api conn1 = (pr, conn2)" by fastforce
  have g2: "ghost gc gs conn2 = ghost gc gs conn1"
    by (rule TlsConn_process_accepts [OF assms(1,2) proc])
  have k': "k \<le> nat (sint n)" "k < 2 ^ 31" "take k ?data = take k mem"
    using k(1) sint_lt [of n] assms(3) by auto
  have all: "k = nat (sint n)" if "eager (client_api api)" "eager (server_api api)"
    using write_plaintext_loop_eager [OF that, of ?data 0 conn] loop k assms(3) by auto
  have "from_raw_parts (Ptr mem) (usize_of_i32 n) = Ret ?data"
    using assms(3,4) by (simp add: usize_of_i32_nonneg from_raw_parts_Ptr)
  with loop proc k k' g2 all assms(4,5) show ?thesis
    by (cases res; cases pr)
      (auto simp: rlsm_tls_conn_write_plaintext_def Let_def sint_i32_of_usize rlsm_err_def)
qed

text \<open>A connection that buffers what it is given, two bytes of ciphertext at a time.\<close>

definition sample_conn_api :: "(bytes \<times> bytes) conn_api" where
  "sample_conn_api =
     \<lparr>api_read_tls = (\<lambda>read rd c. obind (read 2 rd)
        (\<lambda>(bs, rd'). Ret (Inr (length bs), rd', (fst c @ bs, snd c)))),
      api_write_tls = (\<lambda>write wr c. Ret (Inr 0, wr, c)),
      api_process_new_packets = (\<lambda>c. (Inr (), c)),
      api_reader_read = (\<lambda>n c. (Inr [], c)),
      api_writer_write = (\<lambda>data c. (Inr (min 3 (length data)), (fst c, snd c @ take 3 data))),
      api_is_handshaking = (\<lambda>c. False),
      api_alpn_protocol = (\<lambda>c. None)\<rparr>"

definition sample_tls_api ::
  "(unit, unit, unit, unit, bytes \<times> bytes, bytes \<times> bytes) tls_api" where
  "sample_tls_api =
     \<lparr>server_name_try_from = (\<lambda>_. Inr ()),
      client_connection_new = (\<lambda>_ _. Inr ([], [])),
      server_connection_new = (\<lambda>_. Inr ([], [])),
      client_api = sample_conn_api, server_api = sample_conn_api\<rparr>"

definition sample_tcp :: "(unit, unit, unit, bytes \<times> bytes, bytes \<times> bytes) tcp_shim" where
  "sample_tcp = \<lparr>LAST_ERROR = None, NEXT_HANDLE = 4, CONFIG_TABLE = Map.empty,
     CONN_TABLE = [3 \<mapsto> TlsConn_Client ([], [])]\<rparr>"

lemma sample_feeds: "feeds fst (client_api sample_tls_api)" "feeds fst (server_api sample_tls_api)"
  by (fastforce simp: feeds_def sample_tls_api_def sample_conn_api_def)+

lemma sample_accepts:
  "accepts snd (client_api sample_tls_api)" "accepts snd (server_api sample_tls_api)"
  "eager (client_api sample_tls_api)" "eager (server_api sample_tls_api)"
  by (auto simp: accepts_def eager_def sample_tls_api_def sample_conn_api_def min_def)

theorem read_tls_feeds_prefix_witness:
  "\<exists>r s' conn' k. rlsm_tls_conn_read_tls sample_tls_api 3 (Ptr [1, 2, 3, 4, 5, 9]) 5 sample_tcp = Some (Ret (r, s'))
    \<and> CONN_TABLE s' 3 = Some conn' \<and> ghost fst fst conn' = take k [1, 2, 3, 4, 5, 9] \<and> k \<le> 5"
  using read_tls_feeds_prefix [OF sample_feeds, of 5 "[1, 2, 3, 4, 5, 9]" sample_tcp 3 "TlsConn_Client ([], [])"]
  by (auto simp: sample_tcp_def)

theorem write_plaintext_sends_prefix_witness:
  "\<exists>r s' conn'. rlsm_tls_conn_write_plaintext sample_tls_api 3 (Ptr [1, 2, 3, 4, 5, 9]) 5 sample_tcp = Ret (r, s')
    \<and> CONN_TABLE s' 3 = Some conn' \<and> ghost snd snd conn' = [1, 2, 3, 4, 5]"
  using write_plaintext_sends_prefix [OF sample_accepts(1,2), of 5 "[1, 2, 3, 4, 5, 9]" sample_tcp 3 "TlsConn_Client ([], [])"]
    sample_accepts(3,4)
  by (auto simp: sample_tcp_def)

end
