(* ===== verification/Quic_Keys.thy ===== *)
theory Quic_Keys
  imports Handle_Table Rust_Std
begin

text \<open>
  QUIC packet-protection keys behind handles (\<open>crates/librustls-mojo/src/quic.rs\<close>): key
  entries, encryption with its packet-number check, decryption, header protection, and
  the release of keys. rustls' key objects are records of functions; what the code relies
  on about them is stated in \<open>wf_packet_key\<close>, \<open>opens\<close> and \<open>unmasks\<close>.
\<close>

section \<open>Keys\<close>

text \<open>
  \<open>PacketKey\<close>: \<open>encrypt_in_place\<close> returns the tag and the payload after the call,
  \<open>decrypt_in_place\<close> the length of the plaintext, which is a prefix of the payload after
  the call.
\<close>

record packet_key =
  pk_encrypt_in_place :: "u64 \<Rightarrow> bytes \<Rightarrow> bytes \<Rightarrow> (string + bytes) \<times> bytes"
  pk_decrypt_in_place :: "u64 \<Rightarrow> bytes \<Rightarrow> bytes \<Rightarrow> (string + nat) \<times> bytes"
  pk_tag_len :: nat

text \<open>\<open>HeaderProtectionKey\<close>: sample, first byte, packet-number bytes.\<close>

record header_key =
  hk_encrypt_in_place :: "bytes \<Rightarrow> byte \<Rightarrow> bytes \<Rightarrow> (string + unit) \<times> byte \<times> bytes"
  hk_decrypt_in_place :: "bytes \<Rightarrow> byte \<Rightarrow> bytes \<Rightarrow> (string + unit) \<times> byte \<times> bytes"
  hk_sample_len :: nat

record directional_keys =
  dk_header :: header_key
  dk_packet :: packet_key

record keys =
  keys_local :: directional_keys
  keys_remote :: directional_keys

record KeysEntry =
  ke_local :: directional_keys
  ke_remote :: directional_keys
  last_local_pn :: "u64 option"

record keys_shim = shim +
  KEYS_TABLE :: "KeysEntry handle_table"
  KEYS_FREE_COUNT :: u64

datatype QuicVersion = QuicVersion_V1 | QuicVersion_V2

datatype Side = Side_Client | Side_Server

text \<open>The rustls cipher suite for Initial keys: whether it is a TLS 1.3 suite, whether it
  has a QUIC algorithm, and \<open>Keys::initial\<close> over it.\<close>

record suite_api =
  suite_tls13 :: bool
  suite_quic :: bool
  Keys_initial :: "QuicVersion \<Rightarrow> bytes \<Rightarrow> Side \<Rightarrow> keys"

section \<open>Operations\<close>

definition to_quic_version :: "i32 \<Rightarrow> string + QuicVersion" where
  "to_quic_version v =
     (if v = 1 then Inr QuicVersion_V1 else if v = 2 then Inr QuicVersion_V2
      else Inl (''unsupported QUIC version: '' @ dec_i32 v))"

definition initial_suite :: "suite_api \<Rightarrow> suite_api outcome" where
  "initial_suite suite = (if suite_tls13 suite then Ret suite else Panic)"

definition keys_table_insert :: "KeysEntry \<Rightarrow> 'z keys_shim_scheme \<Rightarrow> i32 option \<times> 'z keys_shim_scheme" where
  "keys_table_insert entry s =
     (case HandleTable_insert entry (NEXT_HANDLE s, KEYS_TABLE s) of
        (h, (c, t)) \<Rightarrow> (h, s\<lparr>NEXT_HANDLE := c, KEYS_TABLE := t\<rparr>))"

definition rlsm_initial_keys ::
  "suite_api \<Rightarrow> i32 \<Rightarrow> bytes ptr \<Rightarrow> i32 \<Rightarrow> i32 \<Rightarrow> 'z keys_shim_scheme \<Rightarrow>
   (i32 \<times> 'z keys_shim_scheme) outcome" where
  "rlsm_initial_keys suite version dcid_ptr dcid_len is_client s =
     (let s = clear_last_error s in
      if sint dcid_len < 0 then rlsm_err ''rlsm_initial_keys: negative dcid_len'' (-1) s
      else if is_null dcid_ptr then rlsm_err ''rlsm_initial_keys: null dcid pointer'' (-1) s
      else obind (from_raw_parts dcid_ptr (usize_of_i32 dcid_len)) (\<lambda>dcid.
        case to_quic_version version of
          Inl msg \<Rightarrow> Ret (-1, set_last_error msg s)
        | Inr qv \<Rightarrow>
            obind (initial_suite suite) (\<lambda>suite.
            if \<not> suite_quic suite then
              rlsm_err ''rlsm_initial_keys: cipher suite has no QUIC algorithm'' (-1) s
            else
              let side = (if is_client \<noteq> 0 then Side_Client else Side_Server);
                  ks = Keys_initial suite qv dcid side;
                  entry = \<lparr>ke_local = keys_local ks, ke_remote = keys_remote ks, last_local_pn = None\<rparr> in
              case keys_table_insert entry s of
                (Some h, s) \<Rightarrow> Ret (h, s)
              | (None, s) \<Rightarrow> rlsm_err ''rlsm_initial_keys: handle counter exhausted'' (-1) s)))"

text \<open>
  The closure of \<open>rlsm_keys_local_encrypt\<close>: result, buffer and entry after it. The packet
  number is recorded before the AEAD runs.
\<close>

definition local_encrypt_entry ::
  "u64 \<Rightarrow> bytes \<Rightarrow> nat \<Rightarrow> bytes \<Rightarrow> KeysEntry \<Rightarrow> (string + nat) \<times> bytes \<times> KeysEntry" where
  "local_encrypt_entry packet_number header payload_len buf entry =
     (if (case last_local_pn entry of Some last_pn \<Rightarrow> packet_number \<le> last_pn | None \<Rightarrow> False) then
        (Inl ''nonce reuse: packet_number must be strictly increasing'', buf, entry)
      else
        let entry = entry\<lparr>last_local_pn := Some packet_number\<rparr> in
        case pk_encrypt_in_place (dk_packet (ke_local entry)) packet_number header (take payload_len buf) of
          (Inl e, p) \<Rightarrow> (Inl (''encrypt: '' @ e), p @ drop payload_len buf, entry)
        | (Inr tag, p) \<Rightarrow>
            let tot = payload_len + length tag in
            if tot > length buf then
              (Inl (''buffer too small: need '' @ dec_nat tot @ '', have '' @ dec_nat (length buf)),
               p @ drop payload_len buf, entry)
            else (Inr tot, p @ tag @ drop tot buf, entry))"

definition rlsm_keys_local_encrypt ::
  "i32 \<Rightarrow> u64 \<Rightarrow> bytes ptr \<Rightarrow> i32 \<Rightarrow> bytes ptr \<Rightarrow> i32 \<Rightarrow> i32 \<Rightarrow> 'z keys_shim_scheme \<Rightarrow>
   ((i32 \<times> bytes ptr) \<times> 'z keys_shim_scheme) outcome" where
  "rlsm_keys_local_encrypt keys_handle packet_number header_ptr header_len payload_ptr payload_len
     buf_capacity s =
     (let s = clear_last_error s in
      if sint header_len < 0 then
        rlsm_err ''rlsm_keys_local_encrypt: negative header_len'' (-1, payload_ptr) s
      else if sint payload_len < 0 then
        rlsm_err ''rlsm_keys_local_encrypt: negative payload_len'' (-1, payload_ptr) s
      else if sint buf_capacity < 0 then
        rlsm_err ''rlsm_keys_local_encrypt: negative buf_capacity'' (-1, payload_ptr) s
      else if is_null header_ptr then
        rlsm_err ''rlsm_keys_local_encrypt: null header pointer'' (-1, payload_ptr) s
      else if is_null payload_ptr then
        rlsm_err ''rlsm_keys_local_encrypt: null payload pointer'' (-1, payload_ptr) s
      else
        let header_len = usize_of_i32 header_len;
            payload_len = usize_of_i32 payload_len;
            buf_capacity = usize_of_i32 buf_capacity in
        if payload_len > buf_capacity then
          rlsm_err ''rlsm_keys_local_encrypt: payload_len > buf_capacity'' (-1, payload_ptr) s
        else
          obind (from_raw_parts header_ptr header_len) (\<lambda>header.
          obind (from_raw_parts payload_ptr buf_capacity) (\<lambda>buf.
          case KEYS_TABLE s keys_handle of
            None \<Rightarrow> rlsm_err ''rlsm_keys_local_encrypt: invalid keys handle'' (-1, payload_ptr) s
          | Some entry \<Rightarrow>
              case local_encrypt_entry packet_number header payload_len buf entry of
                (res, buf, entry) \<Rightarrow>
                  let s = s\<lparr>KEYS_TABLE := (KEYS_TABLE s)(keys_handle \<mapsto> entry)\<rparr>;
                      payload_ptr = put_slice buf payload_ptr in
                  case res of
                    Inr result \<Rightarrow> Ret ((i32_of_usize result, payload_ptr), s)
                  | Inl msg \<Rightarrow> Ret ((-1, payload_ptr), set_last_error msg s))))"

definition rlsm_keys_remote_decrypt ::
  "i32 \<Rightarrow> u64 \<Rightarrow> bytes ptr \<Rightarrow> i32 \<Rightarrow> bytes ptr \<Rightarrow> i32 \<Rightarrow> 'z keys_shim_scheme \<Rightarrow>
   ((i32 \<times> bytes ptr) \<times> 'z keys_shim_scheme) outcome" where
  "rlsm_keys_remote_decrypt keys_handle packet_number header_ptr header_len payload_ptr payload_len s =
     (let s = clear_last_error s in
      if sint header_len < 0 then
        rlsm_err ''rlsm_keys_remote_decrypt: negative header_len'' (-1, payload_ptr) s
      else if sint payload_len < 0 then
        rlsm_err ''rlsm_keys_remote_decrypt: negative payload_len'' (-1, payload_ptr) s
      else if is_null header_ptr then
        rlsm_err ''rlsm_keys_remote_decrypt: null header pointer'' (-1, payload_ptr) s
      else if is_null payload_ptr then
        rlsm_err ''rlsm_keys_remote_decrypt: null payload pointer'' (-1, payload_ptr) s
      else
        obind (from_raw_parts header_ptr (usize_of_i32 header_len)) (\<lambda>header.
        obind (from_raw_parts payload_ptr (usize_of_i32 payload_len)) (\<lambda>payload.
        case KEYS_TABLE s keys_handle of
          None \<Rightarrow> rlsm_err ''rlsm_keys_remote_decrypt: invalid keys handle'' (-1, payload_ptr) s
        | Some entry \<Rightarrow>
            case pk_decrypt_in_place (dk_packet (ke_remote entry)) packet_number header payload of
              (Inr n, payload) \<Rightarrow> Ret ((i32_of_usize n, put_slice payload payload_ptr), s)
            | (Inl e, payload) \<Rightarrow>
                Ret ((-1, put_slice payload payload_ptr), set_last_error (''decrypt: '' @ e) s))))"

text \<open>\<open>first_byte_ptr\<close> designates one byte; \<open>&mut *first_byte_ptr\<close> reads and writes it.\<close>

definition deref :: "'a ptr \<Rightarrow> 'a outcome" where
  "deref p = (case p of Null \<Rightarrow> Undef | Ptr x \<Rightarrow> Ret x)"

definition rlsm_keys_local_header_protect ::
  "i32 \<Rightarrow> bytes ptr \<Rightarrow> i32 \<Rightarrow> byte ptr \<Rightarrow> bytes ptr \<Rightarrow> i32 \<Rightarrow> 'z keys_shim_scheme \<Rightarrow>
   ((i32 \<times> byte ptr \<times> bytes ptr) \<times> 'z keys_shim_scheme) outcome" where
  "rlsm_keys_local_header_protect keys_handle sample_ptr sample_len first_byte_ptr pn_bytes_ptr pn_len s =
     (let s = clear_last_error s in
      if sint sample_len < 0 then
        rlsm_err ''rlsm_keys_local_header_protect: negative sample_len'' (-1, first_byte_ptr, pn_bytes_ptr) s
      else if sint pn_len < 0 then
        rlsm_err ''rlsm_keys_local_header_protect: negative pn_len'' (-1, first_byte_ptr, pn_bytes_ptr) s
      else if is_null sample_ptr then
        rlsm_err ''rlsm_keys_local_header_protect: null sample pointer'' (-1, first_byte_ptr, pn_bytes_ptr) s
      else if is_null first_byte_ptr then
        rlsm_err ''rlsm_keys_local_header_protect: null first_byte pointer'' (-1, first_byte_ptr, pn_bytes_ptr) s
      else if is_null pn_bytes_ptr then
        rlsm_err ''rlsm_keys_local_header_protect: null pn_bytes pointer'' (-1, first_byte_ptr, pn_bytes_ptr) s
      else
        obind (from_raw_parts sample_ptr (usize_of_i32 sample_len)) (\<lambda>sample.
        obind (deref first_byte_ptr) (\<lambda>first_byte.
        obind (from_raw_parts pn_bytes_ptr (usize_of_i32 pn_len)) (\<lambda>pn_bytes.
        case KEYS_TABLE s keys_handle of
          None \<Rightarrow>
            rlsm_err ''rlsm_keys_local_header_protect: invalid keys handle'' (-1, first_byte_ptr, pn_bytes_ptr) s
        | Some entry \<Rightarrow>
            case hk_encrypt_in_place (dk_header (ke_local entry)) sample first_byte pn_bytes of
              (res, first_byte, pn_bytes) \<Rightarrow>
                let first_byte_ptr = Ptr first_byte;
                    pn_bytes_ptr = put_slice pn_bytes pn_bytes_ptr in
                case res of
                  Inr _ \<Rightarrow> Ret ((0, first_byte_ptr, pn_bytes_ptr), s)
                | Inl e \<Rightarrow>
                    Ret ((-1, first_byte_ptr, pn_bytes_ptr), set_last_error (''header protect: '' @ e) s)))))"

definition rlsm_keys_remote_header_unprotect ::
  "i32 \<Rightarrow> bytes ptr \<Rightarrow> i32 \<Rightarrow> byte ptr \<Rightarrow> bytes ptr \<Rightarrow> i32 \<Rightarrow> 'z keys_shim_scheme \<Rightarrow>
   ((i32 \<times> byte ptr \<times> bytes ptr) \<times> 'z keys_shim_scheme) outcome" where
  "rlsm_keys_remote_header_unprotect keys_handle sample_ptr sample_len first_byte_ptr pn_bytes_ptr pn_len s =
     (let s = clear_last_error s in
      if sint sample_len < 0 then
        rlsm_err ''rlsm_keys_remote_header_unprotect: negative sample_len'' (-1, first_byte_ptr, pn_bytes_ptr) s
      else if sint pn_len < 0 then
        rlsm_err ''rlsm_keys_remote_header_unprotect: negative pn_len'' (-1, first_byte_ptr, pn_bytes_ptr) s
      else if is_null sample_ptr then
        rlsm_err ''rlsm_keys_remote_header_unprotect: null sample pointer'' (-1, first_byte_ptr, pn_bytes_ptr) s
      else if is_null first_byte_ptr then
        rlsm_err ''rlsm_keys_remote_header_unprotect: null first_byte pointer'' (-1, first_byte_ptr, pn_bytes_ptr) s
      else if is_null pn_bytes_ptr then
        rlsm_err ''rlsm_keys_remote_header_unprotect: null pn_bytes pointer'' (-1, first_byte_ptr, pn_bytes_ptr) s
      else
        obind (from_raw_parts sample_ptr (usize_of_i32 sample_len)) (\<lambda>sample.
        obind (deref first_byte_ptr) (\<lambda>first_byte.
        obind (from_raw_parts pn_bytes_ptr (usize_of_i32 pn_len)) (\<lambda>pn_bytes.
        case KEYS_TABLE s keys_handle of
          None \<Rightarrow>
            rlsm_err ''rlsm_keys_remote_header_unprotect: invalid keys handle'' (-1, first_byte_ptr, pn_bytes_ptr) s
        | Some entry \<Rightarrow>
            case hk_decrypt_in_place (dk_header (ke_remote entry)) sample first_byte pn_bytes of
              (res, first_byte, pn_bytes) \<Rightarrow>
                let first_byte_ptr = Ptr first_byte;
                    pn_bytes_ptr = put_slice pn_bytes pn_bytes_ptr in
                case res of
                  Inr _ \<Rightarrow> Ret ((0, first_byte_ptr, pn_bytes_ptr), s)
                | Inl e \<Rightarrow>
                    Ret ((-1, first_byte_ptr, pn_bytes_ptr), set_last_error (''header unprotect: '' @ e) s)))))"

definition rlsm_keys_tag_len :: "i32 \<Rightarrow> 'z keys_shim_scheme \<Rightarrow> (i32 \<times> 'z keys_shim_scheme) outcome" where
  "rlsm_keys_tag_len keys_handle s =
     (let s = clear_last_error s in
      case HandleTable_with keys_handle
             (\<lambda>entry. i32_of_usize (pk_tag_len (dk_packet (ke_local entry)))) (KEYS_TABLE s) of
        Some tag_len \<Rightarrow> Ret (tag_len, s)
      | None \<Rightarrow> rlsm_err ''rlsm_keys_tag_len: invalid keys handle'' (-1) s)"

definition rlsm_test_keys_free_count :: "'z keys_shim_scheme \<Rightarrow> u64" where
  "rlsm_test_keys_free_count s = KEYS_FREE_COUNT s"

definition rlsm_test_keys_free_reset :: "'z keys_shim_scheme \<Rightarrow> i32 \<times> 'z keys_shim_scheme" where
  "rlsm_test_keys_free_reset s = (0, s\<lparr>KEYS_FREE_COUNT := 0\<rparr>)"

text \<open>The build with \<open>test-instrumentation\<close>, which counts the keys freed.\<close>

definition rlsm_keys_free :: "i32 \<Rightarrow> 'z keys_shim_scheme \<Rightarrow> (i32 \<times> 'z keys_shim_scheme) outcome" where
  "rlsm_keys_free keys_handle s =
     (let s = clear_last_error s in
      case HandleTable_remove keys_handle (KEYS_TABLE s) of
        (Some _, t) \<Rightarrow> Ret (0, s\<lparr>KEYS_TABLE := t, KEYS_FREE_COUNT := KEYS_FREE_COUNT s + 1\<rparr>)
      | (None, t) \<Rightarrow> rlsm_err ''rlsm_keys_free: invalid keys handle'' (-1) (s\<lparr>KEYS_TABLE := t\<rparr>))"

section \<open>What the code relies on about keys\<close>

text \<open>The in-place operations keep the length of their slice; tags have the stated length.\<close>

definition wf_packet_key :: "packet_key \<Rightarrow> bool" where
  "wf_packet_key k \<longleftrightarrow>
     (\<forall>pn h p r p'. pk_encrypt_in_place k pn h p = (r, p') \<longrightarrow> length p' = length p)
   \<and> (\<forall>pn h p tag p'. pk_encrypt_in_place k pn h p = (Inr tag, p') \<longrightarrow> length tag = pk_tag_len k)
   \<and> (\<forall>pn h p r p'. pk_decrypt_in_place k pn h p = (r, p') \<longrightarrow> length p' = length p)
   \<and> (\<forall>pn h p n p'. pk_decrypt_in_place k pn h p = (Inr n, p') \<longrightarrow> n \<le> length p)"

definition wf_header_key :: "header_key \<Rightarrow> bool" where
  "wf_header_key k \<longleftrightarrow>
     (\<forall>sample b pn r b' pn'. hk_encrypt_in_place k sample b pn = (r, b', pn') \<longrightarrow> length pn' = length pn)
   \<and> (\<forall>sample b pn r b' pn'. hk_decrypt_in_place k sample b pn = (r, b', pn') \<longrightarrow> length pn' = length pn)"

definition wf_entry :: "KeysEntry \<Rightarrow> bool" where
  "wf_entry e \<longleftrightarrow> wf_packet_key (dk_packet (ke_local e)) \<and> wf_packet_key (dk_packet (ke_remote e))
     \<and> wf_header_key (dk_header (ke_local e)) \<and> wf_header_key (dk_header (ke_remote e))"

text \<open>The AEAD pairing: \<open>k'\<close> opens what \<open>k\<close> sealed under the same number and header.\<close>

definition opens :: "packet_key \<Rightarrow> packet_key \<Rightarrow> bool" where
  "opens k k' \<longleftrightarrow> (\<forall>pn h p tag c. pk_encrypt_in_place k pn h p = (Inr tag, c) \<longrightarrow>
     (\<exists>rest. pk_decrypt_in_place k' pn h (c @ tag) = (Inr (length p), p @ rest)))"

text \<open>
  The header-protection pairing: \<open>k'\<close> unmasks the first byte and as many packet-number
  bytes as that byte says, and leaves the bytes after them.
\<close>

definition pn_length_of :: "byte \<Rightarrow> nat" where
  "pn_length_of b = unat (b AND 3) + 1"

definition unmasks :: "header_key \<Rightarrow> header_key \<Rightarrow> bool" where
  "unmasks k k' \<longleftrightarrow> (\<forall>sample b pn b' pn' rest.
     hk_encrypt_in_place k sample b pn = (Inr (), b', pn') \<longrightarrow> length pn = pn_length_of b \<longrightarrow>
     length pn + length rest \<le> 4 \<longrightarrow>
     hk_decrypt_in_place k' sample b' (pn' @ rest) = (Inr (), b, pn @ rest))"

text \<open>
  Masking touches the low bits of the first byte only: four of a long header, five of a
  short one.
\<close>

definition keeps_form :: "header_key \<Rightarrow> bool" where
  "keeps_form k \<longleftrightarrow> (\<forall>sample b pn r b' pn'.
     hk_encrypt_in_place k sample b pn = (r, b', pn') \<longrightarrow>
     (if b AND 0x80 = 0 then b' AND 0xE0 = b AND 0xE0 else b' AND 0xF0 = b AND 0xF0))"

text \<open>
  A sequence of encryption requests on one entry: packet number, header, payload length,
  buffer. \<open>sealed_pns\<close> collects the numbers under which the AEAD ran.
\<close>

type_synonym seal_request = "u64 \<times> bytes \<times> nat \<times> bytes"

definition reuses :: "u64 \<Rightarrow> KeysEntry \<Rightarrow> bool" where
  "reuses pn e = (case last_local_pn e of Some last_pn \<Rightarrow> pn \<le> last_pn | None \<Rightarrow> False)"

fun seal_all :: "seal_request list \<Rightarrow> KeysEntry \<Rightarrow> KeysEntry" where
  "seal_all [] e = e"
| "seal_all ((pn, h, n, buf) # reqs) e = seal_all reqs (snd (snd (local_encrypt_entry pn h n buf e)))"

fun sealed_pns :: "seal_request list \<Rightarrow> KeysEntry \<Rightarrow> u64 list" where
  "sealed_pns [] e = []"
| "sealed_pns ((pn, h, n, buf) # reqs) e =
     (if reuses pn e then [] else [pn]) @ sealed_pns reqs (snd (snd (local_encrypt_entry pn h n buf e)))"

section \<open>Lemmas\<close>

lemma deref_Ptr [ffi_simps]: "deref (Ptr x) = Ret x"
  by (simp add: deref_def)

lemma keys_set_last_error [simp]:
  "KEYS_TABLE (set_last_error m s) = KEYS_TABLE s" "KEYS_FREE_COUNT (set_last_error m s) = KEYS_FREE_COUNT s"
  by (simp_all add: set_last_error_def)

lemma keys_clear_last_error [simp]:
  "KEYS_TABLE (clear_last_error s) = KEYS_TABLE s" "KEYS_FREE_COUNT (clear_last_error s) = KEYS_FREE_COUNT s"
  by (simp_all add: clear_last_error_def)

lemma wf_packet_keyD:
  assumes "wf_packet_key k"
  shows "pk_encrypt_in_place k pn h p = (r, p') \<Longrightarrow> length p' = length p"
    and "pk_encrypt_in_place k pn h p = (Inr tag, p') \<Longrightarrow> length tag = pk_tag_len k"
    and "pk_decrypt_in_place k pn h p = (r', p') \<Longrightarrow> length p' = length p"
    and "pk_decrypt_in_place k pn h p = (Inr n, p') \<Longrightarrow> n \<le> length p"
  using assms unfolding wf_packet_key_def by metis+

lemma wf_header_keyD:
  assumes "wf_header_key k"
  shows "hk_encrypt_in_place k sample b pn = (r, b', pn') \<Longrightarrow> length pn' = length pn"
    and "hk_decrypt_in_place k sample b pn = (r, b', pn') \<Longrightarrow> length pn' = length pn"
  using assms unfolding wf_header_key_def by metis+

text \<open>What one encryption does to the entry: nothing, or the number is recorded.\<close>

lemma local_encrypt_entry_reuse:
  "reuses pn e \<Longrightarrow> local_encrypt_entry pn h n buf e =
     (Inl ''nonce reuse: packet_number must be strictly increasing'', buf, e)"
  by (simp add: local_encrypt_entry_def reuses_def)

lemma local_encrypt_entry_records:
  "\<not> reuses pn e \<Longrightarrow> snd (snd (local_encrypt_entry pn h n buf e)) = e\<lparr>last_local_pn := Some pn\<rparr>"
  by (auto simp: local_encrypt_entry_def reuses_def Let_def split: prod.splits sum.splits)

lemma local_encrypt_entry_length:
  assumes "wf_packet_key (dk_packet (ke_local e))" "n \<le> length buf"
    and "local_encrypt_entry pn h n buf e = (r, buf', e')"
  shows "length buf' = length buf"
proof -
  obtain q p where enc: "pk_encrypt_in_place (dk_packet (ke_local e)) pn h (take n buf) = (q, p)"
    by fastforce
  then have "length p = n"
    using wf_packet_keyD(1) [OF assms(1) enc] assms(2) by simp
  with enc assms(2,3) show ?thesis
    by (auto simp: local_encrypt_entry_def Let_def split: if_splits sum.splits)
qed

lemma sealed_pns_increasing:
  "sorted_wrt (<) (sealed_pns reqs e) \<and>
   (\<forall>pn \<in> set (sealed_pns reqs e). \<forall>l. last_local_pn e = Some l \<longrightarrow> l < pn)"
proof (induction reqs arbitrary: e)
  case (Cons req reqs)
  obtain pn h n buf where req: "req = (pn, h, n, buf)" by (cases req)
  let ?e = "snd (snd (local_encrypt_entry pn h n buf e))"
  note IH = Cons.IH [of ?e]
  show ?case
  proof (cases "reuses pn e")
    case True
    then show ?thesis using IH req by (simp add: local_encrypt_entry_reuse)
  next
    case False
    then have e: "?e = e\<lparr>last_local_pn := Some pn\<rparr>" by (rule local_encrypt_entry_records)
    then have "\<forall>pn' \<in> set (sealed_pns reqs ?e). pn < pn'" using IH by simp
    moreover have "\<forall>l. last_local_pn e = Some l \<longrightarrow> l < pn"
      using False by (auto simp: reuses_def)
    ultimately show ?thesis
      using IH req False by (auto intro: less_trans)
  qed
qed simp

lemma seal_all_append: "seal_all (r1 @ r2) e = seal_all r2 (seal_all r1 e)"
  by (induction r1 e rule: seal_all.induct) auto

text \<open>The calls on valid arguments, past the checks.\<close>

lemma local_encrypt_valid:
  assumes "hn \<le> length hm" "n \<le> cap" "cap \<le> length pm" "hn < 2 ^ 31" "cap < 2 ^ 31"
    and "KEYS_TABLE s h = Some e"
    and "local_encrypt_entry pn (take hn hm) n (take cap pm) e = (res, buf, e')"
  shows "rlsm_keys_local_encrypt h pn (Ptr hm) (i32_of_usize hn) (Ptr pm) (i32_of_usize n) (i32_of_usize cap) s =
    (let s' = (clear_last_error s)\<lparr>KEYS_TABLE := (KEYS_TABLE s)(h \<mapsto> e')\<rparr>;
         pm' = Ptr (buf @ drop (length buf) pm) in
     case res of Inr t \<Rightarrow> Ret ((i32_of_usize t, pm'), s')
     | Inl msg \<Rightarrow> Ret ((-1, pm'), set_last_error msg s'))"
proof -
  have "n < 2 ^ 31" using assms by linarith
  then show ?thesis
    using assms
    by (simp add: rlsm_keys_local_encrypt_def Let_def sint_i32_of_usize from_raw_parts_Ptr)
qed

lemma remote_decrypt_valid:
  assumes "hn \<le> length hm" "n \<le> length pm" "hn < 2 ^ 31" "n < 2 ^ 31" "KEYS_TABLE s h = Some e"
    and "pk_decrypt_in_place (dk_packet (ke_remote e)) pn (take hn hm) (take n pm) = (res, p)"
  shows "rlsm_keys_remote_decrypt h pn (Ptr hm) (i32_of_usize hn) (Ptr pm) (i32_of_usize n) s =
    (let pm' = Ptr (p @ drop (length p) pm) in
     case res of Inr k \<Rightarrow> Ret ((i32_of_usize k, pm'), clear_last_error s)
     | Inl e \<Rightarrow> Ret ((-1, pm'), set_last_error (''decrypt: '' @ e) (clear_last_error s)))"
  using assms
  by (simp add: rlsm_keys_remote_decrypt_def Let_def sint_i32_of_usize from_raw_parts_Ptr split: sum.splits)

lemma returns_deref: "\<not> is_null p \<Longrightarrow> returns (deref p)"
  by (cases p) (auto simp: deref_def)

lemmas returns_rules = returns_obind returns_from_raw_parts returns_deref

lemma returns_local_encrypt:
  "valid_buf hp hl \<Longrightarrow> valid_buf pp cap \<Longrightarrow> returns (rlsm_keys_local_encrypt h pn hp hl pp n cap s)"
  by (auto simp: rlsm_keys_local_encrypt_def Let_def intro!: returns_rules split: option.splits sum.splits prod.splits)

lemma returns_remote_decrypt:
  "valid_buf hp hl \<Longrightarrow> valid_buf pp n \<Longrightarrow> returns (rlsm_keys_remote_decrypt h pn hp hl pp n s)"
  by (auto simp: rlsm_keys_remote_decrypt_def Let_def intro!: returns_rules split: option.splits sum.splits prod.splits)

lemma returns_header_protect:
  "valid_buf sp sl \<Longrightarrow> valid_buf np nl \<Longrightarrow> returns (rlsm_keys_local_header_protect h sp sl bp np nl s)"
  by (auto simp: rlsm_keys_local_header_protect_def Let_def intro!: returns_rules split: option.splits sum.splits prod.splits)

lemma returns_header_unprotect:
  "valid_buf sp sl \<Longrightarrow> valid_buf np nl \<Longrightarrow> returns (rlsm_keys_remote_header_unprotect h sp sl bp np nl s)"
  by (auto simp: rlsm_keys_remote_header_unprotect_def Let_def intro!: returns_rules split: option.splits sum.splits prod.splits)

lemma header_protect_valid:
  assumes "sn \<le> length sm" "n \<le> length nm" "sn < 2 ^ 31" "n < 2 ^ 31" "KEYS_TABLE s h = Some e"
    and "hk_encrypt_in_place (dk_header (ke_local e)) (take sn sm) b (take n nm) = (Inr (), b', pn')"
  shows "rlsm_keys_local_header_protect h (Ptr sm) (i32_of_usize sn) (Ptr b) (Ptr nm) (i32_of_usize n) s =
    Ret ((0, Ptr b', Ptr (pn' @ drop (length pn') nm)), clear_last_error s)"
  using assms
  by (simp add: rlsm_keys_local_header_protect_def Let_def sint_i32_of_usize from_raw_parts_Ptr deref_Ptr)

lemma header_unprotect_valid:
  assumes "sn \<le> length sm" "n \<le> length nm" "sn < 2 ^ 31" "n < 2 ^ 31" "KEYS_TABLE s h = Some e"
    and "hk_decrypt_in_place (dk_header (ke_remote e)) (take sn sm) b (take n nm) = (Inr (), b', pn')"
  shows "rlsm_keys_remote_header_unprotect h (Ptr sm) (i32_of_usize sn) (Ptr b) (Ptr nm) (i32_of_usize n) s =
    Ret ((0, Ptr b', Ptr (pn' @ drop (length pn') nm)), clear_last_error s)"
  using assms
  by (simp add: rlsm_keys_remote_header_unprotect_def Let_def sint_i32_of_usize from_raw_parts_Ptr deref_Ptr)

section \<open>Sample keys\<close>

text \<open>A concrete pair of keys that meets the laws, to evaluate the operations on.\<close>

definition sample_tag :: "u64 \<Rightarrow> bytes" where
  "sample_tag pn = replicate 16 (ucast pn)"

definition sample_packet_key :: packet_key where
  "sample_packet_key =
     \<lparr>pk_encrypt_in_place = (\<lambda>pn h p. (Inr (sample_tag pn), map (\<lambda>b. b XOR 0x55) p)),
      pk_decrypt_in_place = (\<lambda>pn h c.
        let n = length c - 16 in
        if length c < 16 \<or> drop n c \<noteq> sample_tag pn then (Inl ''decrypt error'', c)
        else (Inr n, map (\<lambda>b. b XOR 0x55) (take n c) @ drop n c)),
      pk_tag_len = 16\<rparr>"

definition sample_mask :: "bytes \<Rightarrow> byte" where
  "sample_mask sample = (if sample = [] then 0x2F else hd sample)"

text \<open>As in RFC 9001, four bits of a long header's first byte are masked, five of a short one's.\<close>

definition first_mask :: "byte \<Rightarrow> bytes \<Rightarrow> byte" where
  "first_mask b sample = (sample_mask sample AND (if b AND 0x80 = 0 then 0x1F else 0x0F))"

definition sample_header_key :: header_key where
  "sample_header_key =
     \<lparr>hk_encrypt_in_place = (\<lambda>sample b pn.
        (Inr (), b XOR first_mask b sample, map (\<lambda>x. x XOR sample_mask sample) pn)),
      hk_decrypt_in_place = (\<lambda>sample b pn.
        let b = b XOR first_mask b sample; n = pn_length_of b in
        (Inr (), b, map (\<lambda>x. x XOR sample_mask sample) (take n pn) @ drop n pn)),
      hk_sample_len = 16\<rparr>"

definition sample_keys :: directional_keys where
  "sample_keys = \<lparr>dk_header = sample_header_key, dk_packet = sample_packet_key\<rparr>"

definition sample_entry :: KeysEntry where
  "sample_entry = \<lparr>ke_local = sample_keys, ke_remote = sample_keys, last_local_pn = None\<rparr>"

definition sample_keys_shim :: keys_shim where
  "sample_keys_shim = \<lparr>LAST_ERROR = None, NEXT_HANDLE = 8, KEYS_TABLE = [7 \<mapsto> sample_entry], KEYS_FREE_COUNT = 0\<rparr>"

lemma xor_xor_cancel [simp]: "(a XOR m) XOR m = (a :: 'a::len word)"
  by (simp add: xor.assoc)

lemma first_mask_form [simp]: "first_mask (b XOR first_mask b sample) sample = first_mask b sample"
  by (simp add: first_mask_def bit.conj_xor_distrib2 and.assoc)

lemma sample_opens: "opens sample_packet_key sample_packet_key"
  by (auto simp: opens_def sample_packet_key_def sample_tag_def comp_def)

lemma sample_unmasks: "unmasks sample_header_key sample_header_key"
  by (auto simp: unmasks_def sample_header_key_def Let_def comp_def)

lemma sample_keeps_form: "keeps_form sample_header_key"
  by (auto simp: keeps_form_def sample_header_key_def first_mask_def bit.conj_xor_distrib2 and.assoc)

lemma sample_wf: "wf_entry sample_entry"
  by (auto simp: wf_entry_def sample_entry_def sample_keys_def wf_packet_key_def wf_header_key_def
      sample_packet_key_def sample_header_key_def sample_tag_def Let_def split: if_splits)

section \<open>Properties\<close>


text \<open>
  C2. A payload sealed by \<open>rlsm_keys_local_encrypt\<close> is restored by
  \<open>rlsm_keys_remote_decrypt\<close> on the peer's handle: with a fresh packet number and room for
  the tag, the first call returns the payload length plus the tag length, records the
  number and leaves the rest of the buffer alone; the second, given that buffer, returns
  the payload length and the original payload.
\<close>

theorem seal_then_open:
  fixes s :: "'z keys_shim_scheme" and r :: "'y keys_shim_scheme"
  assumes keys: "KEYS_TABLE s h = Some e" "KEYS_TABLE r h' = Some e'"
    and wf: "wf_entry e" "wf_entry e'"
    and pair: "opens (dk_packet (ke_local e)) (dk_packet (ke_remote e'))"
    and fresh: "\<not> reuses pn e"
    and enc: "pk_encrypt_in_place (dk_packet (ke_local e)) pn (take hn hm) (take n pm) = (Inr tag, c)"
    and room: "n + length tag \<le> cap"
    and bufs: "cap \<le> length pm" "hn \<le> length hm" "hn < 2 ^ 31" "cap < 2 ^ 31"
  shows "\<exists>pm' pm'' s'.
      rlsm_keys_local_encrypt h pn (Ptr hm) (i32_of_usize hn) (Ptr pm) (i32_of_usize n) (i32_of_usize cap) s =
        Ret ((i32_of_usize (n + pk_tag_len (dk_packet (ke_local e))), Ptr pm'), s')
    \<and> drop (n + length tag) pm' = drop (n + length tag) pm
    \<and> KEYS_TABLE s' = (KEYS_TABLE s)(h \<mapsto> e\<lparr>last_local_pn := Some pn\<rparr>)
    \<and> rlsm_keys_remote_decrypt h' pn (Ptr hm) (i32_of_usize hn) (Ptr pm')
        (i32_of_usize (n + pk_tag_len (dk_packet (ke_local e)))) r =
        Ret ((i32_of_usize n, Ptr pm''), clear_last_error r)
    \<and> take n pm'' = take n pm"
proof -
  let ?t = "n + length tag" and ?pm' = "c @ tag @ drop (n + length tag) pm"
  have wfk: "wf_packet_key (dk_packet (ke_local e))" "wf_packet_key (dk_packet (ke_remote e'))"
    using wf by (auto simp: wf_entry_def)
  have n: "n \<le> length pm" using room bufs by simp
  have lens: "length c = n" "length tag = pk_tag_len (dk_packet (ke_local e))"
    using wf_packet_keyD(1,2) [OF wfk(1) enc] n by auto
  have "local_encrypt_entry pn (take hn hm) n (take cap pm) e =
      (Inr ?t, c @ tag @ drop ?t (take cap pm), e\<lparr>last_local_pn := Some pn\<rparr>)"
    using fresh enc room bufs by (simp add: local_encrypt_entry_def reuses_def Let_def min_def)
  moreover have "(c @ tag @ drop ?t (take cap pm)) @ drop (length (c @ tag @ drop ?t (take cap pm))) pm = ?pm'"
    using lens room bufs drop_take_append [of ?t cap pm] by simp
  ultimately have 1: "rlsm_keys_local_encrypt h pn (Ptr hm) (i32_of_usize hn) (Ptr pm) (i32_of_usize n) (i32_of_usize cap) s =
      Ret ((i32_of_usize ?t, Ptr ?pm'),
        (clear_last_error s)\<lparr>KEYS_TABLE := (KEYS_TABLE s)(h \<mapsto> e\<lparr>last_local_pn := Some pn\<rparr>)\<rparr>)"
    using local_encrypt_valid [of hn hm n cap pm s h e pn] keys(1) room bufs by simp
  obtain rest where dec: "pk_decrypt_in_place (dk_packet (ke_remote e')) pn (take hn hm) (c @ tag) =
      (Inr (length (take n pm)), take n pm @ rest)"
    using pair enc unfolding opens_def by metis
  have "rlsm_keys_remote_decrypt h' pn (Ptr hm) (i32_of_usize hn) (Ptr ?pm') (i32_of_usize ?t) r =
      Ret ((i32_of_usize n, Ptr ((take n pm @ rest) @ drop (length (take n pm @ rest)) ?pm')), clear_last_error r)"
    using remote_decrypt_valid [of hn hm ?t ?pm' r h' e' pn "Inr n" "take n pm @ rest"] keys(2) room bufs dec lens n
    by (simp add: min_def)
  moreover have "take n ((take n pm @ rest) @ drop (length (take n pm @ rest)) ?pm') = take n pm"
    using n by simp
  ultimately show ?thesis
    using 1 lens by (intro exI conjI) (assumption | simp)+
qed

text \<open>
  C13. Header protection is undone by the peer: after \<open>rlsm_keys_local_header_protect\<close> has
  masked the first byte and the packet-number bytes it announces,
  \<open>rlsm_keys_remote_header_unprotect\<close> on the peer's handle, given the four bytes that may
  hold the packet number, restores the first byte and the packet number and leaves the
  bytes after it.
\<close>

theorem protect_then_unprotect:
  fixes s :: "'z keys_shim_scheme" and r :: "'y keys_shim_scheme"
  assumes keys: "KEYS_TABLE s h = Some e" "KEYS_TABLE r h' = Some e'"
    and wf: "wf_entry e"
    and pair: "unmasks (dk_header (ke_local e)) (dk_header (ke_remote e'))"
    and enc: "hk_encrypt_in_place (dk_header (ke_local e)) (take sn sm) b (take (pn_length_of b) nm) = (Inr (), b', pn')"
    and bufs: "sn \<le> length sm" "sn < 2 ^ 31" "4 \<le> length nm"
  shows "\<exists>nm'. rlsm_keys_local_header_protect h (Ptr sm) (i32_of_usize sn) (Ptr b) (Ptr nm)
          (i32_of_usize (pn_length_of b)) s = Ret ((0, Ptr b', Ptr nm'), clear_last_error s)
      \<and> rlsm_keys_remote_header_unprotect h' (Ptr sm) (i32_of_usize sn) (Ptr b') (Ptr nm') 4 r =
          Ret ((0, Ptr b, Ptr nm), clear_last_error r)"
proof -
  let ?n = "pn_length_of b" and ?nm' = "pn' @ drop (pn_length_of b) nm"
  have "b AND 3 \<le> 3" by (rule byte_cases_all [of "\<lambda>b. b AND 3 \<le> 3"]) code_simp
  then have n: "?n \<le> 4" by (simp add: pn_length_of_def word_le_nat_alt)
  then have len: "length (take ?n nm) = ?n" "length (take ?n nm) + length (drop ?n (take 4 nm)) \<le> 4"
    using bufs by auto
  have "wf_header_key (dk_header (ke_local e))" using wf by (simp add: wf_entry_def)
  from wf_header_keyD(1) [OF this enc] len have pn': "length pn' = ?n" by simp
  have 1: "rlsm_keys_local_header_protect h (Ptr sm) (i32_of_usize sn) (Ptr b) (Ptr nm) (i32_of_usize ?n) s =
      Ret ((0, Ptr b', Ptr ?nm'), clear_last_error s)"
    using header_protect_valid [OF bufs(1) _ bufs(2) _ keys(1) enc] n bufs pn' by simp
  let ?rest = "drop ?n (take 4 nm)"
  have "take 4 ?nm' = pn' @ ?rest" using pn' n by (simp add: drop_take)
  moreover have "hk_decrypt_in_place (dk_header (ke_remote e')) (take sn sm) b' (pn' @ ?rest) =
      (Inr (), b, take ?n nm @ ?rest)"
    using pair [unfolded unmasks_def, rule_format, OF enc len] .
  moreover have "take ?n nm @ ?rest = take 4 nm"
    using n by (metis append_take_drop_id min.absorb1 take_take)
  ultimately have "rlsm_keys_remote_header_unprotect h' (Ptr sm) (i32_of_usize sn) (Ptr b') (Ptr ?nm') (i32_of_usize 4) r =
      Ret ((0, Ptr b, Ptr (take 4 nm @ drop 4 nm)), clear_last_error r)"
    using header_unprotect_valid [of sn sm 4 ?nm' r h' e' b' b "take 4 nm"] bufs keys(2) n pn' by simp
  with 1 show ?thesis by (simp add: i32_of_usize_def)
qed



theorem seal_then_open_witness:
  "\<exists>pm' pm'' s'.
      rlsm_keys_local_encrypt 7 3 (Ptr [9]) (i32_of_usize 1) (Ptr (replicate 20 8)) (i32_of_usize 2)
        (i32_of_usize 19) sample_keys_shim = Ret ((i32_of_usize 18, Ptr pm'), s')
    \<and> rlsm_keys_remote_decrypt 7 3 (Ptr [9]) (i32_of_usize 1) (Ptr pm') (i32_of_usize 18) sample_keys_shim =
        Ret ((i32_of_usize 2, Ptr pm''), clear_last_error sample_keys_shim)
    \<and> take 2 pm'' = [8, 8]"
proof -
  have k: "KEYS_TABLE sample_keys_shim 7 = Some sample_entry" by (simp add: sample_keys_shim_def)
  have l: "dk_packet (ke_local sample_entry) = sample_packet_key" "dk_packet (ke_remote sample_entry) = sample_packet_key"
    "pk_tag_len sample_packet_key = 16"
    by (simp_all add: sample_entry_def sample_keys_def sample_packet_key_def)
  have enc: "pk_encrypt_in_place sample_packet_key 3 (take 1 [9]) (take 2 (replicate 20 8)) =
      (Inr (sample_tag 3), [8 XOR 0x55, 8 XOR 0x55])"
    by (simp add: sample_packet_key_def numeral_eq_Suc)
  have f: "\<not> reuses 3 sample_entry" "length (sample_tag 3) = 16" "take 2 (replicate 20 8) = [8, 8 :: byte]"
    by (simp_all add: reuses_def sample_entry_def sample_tag_def numeral_eq_Suc)
  show ?thesis
    using seal_then_open [OF k k sample_wf sample_wf _ _ enc [folded l(1)], of 19] sample_opens f
    by (auto simp: l)
qed

theorem protect_then_unprotect_witness:
  "\<exists>nm'. rlsm_keys_local_header_protect 7 (Ptr [0x2B]) (i32_of_usize 1) (Ptr 0xC1) (Ptr [1, 2, 3, 4])
          (i32_of_usize 2) sample_keys_shim = Ret ((0, Ptr 0xCA, Ptr nm'), clear_last_error sample_keys_shim)
      \<and> rlsm_keys_remote_header_unprotect 7 (Ptr [0x2B]) (i32_of_usize 1) (Ptr 0xCA) (Ptr nm') 4 sample_keys_shim =
          Ret ((0, Ptr 0xC1, Ptr [1, 2, 3, 4]), clear_last_error sample_keys_shim)"
proof -
  have k: "KEYS_TABLE sample_keys_shim 7 = Some sample_entry" by (simp add: sample_keys_shim_def)
  have l: "dk_header (ke_local sample_entry) = sample_header_key" "dk_header (ke_remote sample_entry) = sample_header_key"
    by (simp_all add: sample_entry_def sample_keys_def)
  have n: "pn_length_of 0xC1 = 2" by (simp add: pn_length_of_def)
  have enc: "hk_encrypt_in_place sample_header_key (take 1 [0x2B]) 0xC1 (take 2 [1, 2, 3, 4]) = (Inr (), 0xCA, [0x2A, 0x29])"
    by (simp add: sample_header_key_def sample_mask_def first_mask_def)
  show ?thesis
    using protect_then_unprotect [OF k k sample_wf, where sn = 1 and sm = "[0x2B]" and b = "0xC1" and nm = "[1, 2, 3, 4]" and b' = "0xCA"
        and pn' = "[0x2A, 0x29]"] enc sample_unmasks
    by (simp add: l n)
qed


end
