(* ===== verification/Quic_Batch.thy ===== *)
theory Quic_Batch
  imports Quic_Keys
begin

text \<open>
  The batch operations on keys (\<open>crates/librustls-mojo/src/quic.rs\<close>): one call works on
  \<open>count\<close> packets given by parallel arrays. Lengths and offsets are read as \<open>i32\<close>, cast to
  \<open>usize\<close> and added at that width, so the guards are on 64-bit words that wrap. Distinct
  packet pointers designate disjoint regions.
\<close>

section \<open>Arrays, slices and loops\<close>

definition arr_read :: "'a list ptr \<Rightarrow> nat \<Rightarrow> 'a outcome" where
  "arr_read p i =
     (case p of Null \<Rightarrow> Undef | Ptr xs \<Rightarrow> if i < length xs then Ret (xs ! i) else Undef)"

definition arr_write :: "nat \<Rightarrow> 'a \<Rightarrow> 'a list ptr \<Rightarrow> 'a list ptr outcome" where
  "arr_write i x p =
     (case p of Null \<Rightarrow> Undef | Ptr xs \<Rightarrow> if i < length xs then Ret (Ptr (xs[i := x])) else Undef)"

text \<open>\<open>from_raw_parts(p.add(off), n)\<close> within the region \<open>mem\<close>, and writing it back.\<close>

definition sub_slice :: "bytes \<Rightarrow> nat \<Rightarrow> nat \<Rightarrow> bytes outcome" where
  "sub_slice mem off n = (if off + n \<le> length mem then Ret (take n (drop off mem)) else Undef)"

definition put_at :: "nat \<Rightarrow> bytes \<Rightarrow> bytes \<Rightarrow> bytes" where
  "put_at off bs mem = take off mem @ bs @ drop (off + length bs) mem"

fun for_loop :: "nat list \<Rightarrow> (nat \<Rightarrow> 's \<Rightarrow> 's outcome) \<Rightarrow> 's \<Rightarrow> 's outcome" where
  "for_loop [] body s = Ret s"
| "for_loop (i # is) body s = obind (body i s) (for_loop is body)"

definition usize64 :: "i32 \<Rightarrow> u64" where
  "usize64 n = scast n"

section \<open>One packet\<close>

text \<open>
  The body of each loop for one packet. The first byte and the packet-number bytes are
  borrowed exclusively at the same time, so a packet number at offset 0 is an overlap of
  exclusive borrows.
\<close>

definition batch_unprotect_one ::
  "header_key \<Rightarrow> bytes ptr \<Rightarrow> i32 \<Rightarrow> i32 \<Rightarrow> ((byte \<times> i32) option \<times> bytes ptr) outcome" where
  "batch_unprotect_one key pkt_ptr pkt_len pn_off =
     (let pkt_len = usize64 pkt_len; pn_off = usize64 pn_off in
      if pn_off + 4 + 16 > pkt_len then Ret (None, pkt_ptr)
      else case pkt_ptr of
        Null \<Rightarrow> Ret (None, pkt_ptr)
      | Ptr mem \<Rightarrow>
          obind (sub_slice mem (unat (pn_off + 4)) 16) (\<lambda>sample.
          obind (sub_slice mem 0 1) (\<lambda>first_byte.
          obind (sub_slice mem (unat pn_off) 4) (\<lambda>pn_bytes.
          if pn_off = 0 then Undef
          else case hk_decrypt_in_place key sample (hd first_byte) pn_bytes of
            (res, first_byte, pn_bytes) \<Rightarrow>
              let mem = put_at (unat pn_off) pn_bytes (put_at 0 [first_byte] mem) in
              case res of
                Inr _ \<Rightarrow> Ret (Some (first_byte, i32_of_usize (unat (first_byte AND 3) + 1)), Ptr mem)
              | Inl _ \<Rightarrow> Ret (None, Ptr mem)))))"

definition batch_decrypt_one ::
  "packet_key \<Rightarrow> u64 \<Rightarrow> bytes ptr \<Rightarrow> i32 \<Rightarrow> i32 \<Rightarrow> (nat option \<times> bytes ptr) outcome" where
  "batch_decrypt_one key pn pkt_ptr pkt_len hdr_len =
     (let pkt_len = usize64 pkt_len; hdr_len = usize64 hdr_len in
      case pkt_ptr of
        Null \<Rightarrow> Ret (None, pkt_ptr)
      | Ptr mem \<Rightarrow>
          if hdr_len \<ge> pkt_len then Ret (None, pkt_ptr)
          else
            obind (sub_slice mem 0 (unat hdr_len)) (\<lambda>header.
            obind (sub_slice mem (unat hdr_len) (unat (pkt_len - hdr_len))) (\<lambda>payload.
            case pk_decrypt_in_place key pn header payload of (res, payload) \<Rightarrow>
              let mem = put_at (unat hdr_len) payload mem in
              case res of
                Inr n \<Rightarrow> Ret (Some n, Ptr mem)
              | Inl _ \<Rightarrow> Ret (None, Ptr mem))))"

definition batch_protect_one ::
  "header_key \<Rightarrow> bytes ptr \<Rightarrow> i32 \<Rightarrow> i32 \<Rightarrow> i32 \<Rightarrow> (bool \<times> bytes ptr) outcome" where
  "batch_protect_one key pkt_ptr pkt_len pn_off pn_len =
     (let pkt_len = usize64 pkt_len; pn_off = usize64 pn_off; pn_len = usize64 pn_len in
      case pkt_ptr of
        Null \<Rightarrow> Ret (False, pkt_ptr)
      | Ptr mem \<Rightarrow>
          if pn_off + 4 + 16 > pkt_len \<or> pn_len = 0 \<or> pn_len > 4 then Ret (False, pkt_ptr)
          else
            obind (sub_slice mem (unat (pn_off + 4)) 16) (\<lambda>sample.
            obind (sub_slice mem 0 1) (\<lambda>first_byte.
            obind (sub_slice mem (unat pn_off) (unat pn_len)) (\<lambda>pn_bytes.
            if pn_off = 0 then Undef
            else case hk_encrypt_in_place key sample (hd first_byte) pn_bytes of
              (res, first_byte, pn_bytes) \<Rightarrow>
                let mem = put_at (unat pn_off) pn_bytes (put_at 0 [first_byte] mem) in
                case res of
                  Inr _ \<Rightarrow> Ret (True, Ptr mem)
                | Inl _ \<Rightarrow> Ret (False, Ptr mem)))))"

text \<open>
  Encryption threads the entry. The number is recorded only when the tag fitted: on a
  buffer without room for it the payload has been encrypted in place already.
\<close>

definition batch_encrypt_one ::
  "KeysEntry \<Rightarrow> u64 \<Rightarrow> bytes ptr \<Rightarrow> i32 \<Rightarrow> i32 \<Rightarrow> i32 \<Rightarrow> (nat option \<times> bytes ptr \<times> KeysEntry) outcome" where
  "batch_encrypt_one entry pn pkt_ptr hdr_len pay_len buf_cap =
     (let hdr_len = usize64 hdr_len; pay_len = usize64 pay_len; buf_cap = usize64 buf_cap in
      case pkt_ptr of
        Null \<Rightarrow> Ret (None, pkt_ptr, entry)
      | Ptr mem \<Rightarrow>
          if pay_len > buf_cap then Ret (None, pkt_ptr, entry)
          else if (case last_local_pn entry of Some last_pn \<Rightarrow> pn \<le> last_pn | None \<Rightarrow> False)
          then Ret (None, pkt_ptr, entry)
          else
            obind (sub_slice mem 0 (unat hdr_len)) (\<lambda>header.
            obind (sub_slice mem (unat hdr_len) (unat buf_cap)) (\<lambda>buf.
            case pk_encrypt_in_place (dk_packet (ke_local entry)) pn header (take (unat pay_len) buf) of
              (Inr tag, p) \<Rightarrow>
                let tot = unat pay_len + length tag in
                if tot > unat buf_cap then
                  Ret (None, Ptr (put_at (unat hdr_len) p mem), entry)
                else
                  Ret (Some tot, Ptr (put_at (unat hdr_len) (p @ tag) mem),
                       entry\<lparr>last_local_pn := Some pn\<rparr>)
            | (Inl _, p) \<Rightarrow> Ret (None, Ptr (put_at (unat hdr_len) p mem), entry))))"

section \<open>The batch operations\<close>

definition batch_unprotect_body ::
  "header_key \<Rightarrow> i32 list ptr \<Rightarrow> i32 list ptr \<Rightarrow> nat \<Rightarrow>
   i32 \<times> bytes ptr list ptr \<times> byte list ptr \<times> i32 list ptr \<Rightarrow>
   (i32 \<times> bytes ptr list ptr \<times> byte list ptr \<times> i32 list ptr) outcome" where
  "batch_unprotect_body key packet_lens pn_offsets i st =
     (case st of (ok_count, packet_ptrs, out_first_bytes, out_pn_lengths) \<Rightarrow>
        obind (arr_read packet_ptrs i) (\<lambda>pkt_ptr.
        obind (arr_read packet_lens i) (\<lambda>pkt_len.
        obind (arr_read pn_offsets i) (\<lambda>pn_off.
        obind (batch_unprotect_one key pkt_ptr pkt_len pn_off) (\<lambda>(res, pkt_ptr).
        obind (arr_write i pkt_ptr packet_ptrs) (\<lambda>packet_ptrs.
        case res of
          Some (first_byte, pn_length) \<Rightarrow>
            obind (arr_write i first_byte out_first_bytes) (\<lambda>out_first_bytes.
            obind (arr_write i pn_length out_pn_lengths) (\<lambda>out_pn_lengths.
            Ret (ok_count + 1, packet_ptrs, out_first_bytes, out_pn_lengths)))
        | None \<Rightarrow>
            obind (arr_write i (-1) out_pn_lengths) (\<lambda>out_pn_lengths.
            Ret (ok_count, packet_ptrs, out_first_bytes, out_pn_lengths))))))))"

definition rlsm_keys_batch_header_unprotect ::
  "i32 \<Rightarrow> i32 \<Rightarrow> bytes ptr list ptr \<Rightarrow> i32 list ptr \<Rightarrow> i32 list ptr \<Rightarrow> byte list ptr \<Rightarrow> i32 list ptr \<Rightarrow>
   'z keys_shim_scheme \<Rightarrow>
   ((i32 \<times> bytes ptr list ptr \<times> byte list ptr \<times> i32 list ptr) \<times> 'z keys_shim_scheme) outcome" where
  "rlsm_keys_batch_header_unprotect keys_handle count packet_ptrs packet_lens pn_offsets
     out_first_bytes out_pn_lengths s =
     (let s = clear_last_error s in
      if sint count \<le> 0 then Ret ((0, packet_ptrs, out_first_bytes, out_pn_lengths), s)
      else if is_null packet_ptrs \<or> is_null packet_lens \<or> is_null pn_offsets
              \<or> is_null out_first_bytes \<or> is_null out_pn_lengths then
        rlsm_err ''rlsm_keys_batch_header_unprotect: null pointer''
          (-1, packet_ptrs, out_first_bytes, out_pn_lengths) s
      else
        let n = usize_of_i32 count in
        case KEYS_TABLE s keys_handle of
          None \<Rightarrow>
            rlsm_err ''rlsm_keys_batch_header_unprotect: invalid keys handle''
              (-1, packet_ptrs, out_first_bytes, out_pn_lengths) s
        | Some entry \<Rightarrow>
            obind (for_loop [0..<n]
                (batch_unprotect_body (dk_header (ke_remote entry)) packet_lens pn_offsets)
              (0, packet_ptrs, out_first_bytes, out_pn_lengths)) (\<lambda>r. Ret (r, s)))"

definition batch_decrypt_body ::
  "packet_key \<Rightarrow> u64 list ptr \<Rightarrow> i32 list ptr \<Rightarrow> i32 list ptr \<Rightarrow> nat \<Rightarrow>
   i32 \<times> bytes ptr list ptr \<times> i32 list ptr \<Rightarrow> (i32 \<times> bytes ptr list ptr \<times> i32 list ptr) outcome" where
  "batch_decrypt_body key packet_numbers packet_lens header_lens i st =
     (case st of (ok_count, packet_ptrs, out_plaintext_lens) \<Rightarrow>
        obind (arr_read packet_ptrs i) (\<lambda>pkt_ptr.
        obind (arr_read packet_lens i) (\<lambda>pkt_len.
        obind (arr_read header_lens i) (\<lambda>hdr_len.
        obind (arr_read packet_numbers i) (\<lambda>pn.
        obind (batch_decrypt_one key pn pkt_ptr pkt_len hdr_len) (\<lambda>(res, pkt_ptr).
        obind (arr_write i pkt_ptr packet_ptrs) (\<lambda>packet_ptrs.
        case res of
          Some len \<Rightarrow>
            obind (arr_write i (i32_of_usize len) out_plaintext_lens) (\<lambda>out_plaintext_lens.
            Ret (ok_count + 1, packet_ptrs, out_plaintext_lens))
        | None \<Rightarrow>
            obind (arr_write i (-1) out_plaintext_lens) (\<lambda>out_plaintext_lens.
            Ret (ok_count, packet_ptrs, out_plaintext_lens)))))))))"

definition rlsm_keys_batch_decrypt ::
  "i32 \<Rightarrow> i32 \<Rightarrow> u64 list ptr \<Rightarrow> bytes ptr list ptr \<Rightarrow> i32 list ptr \<Rightarrow> i32 list ptr \<Rightarrow> i32 list ptr \<Rightarrow>
   'z keys_shim_scheme \<Rightarrow>
   ((i32 \<times> bytes ptr list ptr \<times> i32 list ptr) \<times> 'z keys_shim_scheme) outcome" where
  "rlsm_keys_batch_decrypt keys_handle count packet_numbers packet_ptrs packet_lens header_lens
     out_plaintext_lens s =
     (let s = clear_last_error s in
      if sint count \<le> 0 then Ret ((0, packet_ptrs, out_plaintext_lens), s)
      else if is_null packet_numbers \<or> is_null packet_ptrs \<or> is_null packet_lens
              \<or> is_null header_lens \<or> is_null out_plaintext_lens then
        rlsm_err ''rlsm_keys_batch_decrypt: null pointer'' (-1, packet_ptrs, out_plaintext_lens) s
      else
        let n = usize_of_i32 count in
        case KEYS_TABLE s keys_handle of
          None \<Rightarrow>
            rlsm_err ''rlsm_keys_batch_decrypt: invalid keys handle'' (-1, packet_ptrs, out_plaintext_lens) s
        | Some entry \<Rightarrow>
            obind (for_loop [0..<n]
                (batch_decrypt_body (dk_packet (ke_remote entry)) packet_numbers packet_lens header_lens)
              (0, packet_ptrs, out_plaintext_lens)) (\<lambda>r. Ret (r, s)))"

definition batch_protect_body ::
  "header_key \<Rightarrow> i32 list ptr \<Rightarrow> i32 list ptr \<Rightarrow> i32 list ptr \<Rightarrow> nat \<Rightarrow>
   i32 \<times> bytes ptr list ptr \<times> i32 list ptr \<Rightarrow> (i32 \<times> bytes ptr list ptr \<times> i32 list ptr) outcome" where
  "batch_protect_body key packet_lens pn_offsets pn_lengths i st =
     (case st of (ok_count, packet_ptrs, out_results) \<Rightarrow>
        obind (arr_read packet_ptrs i) (\<lambda>pkt_ptr.
        obind (arr_read packet_lens i) (\<lambda>pkt_len.
        obind (arr_read pn_offsets i) (\<lambda>pn_off.
        obind (arr_read pn_lengths i) (\<lambda>pn_len.
        obind (batch_protect_one key pkt_ptr pkt_len pn_off pn_len) (\<lambda>(res, pkt_ptr).
        obind (arr_write i pkt_ptr packet_ptrs) (\<lambda>packet_ptrs.
        obind (arr_write i (if res then 0 else -1) out_results) (\<lambda>out_results.
        Ret (if res then ok_count + 1 else ok_count, packet_ptrs, out_results)))))))))"

definition rlsm_keys_batch_header_protect ::
  "i32 \<Rightarrow> i32 \<Rightarrow> bytes ptr list ptr \<Rightarrow> i32 list ptr \<Rightarrow> i32 list ptr \<Rightarrow> i32 list ptr \<Rightarrow> i32 list ptr \<Rightarrow>
   'z keys_shim_scheme \<Rightarrow>
   ((i32 \<times> bytes ptr list ptr \<times> i32 list ptr) \<times> 'z keys_shim_scheme) outcome" where
  "rlsm_keys_batch_header_protect keys_handle count packet_ptrs packet_lens pn_offsets pn_lengths
     out_results s =
     (let s = clear_last_error s in
      if sint count \<le> 0 then Ret ((0, packet_ptrs, out_results), s)
      else if is_null packet_ptrs \<or> is_null packet_lens \<or> is_null pn_offsets
              \<or> is_null pn_lengths \<or> is_null out_results then
        rlsm_err ''rlsm_keys_batch_header_protect: null pointer'' (-1, packet_ptrs, out_results) s
      else
        let n = usize_of_i32 count in
        case KEYS_TABLE s keys_handle of
          None \<Rightarrow>
            rlsm_err ''rlsm_keys_batch_header_protect: invalid keys handle'' (-1, packet_ptrs, out_results) s
        | Some entry \<Rightarrow>
            obind (for_loop [0..<n]
                (batch_protect_body (dk_header (ke_local entry)) packet_lens pn_offsets pn_lengths)
              (0, packet_ptrs, out_results)) (\<lambda>r. Ret (r, s)))"

definition batch_encrypt_body ::
  "u64 list ptr \<Rightarrow> i32 list ptr \<Rightarrow> i32 list ptr \<Rightarrow> i32 list ptr \<Rightarrow> nat \<Rightarrow>
   i32 \<times> KeysEntry \<times> bytes ptr list ptr \<times> i32 list ptr \<Rightarrow>
   (i32 \<times> KeysEntry \<times> bytes ptr list ptr \<times> i32 list ptr) outcome" where
  "batch_encrypt_body packet_numbers header_lens payload_lens buf_capacities i st =
     (case st of (ok_count, entry, packet_ptrs, out_ciphertext_lens) \<Rightarrow>
        obind (arr_read packet_ptrs i) (\<lambda>pkt_ptr.
        obind (arr_read header_lens i) (\<lambda>hdr_len.
        obind (arr_read payload_lens i) (\<lambda>pay_len.
        obind (arr_read buf_capacities i) (\<lambda>buf_cap.
        obind (arr_read packet_numbers i) (\<lambda>pn.
        obind (batch_encrypt_one entry pn pkt_ptr hdr_len pay_len buf_cap) (\<lambda>(res, pkt_ptr, entry).
        obind (arr_write i pkt_ptr packet_ptrs) (\<lambda>packet_ptrs.
        case res of
          Some len \<Rightarrow>
            obind (arr_write i (i32_of_usize len) out_ciphertext_lens) (\<lambda>out_ciphertext_lens.
            Ret (ok_count + 1, entry, packet_ptrs, out_ciphertext_lens))
        | None \<Rightarrow>
            obind (arr_write i (-1) out_ciphertext_lens) (\<lambda>out_ciphertext_lens.
            Ret (ok_count, entry, packet_ptrs, out_ciphertext_lens))))))))))"

definition rlsm_keys_batch_encrypt ::
  "i32 \<Rightarrow> i32 \<Rightarrow> u64 list ptr \<Rightarrow> bytes ptr list ptr \<Rightarrow> i32 list ptr \<Rightarrow> i32 list ptr \<Rightarrow> i32 list ptr \<Rightarrow>
   i32 list ptr \<Rightarrow> 'z keys_shim_scheme \<Rightarrow>
   ((i32 \<times> bytes ptr list ptr \<times> i32 list ptr) \<times> 'z keys_shim_scheme) outcome" where
  "rlsm_keys_batch_encrypt keys_handle count packet_numbers packet_ptrs header_lens payload_lens
     buf_capacities out_ciphertext_lens s =
     (let s = clear_last_error s in
      if sint count \<le> 0 then Ret ((0, packet_ptrs, out_ciphertext_lens), s)
      else if is_null packet_numbers \<or> is_null packet_ptrs \<or> is_null header_lens
              \<or> is_null payload_lens \<or> is_null buf_capacities \<or> is_null out_ciphertext_lens then
        rlsm_err ''rlsm_keys_batch_encrypt: null pointer'' (-1, packet_ptrs, out_ciphertext_lens) s
      else
        let n = usize_of_i32 count in
        case KEYS_TABLE s keys_handle of
          None \<Rightarrow>
            rlsm_err ''rlsm_keys_batch_encrypt: invalid keys handle'' (-1, packet_ptrs, out_ciphertext_lens) s
        | Some entry \<Rightarrow>
            obind (for_loop [0..<n]
                (batch_encrypt_body packet_numbers header_lens payload_lens buf_capacities)
              (0, entry, packet_ptrs, out_ciphertext_lens))
              (\<lambda>(ok_count, entry, packet_ptrs, out_ciphertext_lens).
                 Ret ((ok_count, packet_ptrs, out_ciphertext_lens),
                      s\<lparr>KEYS_TABLE := (KEYS_TABLE s)(keys_handle \<mapsto> entry)\<rparr>)))"

section \<open>Reference: one call per packet\<close>

text \<open>The packet decrypted by the single-packet call: its result, and the packet after it.\<close>

definition single_decrypt ::
  "i32 \<Rightarrow> u64 \<Rightarrow> bytes ptr \<Rightarrow> i32 \<Rightarrow> i32 \<Rightarrow> 'z keys_shim_scheme \<Rightarrow> i32 \<times> bytes ptr" where
  "single_decrypt h pn pkt len hdr_len s =
     (case pkt of
        Null \<Rightarrow> (-1, Null)
      | Ptr mem \<Rightarrow>
          let hl = nat (sint hdr_len) in
          if sint hdr_len \<ge> sint len then (-1, pkt)
          else case rlsm_keys_remote_decrypt h pn (Ptr (take hl mem)) hdr_len (Ptr (drop hl mem)) (len - hdr_len) s of
            Ret ((r, Ptr payload), _) \<Rightarrow> (r, Ptr (take hl mem @ payload))
          | _ \<Rightarrow> (-1, pkt))"

text \<open>
  A packet to encrypt: number, packet memory, header length, payload length, capacity; and
  the packets encrypted one after the other by the single-packet call.
\<close>

type_synonym encrypt_request = "u64 \<times> bytes \<times> i32 \<times> i32 \<times> i32"

fun encrypt_each ::
  "i32 \<Rightarrow> encrypt_request list \<Rightarrow> 'z keys_shim_scheme \<Rightarrow> (i32 \<times> bytes) list \<times> 'z keys_shim_scheme" where
  "encrypt_each h [] s = ([], s)"
| "encrypt_each h ((pn, mem, hl, n, cap) # reqs) s =
     (let hd_n = nat (sint hl) in
      case rlsm_keys_local_encrypt h pn (Ptr (take hd_n mem)) hl (Ptr (drop hd_n mem)) n cap s of
        Ret ((r, Ptr mem'), s) \<Rightarrow>
          (case encrypt_each h reqs s of (rs, s) \<Rightarrow> ((r, take hd_n mem @ mem') # rs, s))
      | _ \<Rightarrow> ([], s))"

text \<open>A request the batch can serve: lengths in range and room for the tag.\<close>

definition encryptable :: "KeysEntry \<Rightarrow> encrypt_request \<Rightarrow> bool" where
  "encryptable e req \<longleftrightarrow> (case req of (pn, mem, hl, n, cap) \<Rightarrow>
     0 \<le> sint hl \<and> 0 \<le> sint n \<and> sint n \<le> sint cap
   \<and> nat (sint hl) + nat (sint cap) \<le> length mem
   \<and> nat (sint n) + pk_tag_len (dk_packet (ke_local e)) \<le> nat (sint cap))"

definition always_seals :: "packet_key \<Rightarrow> bool" where
  "always_seals k \<longleftrightarrow> (\<forall>pn h p. \<exists>tag c. pk_encrypt_in_place k pn h p = (Inr tag, c))"

section \<open>Lemmas: arrays, slices and loops\<close>

lemma arr_read_Ptr [ffi_simps]: "i < length xs \<Longrightarrow> arr_read (Ptr xs) i = Ret (xs ! i)"
  by (simp add: arr_read_def)

lemma arr_write_Ptr [ffi_simps]: "i < length xs \<Longrightarrow> arr_write i x (Ptr xs) = Ret (Ptr (xs[i := x]))"
  by (simp add: arr_write_def)

lemma sub_slice_in [ffi_simps]: "off + n \<le> length mem \<Longrightarrow> sub_slice mem off n = Ret (take n (drop off mem))"
  by (simp add: sub_slice_def)

lemma put_at_self: "off + n \<le> length mem \<Longrightarrow> put_at off (take n (drop off mem)) mem = mem"
  by (simp add: put_at_def) (metis append.assoc append_take_drop_id take_add)

lemma unat_usize64: "unat (usize64 n) = usize_of_i32 n"
  by (simp add: usize64_def usize_of_i32_def)

lemma unat_usize64_nonneg: "0 \<le> sint n \<Longrightarrow> unat (usize64 n) = nat (sint n)"
  by (simp add: unat_usize64 usize_of_i32_nonneg)

text \<open>An invariant of the loop index carries through the loop.\<close>

lemma for_loop_inv:
  assumes "\<And>i s. a \<le> i \<Longrightarrow> i < n \<Longrightarrow> P i s \<Longrightarrow> \<exists>s'. body i s = Ret s' \<and> P (Suc i) s'"
    and "a \<le> n" "P a s"
  shows "\<exists>s'. for_loop [a..<n] body s = Ret s' \<and> P n s'"
  using assms
proof (induction "n - a" arbitrary: a s)
  case (Suc k)
  then have "a < n" by simp
  obtain s1 where "body a s = Ret s1" "P (Suc a) s1" using Suc.prems \<open>a < n\<close> by blast
  moreover obtain s' where "for_loop [Suc a..<n] body s1 = Ret s'" "P n s'"
    using Suc.hyps(1) [of "Suc a" s1] Suc.hyps(2) Suc.prems \<open>a < n\<close> calculation by force
  ultimately show ?case using \<open>a < n\<close> by (simp add: upt_conv_Cons)
qed simp

lemma map_upt_update:
  "i < length xs \<Longrightarrow> (map f [0..<i] @ drop i xs)[i := f i] = map f [0..<Suc i] @ drop (Suc i) xs"
  by (simp add: list_update_append flip: Cons_nth_drop_Suc)

lemma nth_map_upt_drop: "i < length xs \<Longrightarrow> (map f [0..<i] @ drop i xs) ! i = xs ! i"
  by (simp add: nth_append)

text \<open>A loop whose step \<open>i\<close> replaces element \<open>i\<close> of two arrays is a map.\<close>

lemma for_loop_two:
  fixes body :: "nat \<Rightarrow> i32 \<times> 'a list ptr \<times> 'b list ptr \<Rightarrow> (i32 \<times> 'a list ptr \<times> 'b list ptr) outcome"
  assumes "\<And>i c ys zs. i < n \<Longrightarrow> length ys = length xs \<Longrightarrow> length zs = length os \<Longrightarrow> ys ! i = xs ! i \<Longrightarrow>
      body i (c, Ptr ys, Ptr zs) = Ret (if ok i then c + 1 else c, Ptr (ys[i := f i]), Ptr (zs[i := g i]))"
    and "n \<le> length xs" "n \<le> length os"
  shows "for_loop [0..<n] body (0, Ptr xs, Ptr os) =
    Ret (word_of_nat (length (filter ok [0..<n])), Ptr (map f [0..<n] @ drop n xs), Ptr (map g [0..<n] @ drop n os))"
proof -
  let ?P = "\<lambda>i st. st = (word_of_nat (length (filter ok [0..<i])) :: i32, Ptr (map f [0..<i] @ drop i xs),
      Ptr (map g [0..<i] @ drop i os))"
  have "\<exists>s'. for_loop [0..<n] body (0, Ptr xs, Ptr os) = Ret s' \<and> ?P n s'"
  proof (rule for_loop_inv)
    fix i st assume i: "i < n" and P: "?P i st"
    then have "body i st = Ret (if ok i then word_of_nat (length (filter ok [0..<i])) + 1
        else word_of_nat (length (filter ok [0..<i])),
        Ptr ((map f [0..<i] @ drop i xs)[i := f i]), Ptr ((map g [0..<i] @ drop i os)[i := g i]))"
      using assms i by (simp add: nth_map_upt_drop)
    then show "\<exists>s'. body i st = Ret s' \<and> ?P (Suc i) s'"
      using i assms(2,3) by (simp add: map_upt_update del: upt_Suc) (simp add: add.commute)
  qed simp_all
  then show ?thesis by auto
qed

section \<open>Lemmas: batch decryption\<close>

lemma i32_of_nat_sint: "0 \<le> sint n \<Longrightarrow> i32_of_usize (nat (sint n)) = n"
  by (simp add: i32_of_usize_def)

lemma sint_diff_nonneg:
  "0 \<le> sint (b :: i32) \<Longrightarrow> sint b \<le> sint a \<Longrightarrow> sint (a - b) = sint a - sint b"
  using sint_lt [of a] sint_ge [of b] by (simp add: sint_word_ariths signed_take_bit_int_eq_self)

lemma usize64_le_iff:
  assumes "0 \<le> sint a" "0 \<le> sint b"
  shows "usize64 a \<le> usize64 b \<longleftrightarrow> sint a \<le> sint b"
  using assms by (simp add: word_le_nat_alt unat_usize64_nonneg nat_le_eq_zle)

lemma usize64_diff:
  assumes "0 \<le> sint b" "sint b \<le> sint a"
  shows "unat (usize64 a - usize64 b) = nat (sint a) - nat (sint b)"
  using assms usize64_le_iff [of b a] by (simp add: unat_sub unat_usize64_nonneg)

lemma batch_decrypt_one_single:
  assumes e: "KEYS_TABLE s h = Some e" and wf: "wf_packet_key (dk_packet (ke_remote e))"
    and len: "0 \<le> sint len" "0 \<le> sint hl" and buf: "valid_buf pkt len"
  shows "\<exists>res pkt'. batch_decrypt_one (dk_packet (ke_remote e)) pn pkt len hl = Ret (res, pkt')
    \<and> single_decrypt h pn pkt len hl s = (case res of Some n \<Rightarrow> i32_of_usize n | None \<Rightarrow> -1, pkt')
    \<and> (\<forall>n. res = Some n \<longrightarrow> n < 2 ^ 31)"
proof (cases pkt)
  case Null
  then show ?thesis by (simp add: batch_decrypt_one_def single_decrypt_def)
next
  case (Ptr mem)
  show ?thesis
  proof (cases "sint len \<le> sint hl")
    case True
    then show ?thesis using Ptr len by (simp add: batch_decrypt_one_def single_decrypt_def usize64_le_iff)
  next
    case False
    let ?h = "nat (sint hl)" and ?l = "nat (sint len)"
    have mem: "?h \<le> ?l" "?l \<le> length mem" using False len buf Ptr by (auto simp: valid_buf_def)
    obtain r p where dec: "pk_decrypt_in_place (dk_packet (ke_remote e)) pn (take ?h mem)
        (take (?l - ?h) (drop ?h mem)) = (r, p)" by fastforce
    have p: "length p = ?l - ?h" using wf_packet_keyD(3) [OF wf dec] mem by simp
    have b: "batch_decrypt_one (dk_packet (ke_remote e)) pn pkt len hl =
        (case r of Inr n \<Rightarrow> Ret (Some n, Ptr (put_at ?h p mem)) | Inl _ \<Rightarrow> Ret (None, Ptr (put_at ?h p mem)))"
      using Ptr False len mem dec
      by (simp add: batch_decrypt_one_def usize64_le_iff sub_slice_in unat_usize64_nonneg usize64_diff
          split: sum.splits)
    have i: "i32_of_usize ?h = hl" "i32_of_usize (?l - ?h) = len - hl" 
      using len False i32_of_nat_sint [of "len - hl"] sint_diff_nonneg [of hl len]
      by (simp_all add: i32_of_nat_sint flip: nat_diff_distrib')
    have "rlsm_keys_remote_decrypt h pn (Ptr (take ?h mem)) (i32_of_usize ?h) (Ptr (drop ?h mem))
        (i32_of_usize (?l - ?h)) s =
        (let pm' = Ptr (p @ drop (length p) (drop ?h mem)) in
         case r of Inr k \<Rightarrow> Ret ((i32_of_usize k, pm'), clear_last_error s)
         | Inl e \<Rightarrow> Ret ((-1, pm'), set_last_error (''decrypt: '' @ e) (clear_last_error s)))"
      using e dec mem nonneg_i32_less [OF len(1)] nonneg_i32_less [OF len(2)]
      by (intro remote_decrypt_valid) simp_all
    moreover have "put_at ?h p mem = take ?h mem @ p @ drop (length p) (drop ?h mem)"
      by (simp add: put_at_def add.commute)
    ultimately have "single_decrypt h pn pkt len hl s =
        (case r of Inr n \<Rightarrow> (i32_of_usize n, Ptr (put_at ?h p mem)) | Inl _ \<Rightarrow> (-1, Ptr (put_at ?h p mem)))"
      using Ptr False unfolding i by (cases r) (simp_all add: single_decrypt_def Let_def)
    moreover have "n < 2 ^ 31" if "r = Inr n" for n
      using wf_packet_keyD(4) [OF wf dec [unfolded that]] mem nonneg_i32_less [OF len(1)] by simp
    ultimately show ?thesis using b by (cases r) auto
  qed
qed

lemma i32_of_usize_ne_m1: "n < 2 ^ 31 \<Longrightarrow> i32_of_usize n \<noteq> -1"
proof
  assume "n < 2 ^ 31" "i32_of_usize n = -1"
  then have "int n = sint (-1 :: i32)" using sint_i32_of_usize [of n] by simp
  then show False by simp
qed

section \<open>Lemmas: batch encryption\<close>

text \<open>The guards of one encryption at natural numbers, and its agreement with the single call.\<close>

lemma batch_encrypt_one_single:
  assumes wf: "wf_packet_key (dk_packet (ke_local e))"
    and lens: "0 \<le> sint hl" "0 \<le> sint n" "0 \<le> sint cap" "sint n \<le> sint cap"
    and mem: "nat (sint hl) + nat (sint cap) \<le> length mem"
    and fits: "nat (sint n) + pk_tag_len (dk_packet (ke_local e)) \<le> nat (sint cap)"
    and seals: "\<And>h p. \<exists>tag c. pk_encrypt_in_place (dk_packet (ke_local e)) pn h p = (Inr tag, c)"
    and single: "local_encrypt_entry pn (take (nat (sint hl)) mem) (nat (sint n))
        (take (nat (sint cap)) (drop (nat (sint hl)) mem)) e = (res, buf, e')"
  shows "batch_encrypt_one e pn (Ptr mem) hl n cap =
    Ret (case res of Inr t \<Rightarrow> Some t | Inl _ \<Rightarrow> None, Ptr (put_at (nat (sint hl)) buf mem), e')"
proof -
  let ?h = "nat (sint hl)" and ?n = "nat (sint n)" and ?c = "nat (sint cap)"
  let ?buf = "take ?c (drop ?h mem)"
  have guard: "\<not> usize64 n > usize64 cap"
    using lens by (simp add: not_less usize64_le_iff)
  show ?thesis
  proof (cases "reuses pn e")
    case True
    then have "res = Inl ''nonce reuse: packet_number must be strictly increasing''" "buf = ?buf" "e' = e"
      using single by (simp_all add: local_encrypt_entry_reuse)
    with True guard mem show ?thesis
      by (simp add: batch_encrypt_one_def reuses_def put_at_self)
  next
    case False
    obtain tag c where enc: "pk_encrypt_in_place (dk_packet (ke_local e)) pn (take ?h mem) (take ?n ?buf) = (Inr tag, c)"
      using seals by blast
    have n: "?n \<le> ?c" "length ?buf = ?c" using lens mem by auto
    have "length (take ?n ?buf) = ?n" by (subst length_take) (simp only: n min_absorb2)
    note lc = trans [OF wf_packet_keyD(1) [OF wf enc] this] wf_packet_keyD(2) [OF wf enc]
    have "local_encrypt_entry pn (take ?h mem) ?n ?buf e =
        (Inr (?n + length tag), c @ tag @ drop (?n + length tag) ?buf, e\<lparr>last_local_pn := Some pn\<rparr>)"
      unfolding local_encrypt_entry_def using False enc fits n lc
      by (simp add: reuses_def Let_def del: take_take)
    with single have "res = Inr (?n + length tag)" "e' = e\<lparr>last_local_pn := Some pn\<rparr>"
      "buf = c @ tag @ drop (?n + length tag) ?buf" by simp_all
    moreover have "put_at ?h (c @ tag @ drop (?n + length tag) ?buf) mem = put_at ?h (c @ tag) mem"
    proof -
      have "drop (?n + length tag) ?buf @ drop (?h + ?c) mem = drop (?h + (?n + length tag)) mem"
        using drop_take_append [of "?n + length tag" ?c "drop ?h mem"] fits lc mem by (simp add: add.commute)
      then show ?thesis using lc fits mem by (simp add: put_at_def add.commute)
    qed
    ultimately show ?thesis
      using False enc guard lens mem fits lc
      by (simp add: batch_encrypt_one_def reuses_def unat_usize64_nonneg sub_slice_in Let_def del: take_take)
  qed
qed

text \<open>One step of the reference: the result, the memory and the entry of the single call.\<close>

lemma single_encrypt_step:
  assumes e: "KEYS_TABLE s h = Some e" and ok: "encryptable e (pn, mem, hl, n, cap)"
    and single: "local_encrypt_entry pn (take (nat (sint hl)) mem) (nat (sint n))
        (take (nat (sint cap)) (drop (nat (sint hl)) mem)) e = (res, buf, e')"
    and len: "length buf = nat (sint cap)"
  shows "\<exists>s'. rlsm_keys_local_encrypt h pn (Ptr (take (nat (sint hl)) mem)) hl (Ptr (drop (nat (sint hl)) mem)) n cap s =
      Ret ((case res of Inr t \<Rightarrow> i32_of_usize t | Inl _ \<Rightarrow> -1, Ptr (buf @ drop (nat (sint cap)) (drop (nat (sint hl)) mem))), s')
    \<and> KEYS_TABLE s' = (KEYS_TABLE s)(h \<mapsto> e')"
proof -
  have r: "0 \<le> sint hl" "0 \<le> sint n" "sint n \<le> sint cap" "nat (sint hl) + nat (sint cap) \<le> length mem"
    using ok by (auto simp: encryptable_def)
  then have i: "i32_of_usize (nat (sint hl)) = hl" "i32_of_usize (nat (sint n)) = n"
    "i32_of_usize (nat (sint cap)) = cap"
    by (auto intro!: i32_of_nat_sint)
  have "rlsm_keys_local_encrypt h pn (Ptr (take (nat (sint hl)) mem)) (i32_of_usize (nat (sint hl)))
      (Ptr (drop (nat (sint hl)) mem)) (i32_of_usize (nat (sint n))) (i32_of_usize (nat (sint cap))) s =
    (let s' = (clear_last_error s)\<lparr>KEYS_TABLE := (KEYS_TABLE s)(h \<mapsto> e')\<rparr>;
         pm' = Ptr (buf @ drop (length buf) (drop (nat (sint hl)) mem)) in
     case res of Inr t \<Rightarrow> Ret ((i32_of_usize t, pm'), s')
     | Inl msg \<Rightarrow> Ret ((-1, pm'), set_last_error msg s'))"
    using r e single nonneg_i32_less [of hl] nonneg_i32_less [of cap]
    by (intro local_encrypt_valid) simp_all
  then show ?thesis
    unfolding i using len by (cases res) (auto simp: Let_def)
qed

lemma encryptable_entry: "ke_local e' = ke_local e \<Longrightarrow> encryptable e' req = encryptable e req"
  by (simp add: encryptable_def)

lemma local_encrypt_entry_keys:
  "local_encrypt_entry pn h n buf e = (r, buf', e') \<Longrightarrow> ke_local e' = ke_local e"
  by (auto simp: local_encrypt_entry_def Let_def split: if_splits prod.splits sum.splits)

text \<open>The batch step and the single call agree on a request that can be served.\<close>

lemma batch_step_single:
  assumes e: "KEYS_TABLE s h = Some e" and wf: "wf_packet_key (dk_packet (ke_local e))"
    and seals: "always_seals (dk_packet (ke_local e))" and ok: "encryptable e (pn, mem, hl, n, cap)"
  obtains res mem' e' s' where
    "batch_encrypt_one e pn (Ptr mem) hl n cap = Ret (res, Ptr mem', e')"
    "encrypt_each h ((pn, mem, hl, n, cap) # reqs) s =
       (case encrypt_each h reqs s' of (rs, t) \<Rightarrow>
         ((case res of Some k \<Rightarrow> i32_of_usize k | None \<Rightarrow> -1, mem') # rs, t))"
    "KEYS_TABLE s' = (KEYS_TABLE s)(h \<mapsto> e')" "ke_local e' = ke_local e"
    "\<And>k. res = Some k \<Longrightarrow> k < 2 ^ 31"
proof -
  let ?h = "nat (sint hl)" and ?c = "nat (sint cap)"
  obtain res buf e' where single: "local_encrypt_entry pn (take ?h mem) (nat (sint n)) (take ?c (drop ?h mem)) e = (res, buf, e')"
    by (metis prod_cases3)
  have r: "0 \<le> sint hl" "0 \<le> sint n" "0 \<le> sint cap" "sint n \<le> sint cap" "?h + ?c \<le> length mem"
    "nat (sint n) + pk_tag_len (dk_packet (ke_local e)) \<le> ?c"
    using ok by (auto simp: encryptable_def)
  have len: "length buf = ?c"
    using local_encrypt_entry_length [OF wf _ single] r by simp
  have one: "batch_encrypt_one e pn (Ptr mem) hl n cap =
      Ret (case res of Inr t \<Rightarrow> Some t | Inl _ \<Rightarrow> None, Ptr (put_at ?h buf mem), e')"
    using seals by (intro batch_encrypt_one_single [OF wf r(1-5) r(6) _ single]) (simp add: always_seals_def)
  obtain s' where s': "rlsm_keys_local_encrypt h pn (Ptr (take ?h mem)) hl (Ptr (drop ?h mem)) n cap s =
      Ret ((case res of Inr t \<Rightarrow> i32_of_usize t | Inl _ \<Rightarrow> -1, Ptr (buf @ drop ?c (drop ?h mem))), s')"
    "KEYS_TABLE s' = (KEYS_TABLE s)(h \<mapsto> e')"
    using single_encrypt_step [OF e ok single len] by blast
  have put: "put_at ?h buf mem = take ?h mem @ buf @ drop ?c (drop ?h mem)"
    using len by (simp add: put_at_def add.commute)
  have "t < 2 ^ 31" if "res = Inr t" for t
  proof -
    have "t \<le> length (take ?c (drop ?h mem))"
      using single that by (auto simp: local_encrypt_entry_def Let_def split: if_splits prod.splits sum.splits)
    then show ?thesis using nonneg_i32_less [OF r(3)] by simp
  qed
  then show ?thesis
    using that [OF one, of s'] s' put local_encrypt_entry_keys [OF single]
    by (cases res) (auto simp: Let_def)
qed

lemma batch_encrypt_loop:
  assumes "KEYS_TABLE s h = Some e" "wf_packet_key (dk_packet (ke_local e))"
    and "always_seals (dk_packet (ke_local e))" "\<forall>req \<in> set reqs. encryptable e req"
    and "i + length reqs \<le> length pks" "length pks \<le> length outs" "length pks \<le> length pns"
    and "length pks \<le> length hls" "length pks \<le> length ns" "length pks \<le> length caps"
    and "\<forall>j < length reqs. reqs ! j = (pns ! (i + j), (case pks ! (i + j) of Ptr m \<Rightarrow> m), hls ! (i + j), ns ! (i + j), caps ! (i + j))
           \<and> pks ! (i + j) \<noteq> Null"
  shows "\<exists>e' rs s'. encrypt_each h reqs s = (rs, s') \<and> KEYS_TABLE s' = (KEYS_TABLE s)(h \<mapsto> e')
    \<and> for_loop [i..<i + length reqs] (batch_encrypt_body (Ptr pns) (Ptr hls) (Ptr ns) (Ptr caps)) (c, e, Ptr pks, Ptr outs) =
        Ret (c + word_of_nat (length (filter (\<lambda>r. fst r \<noteq> -1) rs)), e',
             Ptr (take i pks @ map (\<lambda>r. Ptr (snd r)) rs @ drop (i + length reqs) pks),
             Ptr (take i outs @ map fst rs @ drop (i + length reqs) outs))"
  using assms
proof (induction reqs arbitrary: s e i c pks outs)
  case Nil
  then show ?case by (intro exI [of _ e]) (auto simp: fun_upd_idem)
next
  case (Cons req reqs)
  from Cons.prems(11) [rule_format, of 0] obtain mem where
    req: "req = (pns ! i, mem, hls ! i, ns ! i, caps ! i)" "pks ! i = Ptr mem"
    by (cases "pks ! i") auto
  have i: "i < length pks" using Cons.prems by simp
  have ok: "encryptable e (pns ! i, mem, hls ! i, ns ! i, caps ! i)" using Cons.prems(4) req by simp
  obtain res mem' e1 s1 where one: "batch_encrypt_one e (pns ! i) (Ptr mem) (hls ! i) (ns ! i) (caps ! i) = Ret (res, Ptr mem', e1)"
    and each: "encrypt_each h (req # reqs) s = (case encrypt_each h reqs s1 of (rs, t) \<Rightarrow>
         ((case res of Some k \<Rightarrow> i32_of_usize k | None \<Rightarrow> -1, mem') # rs, t))"
    and s1: "KEYS_TABLE s1 = (KEYS_TABLE s)(h \<mapsto> e1)" "ke_local e1 = ke_local e"
    and small: "\<And>k. res = Some k \<Longrightarrow> k < 2 ^ 31"
    unfolding req(1) using batch_step_single [OF Cons.prems(1-3) ok, of reqs] by blast
  let ?r = "case res of Some k \<Rightarrow> i32_of_usize k | None \<Rightarrow> -1"
  let ?c = "c + (if ?r \<noteq> -1 then 1 else 0)"
  let ?pks = "pks[i := Ptr mem']" and ?outs = "outs[i := ?r]"
  let ?body = "batch_encrypt_body (Ptr pns) (Ptr hls) (Ptr ns) (Ptr caps)"
  have step: "?body i (c, e, Ptr pks, Ptr outs) = Ret (?c, e1, Ptr ?pks, Ptr ?outs)"
    using i Cons.prems(5-10) one req(2) small
    by (cases res) (simp_all add: batch_encrypt_body_def ffi_simps i32_of_usize_ne_m1)
  have "\<exists>e' rs s'. encrypt_each h reqs s1 = (rs, s') \<and> KEYS_TABLE s' = (KEYS_TABLE s1)(h \<mapsto> e')
    \<and> for_loop [Suc i..<Suc i + length reqs] ?body (?c, e1, Ptr ?pks, Ptr ?outs) =
        Ret (?c + word_of_nat (length (filter (\<lambda>r. fst r \<noteq> -1) rs)), e',
             Ptr (take (Suc i) ?pks @ map (\<lambda>r. Ptr (snd r)) rs @ drop (Suc i + length reqs) ?pks),
             Ptr (take (Suc i) ?outs @ map fst rs @ drop (Suc i + length reqs) ?outs))"
  proof (rule Cons.IH)
    show "\<forall>req \<in> set reqs. encryptable e1 req"
      using Cons.prems(4) encryptable_entry [OF s1(2)] by simp
    show "\<forall>j<length reqs. reqs ! j = (pns ! (Suc i + j), (case ?pks ! (Suc i + j) of Ptr m \<Rightarrow> m),
        hls ! (Suc i + j), ns ! (Suc i + j), caps ! (Suc i + j)) \<and> ?pks ! (Suc i + j) \<noteq> Null"
    proof (intro allI impI)
      fix j assume "j < length reqs"
      then show "reqs ! j = (pns ! (Suc i + j), (case ?pks ! (Suc i + j) of Ptr m \<Rightarrow> m),
          hls ! (Suc i + j), ns ! (Suc i + j), caps ! (Suc i + j)) \<and> ?pks ! (Suc i + j) \<noteq> Null"
        using Cons.prems(11) [rule_format, of "Suc j"] by simp
    qed
  qed (use Cons.prems(1-3,5-10) s1 in simp_all)
  then obtain e' rs s' where "encrypt_each h reqs s1 = (rs, s')" "KEYS_TABLE s' = (KEYS_TABLE s1)(h \<mapsto> e')"
    "for_loop [Suc i..<Suc i + length reqs] ?body (?c, e1, Ptr ?pks, Ptr ?outs) =
        Ret (?c + word_of_nat (length (filter (\<lambda>r. fst r \<noteq> -1) rs)), e',
             Ptr (take (Suc i) ?pks @ map (\<lambda>r. Ptr (snd r)) rs @ drop (Suc i + length reqs) ?pks),
             Ptr (take (Suc i) ?outs @ map fst rs @ drop (Suc i + length reqs) ?outs))" by blast
  moreover have "take (Suc i) ?pks = take i pks @ [Ptr mem']" "take (Suc i) ?outs = take i outs @ [?r]"
    using i Cons.prems(6) by (simp_all add: take_Suc_conv_app_nth)
  moreover have "[i..<i + length (req # reqs)] = i # [Suc i..<Suc i + length reqs]"
    by (simp add: upt_conv_Cons del: upt_Suc)
  ultimately show ?case
    using each step s1(1) by (intro exI [of _ e'] exI [of _ "(?r, mem') # rs"] exI [of _ s']) simp
qed

section \<open>Properties\<close>

text \<open>
  C5. \<open>rlsm_keys_batch_decrypt\<close> is \<open>rlsm_keys_remote_decrypt\<close> on every packet: with
  non-negative lengths and packets as long as stated, it stays within the packets, each
  output entry is what the single call on that packet returns, each packet is left as the
  single call leaves it, entries past \<open>count\<close> are untouched, and the result is the number
  of packets that were decrypted.
\<close>

theorem batch_decrypt_matches_single:
  fixes s :: "'z keys_shim_scheme"
  assumes e: "KEYS_TABLE s h = Some e" "wf_packet_key (dk_packet (ke_remote e))"
    and n: "0 < sint count" "n = nat (sint count)"
    and arrays: "n \<le> length pns" "n \<le> length pkts" "n \<le> length lens" "n \<le> length hls" "n \<le> length outs"
    and valid: "\<And>i. i < n \<Longrightarrow> 0 \<le> sint (lens ! i) \<and> 0 \<le> sint (hls ! i) \<and> valid_buf (pkts ! i) (lens ! i)"
  shows "rlsm_keys_batch_decrypt h count (Ptr pns) (Ptr pkts) (Ptr lens) (Ptr hls) (Ptr outs) s =
    (let one = (\<lambda>i. single_decrypt h (pns ! i) (pkts ! i) (lens ! i) (hls ! i) s) in
     Ret ((word_of_nat (length (filter (\<lambda>i. fst (one i) \<noteq> -1) [0..<n])),
           Ptr (map (\<lambda>i. snd (one i)) [0..<n] @ drop n pkts),
           Ptr (map (\<lambda>i. fst (one i)) [0..<n] @ drop n outs)), clear_last_error s))"
proof -
  let ?one = "\<lambda>i. single_decrypt h (pns ! i) (pkts ! i) (lens ! i) (hls ! i) s"
  let ?b = "batch_decrypt_body (dk_packet (ke_remote e)) (Ptr pns) (Ptr lens) (Ptr hls)"
  have "for_loop [0..<n] ?b (0, Ptr pkts, Ptr outs) =
    Ret (word_of_nat (length (filter (\<lambda>i. fst (?one i) \<noteq> -1) [0..<n])),
         Ptr (map (\<lambda>i. snd (?one i)) [0..<n] @ drop n pkts), Ptr (map (\<lambda>i. fst (?one i)) [0..<n] @ drop n outs))"
  proof (rule for_loop_two)
    fix i c and ys :: "bytes ptr list" and zs :: "i32 list"
    assume i: "i < n" and l: "length ys = length pkts" "length zs = length outs" and y: "ys ! i = pkts ! i"
    obtain res pkt' where one: "batch_decrypt_one (dk_packet (ke_remote e)) (pns ! i) (pkts ! i) (lens ! i) (hls ! i) = Ret (res, pkt')"
      "?one i = (case res of Some n \<Rightarrow> i32_of_usize n | None \<Rightarrow> -1, pkt')" "\<forall>n. res = Some n \<longrightarrow> n < 2 ^ 31"
      using batch_decrypt_one_single [OF e, of "lens ! i" "hls ! i" "pkts ! i" "pns ! i"] valid [OF i] by blast
    then show "?b i (c, Ptr ys, Ptr zs) = Ret (if fst (?one i) \<noteq> -1 then c + 1 else c,
        Ptr (ys[i := snd (?one i)]), Ptr (zs[i := fst (?one i)]))"
      using i l y arrays by (cases res) (simp_all add: batch_decrypt_body_def ffi_simps i32_of_usize_ne_m1)
  qed (use arrays in simp_all)
  then show ?thesis
    using n e by (simp add: rlsm_keys_batch_decrypt_def Let_def usize_of_i32_nonneg)
qed


text \<open>
  C23. When the tag does not fit, \<open>rlsm_keys_batch_encrypt\<close> reports -1 with the payload
  already encrypted in place under the packet number, and leaves the recorded number as
  it was, so the same number is accepted again: a second batch with another payload in the
  same place and a larger buffer succeeds under it. The single call refuses the second use.
\<close>

theorem batch_encrypt_reuses_number:
  fixes s :: "'z keys_shim_scheme"
  assumes e: "KEYS_TABLE s h = Some e" "\<not> reuses pn e" "wf_packet_key (dk_packet (ke_local e))"
    and enc: "pk_encrypt_in_place (dk_packet (ke_local e)) pn (take (nat (sint hl)) mem)
        (take (nat (sint n)) (drop (nat (sint hl)) mem)) = (Inr tag, c)"
    and lens: "0 \<le> sint hl" "0 \<le> sint n" "sint n \<le> sint cap" "nat (sint hl) + nat (sint cap) \<le> length mem"
    and short: "nat (sint cap) < nat (sint n) + length tag"
  shows "\<exists>s'. rlsm_keys_batch_encrypt h 1 (Ptr [pn]) (Ptr [Ptr mem]) (Ptr [hl]) (Ptr [n]) (Ptr [cap]) (Ptr [out]) s =
          Ret ((0, Ptr [Ptr (put_at (nat (sint hl)) c mem)], Ptr [-1]), s')
      \<and> KEYS_TABLE s' h = Some e \<and> \<not> reuses pn e
      \<and> (\<exists>m msg. local_encrypt_entry pn (take (nat (sint hl)) mem) (nat (sint n))
            (take (nat (sint cap)) (drop (nat (sint hl)) mem)) e = (Inl msg, m, e\<lparr>last_local_pn := Some pn\<rparr>))
      \<and> reuses pn (e\<lparr>last_local_pn := Some pn\<rparr>)"
proof -
  let ?h = "nat (sint hl)" and ?n = "nat (sint n)" and ?c = "nat (sint cap)"
  let ?buf = "take ?c (drop ?h mem)"
  have nc: "?n \<le> ?c" "0 \<le> sint cap" using lens by auto
  then have tk: "take ?n ?buf = take ?n (drop ?h mem)" by (simp add: min_absorb1)
  have "\<not> usize64 n > usize64 cap" using lens nc by (simp add: not_less usize64_le_iff)
  then have one: "batch_encrypt_one e pn (Ptr mem) hl n cap = Ret (None, Ptr (put_at ?h c mem), e)"
    using e(2) enc lens nc short unfolding tk [symmetric]
    by (simp add: batch_encrypt_one_def reuses_def unat_usize64_nonneg sub_slice_in del: take_take)
  have single: "\<exists>m msg. local_encrypt_entry pn (take ?h mem) ?n ?buf e = (Inl msg, m, e\<lparr>last_local_pn := Some pn\<rparr>)"
    using e(2) enc short lens unfolding tk [symmetric]
    by (auto simp: local_encrypt_entry_def reuses_def Let_def simp del: take_take)
  have "for_loop [0..<1] (batch_encrypt_body (Ptr [pn]) (Ptr [hl]) (Ptr [n]) (Ptr [cap])) (0, e, Ptr [Ptr mem], Ptr [out]) =
      Ret (0, e, Ptr [Ptr (put_at ?h c mem)], Ptr [-1])"
    using one by (simp add: batch_encrypt_body_def ffi_simps)
  then show ?thesis
    using e(1,2) single by (simp add: rlsm_keys_batch_encrypt_def usize_of_i32_nonneg reuses_def)
qed

text \<open>
  C24. The guards of \<open>rlsm_keys_batch_header_unprotect\<close> do not hold negative offsets back:
  an offset of -20 wraps the sum that is compared with the packet length to 0, the check
  passes for every packet length, and the sample is taken outside the packet.
\<close>

theorem batch_unprotect_negative_offset:
  fixes s :: "'z keys_shim_scheme"
  assumes "KEYS_TABLE s h = Some e" and "length mem < 2 ^ 63"
  shows "rlsm_keys_batch_header_unprotect h 1 (Ptr [Ptr mem]) (Ptr [len]) (Ptr [-20]) (Ptr [b]) (Ptr [x]) s = Undef"
proof -
  have w: "20 + usize64 (-20) = 0" "unat (usize64 (-20) + 4) = 2 ^ 64 - 16"
    by (simp_all add: usize64_def)
  have "batch_unprotect_one (dk_header (ke_remote e)) (Ptr mem) len (-20) = Undef"
    using assms(2) by (simp add: batch_unprotect_one_def Let_def w sub_slice_def)
  then have "for_loop [0..<1] (batch_unprotect_body (dk_header (ke_remote e)) (Ptr [len]) (Ptr [-20]))
      (0, Ptr [Ptr mem], Ptr [b], Ptr [x]) = Undef"
    by (simp add: batch_unprotect_body_def ffi_simps)
  then show ?thesis
    using assms(1) by (simp add: rlsm_keys_batch_header_unprotect_def usize_of_i32_nonneg)
qed

text \<open>The theorems at the sample keys.\<close>

definition sample_packet :: bytes where
  "sample_packet = [9, 8 XOR 0x55] @ replicate 16 3"

theorem batch_decrypt_matches_single_witness:
  "rlsm_keys_batch_decrypt 7 1 (Ptr [3]) (Ptr [Ptr sample_packet]) (Ptr [18]) (Ptr [1]) (Ptr [0, 5]) sample_keys_shim =
   Ret ((1, Ptr [Ptr ([9, 8] @ replicate 16 3)], Ptr [1, 5]), clear_last_error sample_keys_shim)"
proof -
  have one: "single_decrypt 7 3 (Ptr sample_packet) 18 1 sample_keys_shim = (1, Ptr ([9, 8] @ replicate 16 3))"
    by code_simp
  show ?thesis
    using batch_decrypt_matches_single [of sample_keys_shim 7 sample_entry 1 1 "[3]" "[Ptr sample_packet]" "[18]" "[1]" "[0, 5]"]
      sample_wf
    by (simp add: one wf_entry_def valid_buf_def) (simp add: sample_keys_shim_def sample_packet_def)
qed

lemma sample_seals: "always_seals (dk_packet (ke_local sample_entry))"
  by (simp add: always_seals_def sample_entry_def sample_keys_def sample_packet_key_def)


theorem batch_encrypt_reuses_number_witness:
  "\<exists>s'. rlsm_keys_batch_encrypt 7 1 (Ptr [3]) (Ptr [Ptr [9, 8, 8, 8]]) (Ptr [1]) (Ptr [2]) (Ptr [3]) (Ptr [0]) sample_keys_shim =
        Ret ((0, Ptr [Ptr [9, 8 XOR 0x55, 8 XOR 0x55, 8]], Ptr [-1]), s')
      \<and> KEYS_TABLE s' 7 = Some sample_entry \<and> \<not> reuses 3 sample_entry"
proof -
  have k: "KEYS_TABLE sample_keys_shim 7 = Some sample_entry" "wf_packet_key (dk_packet (ke_local sample_entry))"
    using sample_wf by (simp_all add: sample_keys_shim_def wf_entry_def)
  have enc: "pk_encrypt_in_place (dk_packet (ke_local sample_entry)) 3 (take (nat (sint (1 :: i32))) [9, 8, 8, 8])
      (take (nat (sint (2 :: i32))) (drop (nat (sint (1 :: i32))) [9, 8, 8, 8])) = (Inr (sample_tag 3), [8 XOR 0x55, 8 XOR 0x55])"
    by (simp add: sample_entry_def sample_keys_def sample_packet_key_def)
  have r: "\<not> reuses 3 sample_entry" by (simp add: reuses_def sample_entry_def)
  show ?thesis
    using batch_encrypt_reuses_number [OF k(1) r k(2) enc, of 3 0]
    by (auto simp: sample_tag_def put_at_def)
qed

theorem batch_unprotect_negative_offset_witness:
  "rlsm_keys_batch_header_unprotect 7 1 (Ptr [Ptr (replicate 40 1)]) (Ptr [40]) (Ptr [-20]) (Ptr [0]) (Ptr [0]) sample_keys_shim = Undef"
  using batch_unprotect_negative_offset [of sample_keys_shim 7 sample_entry "replicate 40 1" 40 0 0]
  by (simp add: sample_keys_shim_def)

end
