(* ===== verification/Quic_Crypto.thy ===== *)
theory Quic_Crypto
  imports Quic_Keys
begin

text \<open>
  Raw key material and raw crypto of \<open>crates/librustls-mojo/src/quic.rs\<close>: the HKDF labels
  of the Initial secrets, the derivation of raw keys into caller buffers, AES-128-GCM seal
  and open, and HMAC-SHA256. HKDF, AES-GCM and HMAC themselves are arguments.
\<close>

section \<open>HKDF labels and Initial secrets\<close>

definition QUIC_V1_SALT :: bytes where
  "QUIC_V1_SALT =
     [0x38, 0x76, 0x2c, 0xf7, 0xf5, 0x59, 0x34, 0xb3, 0x4d, 0x17, 0x9a, 0xe6, 0xa4, 0xc8, 0x0c,
      0xad, 0xcc, 0xbb, 0x7f, 0x0a]"

definition QUIC_V2_SALT :: bytes where
  "QUIC_V2_SALT =
     [0x0d, 0xed, 0xe3, 0xde, 0xf7, 0x00, 0xa6, 0xdb, 0x81, 0x93, 0x81, 0xbe, 0x6e, 0x26, 0x9d,
      0xcb, 0xf9, 0xbd, 0x2e, 0xd9]"

text \<open>
  The HKDF provider: extraction with a salt, an expander for known key material, and
  expansion of a list of info slices into so many bytes (\<open>None\<close> when it fails).
\<close>

record 'x hkdf_api =
  extract_from_secret :: "bytes \<Rightarrow> bytes \<Rightarrow> 'x"
  expander_for_okm :: "bytes \<Rightarrow> 'x"
  expand_slice :: "'x \<Rightarrow> bytes list \<Rightarrow> nat \<Rightarrow> bytes option"

definition label_info :: "bytes \<Rightarrow> nat \<Rightarrow> bytes list" where
  "label_info label output_len =
     (let prefix = ascii ''tls13 '' in
      [to_be_bytes (word_of_nat output_len :: u16), [word_of_nat (length prefix + length label)],
       prefix, label, [0]])"

definition expand_with_label :: "'x hkdf_api \<Rightarrow> 'x \<Rightarrow> bytes \<Rightarrow> nat \<Rightarrow> bytes outcome" where
  "expand_with_label hkdf expander label output_len =
     (case expand_slice hkdf expander (label_info label output_len) output_len of
        None \<Rightarrow> Panic
      | Some okm \<Rightarrow> Ret okm)"

definition derive_raw_keys ::
  "'x hkdf_api \<Rightarrow> suite_api \<Rightarrow> i32 \<Rightarrow> bytes \<Rightarrow> bool \<Rightarrow> (string + bytes \<times> bytes \<times> bytes) outcome" where
  "derive_raw_keys hkdf suite version dcid is_client =
     (if version \<noteq> 1 \<and> version \<noteq> 2 then
        Ret (Inl (''unsupported QUIC version: '' @ dec_i32 version))
      else
        let salt = (if version = 1 then QUIC_V1_SALT else QUIC_V2_SALT) in
        obind (initial_suite suite) (\<lambda>_.
        let hs_expander = extract_from_secret hkdf salt dcid;
            label = (if is_client then ascii ''client in'' else ascii ''server in'') in
        obind (expand_with_label hkdf hs_expander label 32) (\<lambda>secret_bytes.
        let secret_expander = expander_for_okm hkdf secret_bytes;
            (key_label, iv_label, hp_label) =
              (if version = 2 then (ascii ''quicv2 key'', ascii ''quicv2 iv'', ascii ''quicv2 hp'')
               else (ascii ''quic key'', ascii ''quic iv'', ascii ''quic hp'')) in
        obind (expand_with_label hkdf secret_expander key_label 16) (\<lambda>key.
        obind (expand_with_label hkdf secret_expander iv_label 12) (\<lambda>iv.
        obind (expand_with_label hkdf secret_expander hp_label 16) (\<lambda>hp.
        Ret (Inr (key, iv, hp))))))))"

text \<open>The six output arguments of \<open>rlsm_initial_keys_raw\<close>: buffers and their in/out lengths.\<close>

record raw_out =
  out_key :: "bytes ptr"
  out_key_len :: "i32 ptr"
  out_iv :: "bytes ptr"
  out_iv_len :: "i32 ptr"
  out_hp :: "bytes ptr"
  out_hp_len :: "i32 ptr"

definition rlsm_initial_keys_raw ::
  "'x hkdf_api \<Rightarrow> suite_api \<Rightarrow> i32 \<Rightarrow> bytes ptr \<Rightarrow> i32 \<Rightarrow> i32 \<Rightarrow> raw_out \<Rightarrow> 'z error_state_scheme \<Rightarrow>
   ((i32 \<times> raw_out) \<times> 'z error_state_scheme) outcome" where
  "rlsm_initial_keys_raw hkdf suite version dcid_ptr dcid_len is_client out s =
     (let s = clear_last_error s in
      if sint dcid_len < 0 then rlsm_err ''rlsm_initial_keys_raw: negative dcid_len'' (-1, out) s
      else if is_null dcid_ptr then rlsm_err ''rlsm_initial_keys_raw: null dcid pointer'' (-1, out) s
      else if is_null (out_key out) \<or> is_null (out_key_len out) then
        rlsm_err ''rlsm_initial_keys_raw: null out_key or out_key_len'' (-1, out) s
      else if is_null (out_iv out) \<or> is_null (out_iv_len out) then
        rlsm_err ''rlsm_initial_keys_raw: null out_iv or out_iv_len'' (-1, out) s
      else if is_null (out_hp out) \<or> is_null (out_hp_len out) then
        rlsm_err ''rlsm_initial_keys_raw: null out_hp or out_hp_len'' (-1, out) s
      else
        obind (deref (out_key_len out)) (\<lambda>key_cap.
        obind (deref (out_iv_len out)) (\<lambda>iv_cap.
        obind (deref (out_hp_len out)) (\<lambda>hp_cap.
        if sint key_cap < 16 then
          rlsm_err ''rlsm_initial_keys_raw: out_key capacity must be >= 16'' (-1, out) s
        else if sint iv_cap < 12 then
          rlsm_err ''rlsm_initial_keys_raw: out_iv capacity must be >= 12'' (-1, out) s
        else if sint hp_cap < 16 then
          rlsm_err ''rlsm_initial_keys_raw: out_hp capacity must be >= 16'' (-1, out) s
        else
          obind (from_raw_parts dcid_ptr (usize_of_i32 dcid_len)) (\<lambda>dcid.
          obind (derive_raw_keys hkdf suite version dcid (is_client \<noteq> 0)) (\<lambda>res.
          case res of
            Inl msg \<Rightarrow> Ret ((-1, out), set_last_error msg s)
          | Inr (key, iv, hp) \<Rightarrow>
              obind (copy_nonoverlapping key (out_key out)) (\<lambda>k.
              obind (copy_nonoverlapping iv (out_iv out)) (\<lambda>v.
              obind (copy_nonoverlapping hp (out_hp out)) (\<lambda>p.
              Ret ((0, \<lparr>out_key = k, out_key_len = Ptr (i32_of_usize (length key)),
                        out_iv = v, out_iv_len = Ptr (i32_of_usize (length iv)),
                        out_hp = p, out_hp_len = Ptr (i32_of_usize (length hp))\<rparr>), s))))))))))"

section \<open>AES-128-GCM and HMAC\<close>

text \<open>The aws-lc-rs calls: sealing returns ciphertext and tag, opening the plaintext.\<close>

record ('k, 'n) aead_api =
  UnboundKey_new :: "bytes \<Rightarrow> string + 'k"
  Nonce_try_assume_unique :: "bytes \<Rightarrow> string + 'n"
  seal_in_place_append_tag :: "'k \<Rightarrow> 'n \<Rightarrow> bytes \<Rightarrow> bytes \<Rightarrow> string + bytes"
  open_in_place :: "'k \<Rightarrow> 'n \<Rightarrow> bytes \<Rightarrow> bytes \<Rightarrow> string + bytes"
  hmac_sha256_sign :: "bytes \<Rightarrow> bytes \<Rightarrow> bytes"

definition rlsm_aes_gcm_128_seal ::
  "('k, 'n) aead_api \<Rightarrow> bytes ptr \<Rightarrow> i32 \<Rightarrow> bytes ptr \<Rightarrow> i32 \<Rightarrow> bytes ptr \<Rightarrow> i32 \<Rightarrow> bytes ptr \<Rightarrow> i32 \<Rightarrow>
   bytes ptr \<Rightarrow> i32 ptr \<Rightarrow> 'z error_state_scheme \<Rightarrow>
   ((i32 \<times> bytes ptr \<times> i32 ptr) \<times> 'z error_state_scheme) outcome" where
  "rlsm_aes_gcm_128_seal api key_ptr key_len nonce_ptr nonce_len aad_ptr aad_len plaintext_ptr plaintext_len
     out_ptr out_len_ptr s =
     (let s = clear_last_error s; fail = (\<lambda>msg. rlsm_err msg (-1, out_ptr, out_len_ptr) s) in
      if key_len \<noteq> 16 then fail ''rlsm_aes_gcm_128_seal: key_len must be 16''
      else if is_null key_ptr then fail ''rlsm_aes_gcm_128_seal: null key pointer''
      else if nonce_len \<noteq> 12 then fail ''rlsm_aes_gcm_128_seal: nonce_len must be 12''
      else if is_null nonce_ptr then fail ''rlsm_aes_gcm_128_seal: null nonce pointer''
      else if sint aad_len < 0 then fail ''rlsm_aes_gcm_128_seal: negative aad_len''
      else if sint aad_len > 0 \<and> is_null aad_ptr then
        fail ''rlsm_aes_gcm_128_seal: null aad pointer with non-zero aad_len''
      else if sint plaintext_len < 0 then fail ''rlsm_aes_gcm_128_seal: negative plaintext_len''
      else if sint plaintext_len > 0 \<and> is_null plaintext_ptr then
        fail ''rlsm_aes_gcm_128_seal: null plaintext pointer with non-zero plaintext_len''
      else if is_null out_ptr then fail ''rlsm_aes_gcm_128_seal: null out pointer''
      else if is_null out_len_ptr then fail ''rlsm_aes_gcm_128_seal: null out_len pointer''
      else
        obind (from_raw_parts key_ptr 16) (\<lambda>key_bytes.
        obind (from_raw_parts nonce_ptr 12) (\<lambda>nonce_bytes.
        obind (if sint aad_len > 0 then from_raw_parts aad_ptr (usize_of_i32 aad_len) else Ret []) (\<lambda>aad_bytes.
        obind (if sint plaintext_len > 0 then from_raw_parts plaintext_ptr (usize_of_i32 plaintext_len)
               else Ret []) (\<lambda>plaintext_bytes.
        case UnboundKey_new api key_bytes of
          Inl e \<Rightarrow> fail (''rlsm_aes_gcm_128_seal: UnboundKey::new failed: '' @ e)
        | Inr less_safe \<Rightarrow>
            case Nonce_try_assume_unique api nonce_bytes of
              Inl e \<Rightarrow> fail (''rlsm_aes_gcm_128_seal: bad nonce: '' @ e)
            | Inr nonce \<Rightarrow>
                case seal_in_place_append_tag api less_safe nonce aad_bytes plaintext_bytes of
                  Inl e \<Rightarrow> fail (''rlsm_aes_gcm_128_seal: seal failed: '' @ e)
                | Inr buf \<Rightarrow>
                    obind (copy_nonoverlapping buf out_ptr) (\<lambda>out_ptr.
                    Ret ((0, out_ptr, Ptr (i32_of_usize (length buf))), s)))))))"

definition rlsm_aes_gcm_128_open ::
  "('k, 'n) aead_api \<Rightarrow> bytes ptr \<Rightarrow> i32 \<Rightarrow> bytes ptr \<Rightarrow> i32 \<Rightarrow> bytes ptr \<Rightarrow> i32 \<Rightarrow> bytes ptr \<Rightarrow> i32 \<Rightarrow>
   bytes ptr \<Rightarrow> i32 ptr \<Rightarrow> 'z error_state_scheme \<Rightarrow>
   ((i32 \<times> bytes ptr \<times> i32 ptr) \<times> 'z error_state_scheme) outcome" where
  "rlsm_aes_gcm_128_open api key_ptr key_len nonce_ptr nonce_len aad_ptr aad_len ciphertext_ptr ciphertext_len
     out_ptr out_len_ptr s =
     (let s = clear_last_error s; fail = (\<lambda>msg. rlsm_err msg (-1, out_ptr, out_len_ptr) s) in
      if key_len \<noteq> 16 then fail ''rlsm_aes_gcm_128_open: key_len must be 16''
      else if is_null key_ptr then fail ''rlsm_aes_gcm_128_open: null key pointer''
      else if nonce_len \<noteq> 12 then fail ''rlsm_aes_gcm_128_open: nonce_len must be 12''
      else if is_null nonce_ptr then fail ''rlsm_aes_gcm_128_open: null nonce pointer''
      else if sint aad_len < 0 then fail ''rlsm_aes_gcm_128_open: negative aad_len''
      else if sint aad_len > 0 \<and> is_null aad_ptr then
        fail ''rlsm_aes_gcm_128_open: null aad pointer with non-zero aad_len''
      else if sint ciphertext_len < 16 then
        fail ''rlsm_aes_gcm_128_open: ciphertext_len must be >= 16 (tag size)''
      else if is_null ciphertext_ptr then fail ''rlsm_aes_gcm_128_open: null ciphertext pointer''
      else if is_null out_ptr then fail ''rlsm_aes_gcm_128_open: null out pointer''
      else if is_null out_len_ptr then fail ''rlsm_aes_gcm_128_open: null out_len pointer''
      else
        obind (from_raw_parts key_ptr 16) (\<lambda>key_bytes.
        obind (from_raw_parts nonce_ptr 12) (\<lambda>nonce_bytes.
        obind (if sint aad_len > 0 then from_raw_parts aad_ptr (usize_of_i32 aad_len) else Ret []) (\<lambda>aad_bytes.
        obind (from_raw_parts ciphertext_ptr (usize_of_i32 ciphertext_len)) (\<lambda>ciphertext_bytes.
        case UnboundKey_new api key_bytes of
          Inl e \<Rightarrow> fail (''rlsm_aes_gcm_128_open: UnboundKey::new failed: '' @ e)
        | Inr less_safe \<Rightarrow>
            case Nonce_try_assume_unique api nonce_bytes of
              Inl e \<Rightarrow> fail (''rlsm_aes_gcm_128_open: bad nonce: '' @ e)
            | Inr nonce \<Rightarrow>
                case open_in_place api less_safe nonce aad_bytes ciphertext_bytes of
                  Inl e \<Rightarrow> fail (''rlsm_aes_gcm_128_open: open failed: '' @ e)
                | Inr plaintext \<Rightarrow>
                    obind (copy_nonoverlapping plaintext out_ptr) (\<lambda>out_ptr.
                    Ret ((0, out_ptr, Ptr (i32_of_usize (length plaintext))), s)))))))"

definition rlsm_hmac_sha256 ::
  "('k, 'n) aead_api \<Rightarrow> bytes ptr \<Rightarrow> i32 \<Rightarrow> bytes ptr \<Rightarrow> i32 \<Rightarrow> bytes ptr \<Rightarrow> 'z error_state_scheme \<Rightarrow>
   ((i32 \<times> bytes ptr) \<times> 'z error_state_scheme) outcome" where
  "rlsm_hmac_sha256 api key_ptr key_len msg_ptr msg_len out_ptr s =
     (let s = clear_last_error s in
      if sint key_len < 0 then rlsm_err ''rlsm_hmac_sha256: negative key_len'' (-1, out_ptr) s
      else if sint key_len > 0 \<and> is_null key_ptr then
        rlsm_err ''rlsm_hmac_sha256: null key pointer with non-zero key_len'' (-1, out_ptr) s
      else if sint msg_len < 0 then rlsm_err ''rlsm_hmac_sha256: negative msg_len'' (-1, out_ptr) s
      else if sint msg_len > 0 \<and> is_null msg_ptr then
        rlsm_err ''rlsm_hmac_sha256: null msg pointer with non-zero msg_len'' (-1, out_ptr) s
      else if is_null out_ptr then rlsm_err ''rlsm_hmac_sha256: null out pointer'' (-1, out_ptr) s
      else
        obind (if sint key_len > 0 then from_raw_parts key_ptr (usize_of_i32 key_len) else Ret []) (\<lambda>key_bytes.
        obind (if sint msg_len > 0 then from_raw_parts msg_ptr (usize_of_i32 msg_len) else Ret []) (\<lambda>msg_bytes.
        let tag_bytes = hmac_sha256_sign api key_bytes msg_bytes in
        if length tag_bytes < 32 then Undef
        else obind (copy_nonoverlapping (take 32 tag_bytes) out_ptr) (\<lambda>out_ptr. Ret ((0, out_ptr), s)))))"

section \<open>What the code relies on\<close>

text \<open>HKDF-Expand yields as many bytes as asked for, up to 255 hash lengths.\<close>

definition expands :: "'x hkdf_api \<Rightarrow> bool" where
  "expands hkdf \<longleftrightarrow> (\<forall>x info n. n \<le> 255 * 32 \<longrightarrow>
     (\<exists>okm. expand_slice hkdf x info n = Some okm \<and> length okm = n))"

text \<open>Sealing appends a 16-byte tag, and opening the result restores the plaintext.\<close>

definition aead_ok :: "('k, 'n) aead_api \<Rightarrow> bool" where
  "aead_ok api \<longleftrightarrow> (\<forall>k n aad p c. seal_in_place_append_tag api k n aad p = Inr c \<longrightarrow>
     length c = length p + 16 \<and> open_in_place api k n aad c = Inr p)"

text \<open>The bytes of an argument that may be null when its length is 0.\<close>

fun optional_bytes :: "bytes ptr \<Rightarrow> i32 \<Rightarrow> bytes" where
  "optional_bytes Null n = []"
| "optional_bytes (Ptr mem) n = take (nat (sint n)) mem"

definition optional_ok :: "bytes ptr \<Rightarrow> i32 \<Rightarrow> bool" where
  "optional_ok p n \<longleftrightarrow> valid_buf p n \<and> 0 \<le> sint n \<and> (0 < sint n \<longrightarrow> \<not> is_null p)"

section \<open>Lemmas\<close>

lemma expand_with_label_Ret:
  assumes "expands hkdf" "n \<le> 255 * 32"
  obtains okm where "expand_with_label hkdf x l n = Ret okm" "length okm = n"
proof -
  obtain okm where "expand_slice hkdf x (label_info l n) n = Some okm" "length okm = n"
    using assms unfolding expands_def by blast
  then show ?thesis using that by (simp add: expand_with_label_def)
qed

lemma derive_raw_keys_Ret:
  assumes "expands hkdf" "suite_tls13 suite" "version = 1 \<or> version = 2"
  obtains key iv hp where "derive_raw_keys hkdf suite version dcid is_client = Ret (Inr (key, iv, hp))"
    "length key = 16" "length iv = 12" "length hp = 16"
proof -
  let ?l = "if is_client then ascii ''client in'' else ascii ''server in''"
  let ?x = "extract_from_secret hkdf (if version = 1 then QUIC_V1_SALT else QUIC_V2_SALT) dcid"
  let ?ls = "if version = 2 then (ascii ''quicv2 key'', ascii ''quicv2 iv'', ascii ''quicv2 hp'')
      else (ascii ''quic key'', ascii ''quic iv'', ascii ''quic hp'')"
  obtain secret where s: "expand_with_label hkdf ?x ?l 32 = Ret secret" "length secret = 32"
    by (rule expand_with_label_Ret [OF assms(1), of 32]) auto
  obtain kl il hl where ls: "?ls = (kl, il, hl)" by (metis prod_cases3)
  obtain key where k: "expand_with_label hkdf (expander_for_okm hkdf secret) kl 16 = Ret key" "length key = 16"
    by (rule expand_with_label_Ret [OF assms(1), of 16]) auto
  obtain iv where i: "expand_with_label hkdf (expander_for_okm hkdf secret) il 12 = Ret iv" "length iv = 12"
    by (rule expand_with_label_Ret [OF assms(1), of 12]) auto
  obtain hp where h: "expand_with_label hkdf (expander_for_okm hkdf secret) hl 16 = Ret hp" "length hp = 16"
    by (rule expand_with_label_Ret [OF assms(1), of 16]) auto
  have "derive_raw_keys hkdf suite version dcid is_client = Ret (Inr (key, iv, hp))"
    unfolding derive_raw_keys_def Let_def ls initial_suite_def
    using assms(2,3) s(1) k(1) i(1) h(1) by auto
  then show ?thesis using that k i h by blast
qed

lemma derive_raw_keys_unsupported:
  "version \<noteq> 1 \<Longrightarrow> version \<noteq> 2 \<Longrightarrow> derive_raw_keys hkdf suite version dcid is_client =
     Ret (Inl (''unsupported QUIC version: '' @ dec_i32 version))"
  by (simp add: derive_raw_keys_def)

lemma initial_keys_raw_valid:
  assumes "valid_buf (Ptr dm) dn" "0 \<le> sint dn"
    and "derive_raw_keys hkdf suite version (take (nat (sint dn)) dm) (c \<noteq> 0) = Ret res"
    and "16 \<le> sint kc" "12 \<le> sint vc" "16 \<le> sint hc"
  shows "rlsm_initial_keys_raw hkdf suite version (Ptr dm) dn c
      \<lparr>out_key = Ptr km, out_key_len = Ptr kc, out_iv = Ptr vm, out_iv_len = Ptr vc, out_hp = Ptr hm, out_hp_len = Ptr hc\<rparr> s =
    (case res of
       Inl msg \<Rightarrow> Ret ((-1, \<lparr>out_key = Ptr km, out_key_len = Ptr kc, out_iv = Ptr vm, out_iv_len = Ptr vc,
                           out_hp = Ptr hm, out_hp_len = Ptr hc\<rparr>), set_last_error msg (clear_last_error s))
     | Inr (key, iv, hp) \<Rightarrow>
         obind (copy_nonoverlapping key (Ptr km)) (\<lambda>k. obind (copy_nonoverlapping iv (Ptr vm)) (\<lambda>v.
         obind (copy_nonoverlapping hp (Ptr hm)) (\<lambda>p.
         Ret ((0, \<lparr>out_key = k, out_key_len = Ptr (i32_of_usize (length key)), out_iv = v,
                   out_iv_len = Ptr (i32_of_usize (length iv)), out_hp = p,
                   out_hp_len = Ptr (i32_of_usize (length hp))\<rparr>), clear_last_error s)))))"
  using assms
  by (simp add: rlsm_initial_keys_raw_def Let_def deref_Ptr valid_buf_def usize_of_i32_nonneg from_raw_parts_Ptr)

lemma initial_keys_raw_small:
  assumes "\<not> (16 \<le> sint kc \<and> 12 \<le> sint vc \<and> 16 \<le> sint hc)" "0 \<le> sint dn"
  shows "\<exists>msg. rlsm_initial_keys_raw hkdf suite version (Ptr dm) dn c
      \<lparr>out_key = Ptr km, out_key_len = Ptr kc, out_iv = Ptr vm, out_iv_len = Ptr vc, out_hp = Ptr hm, out_hp_len = Ptr hc\<rparr> s =
    Ret ((-1, \<lparr>out_key = Ptr km, out_key_len = Ptr kc, out_iv = Ptr vm, out_iv_len = Ptr vc, out_hp = Ptr hm, out_hp_len = Ptr hc\<rparr>),
      set_last_error msg (clear_last_error s))"
proof -
  consider "sint kc < 16" | "16 \<le> sint kc" "sint vc < 12" | "16 \<le> sint kc" "12 \<le> sint vc" "sint hc < 16"
    using assms by linarith
  then show ?thesis
    by cases (use assms(2) in \<open>auto simp: rlsm_initial_keys_raw_def Let_def deref_Ptr rlsm_err_def\<close>)
qed

text \<open>The slices given to HKDF-Expand determine the label and the output length.\<close>

lemma concat_label_info:
  "concat (label_info l n) =
     to_be_bytes (word_of_nat n :: u16) @ [word_of_nat (6 + length l)] @ ascii ''tls13 '' @ l @ [0]"
  by (simp add: label_info_def)

lemma label_info_inj:
  assumes "concat (label_info l n) = concat (label_info l' n')" "n < 65536" "n' < 65536"
  shows "l = l' \<and> n = n'"
proof -
  have l: "length (to_be_bytes (w :: u16)) = 2" for w by simp
  from assms(1) have "to_be_bytes (word_of_nat n :: u16) = to_be_bytes (word_of_nat n' :: u16)"
    and rest: "[word_of_nat (6 + length l)] @ ascii ''tls13 '' @ l @ [0 :: byte] =
      [word_of_nat (6 + length l')] @ ascii ''tls13 '' @ l' @ [0]"
    unfolding concat_label_info by (auto simp: append_eq_append_conv l)
  then have "nat_of_be (to_be_bytes (word_of_nat n :: u16)) = nat_of_be (to_be_bytes (word_of_nat n' :: u16))"
    by simp
  then have "unat (word_of_nat n :: u16) = unat (word_of_nat n' :: u16)"
    by (simp only: nat_of_be_to_be_bytes [of 2, where ?'a = 16, simplified])
  then have "n = n'" using assms(2,3) by (simp add: unat_of_nat)
  moreover have "l = l'" using rest by simp
  ultimately show ?thesis by simp
qed

lemma optional_bytes_read:
  "optional_ok p n \<Longrightarrow>
   (if 0 < sint n then from_raw_parts p (usize_of_i32 n) else Ret []) = Ret (optional_bytes p n)"
  by (cases p) (auto simp: optional_ok_def valid_buf_def usize_of_i32_nonneg from_raw_parts_Ptr)

lemma length_optional_bytes: "optional_ok p n \<Longrightarrow> length (optional_bytes p n) = nat (sint n)"
  by (cases p) (auto simp: optional_ok_def valid_buf_def)

lemma gcm_seal_valid:
  assumes "16 \<le> length km" "12 \<le> length nm" "optional_ok ap al" "optional_ok pp pl"
    and "UnboundKey_new api (take 16 km) = Inr k" "Nonce_try_assume_unique api (take 12 nm) = Inr n"
    and "seal_in_place_append_tag api k n (optional_bytes ap al) (optional_bytes pp pl) = Inr c"
    and "length c \<le> length om"
  shows "rlsm_aes_gcm_128_seal api (Ptr km) 16 (Ptr nm) 12 ap al pp pl (Ptr om) (Ptr l) s =
    Ret ((0, Ptr (c @ drop (length c) om), Ptr (i32_of_usize (length c))), clear_last_error s)"
  using assms optional_bytes_read [OF assms(3)] optional_bytes_read [OF assms(4)]
  by (auto simp: rlsm_aes_gcm_128_seal_def Let_def from_raw_parts_Ptr copy_nonoverlapping_Ptr optional_ok_def)

lemma gcm_open_valid:
  assumes "16 \<le> length km" "12 \<le> length nm" "optional_ok ap al" "valid_buf (Ptr cm) cl" "16 \<le> sint cl"
    and "UnboundKey_new api (take 16 km) = Inr k" "Nonce_try_assume_unique api (take 12 nm) = Inr n"
    and "open_in_place api k n (optional_bytes ap al) (take (nat (sint cl)) cm) = Inr p"
    and "length p \<le> length om"
  shows "rlsm_aes_gcm_128_open api (Ptr km) 16 (Ptr nm) 12 ap al (Ptr cm) cl (Ptr om) (Ptr l) s =
    Ret ((0, Ptr (p @ drop (length p) om), Ptr (i32_of_usize (length p))), clear_last_error s)"
  using assms optional_bytes_read [OF assms(3)]
  by (auto simp: rlsm_aes_gcm_128_open_def Let_def from_raw_parts_Ptr copy_nonoverlapping_Ptr optional_ok_def
      valid_buf_def usize_of_i32_nonneg)

section \<open>Properties\<close>

text \<open>
  C17. \<open>rlsm_initial_keys_raw\<close> writes a 16-byte key, a 12-byte IV and a 16-byte header key
  and sets the three lengths, exactly when the version is 1 or 2 and all three capacities
  suffice; otherwise it returns -1 with a message and all six outputs as they were. It
  never writes past a buffer of the stated capacity.
\<close>

theorem initial_keys_raw_outputs:
  fixes s :: "'z error_state_scheme" and hkdf :: "'x hkdf_api"
  assumes api: "expands hkdf" "suite_tls13 suite"
    and dcid: "valid_buf (Ptr dm) dn" "0 \<le> sint dn"
    and bufs: "valid_buf (Ptr km) kc" "valid_buf (Ptr vm) vc" "valid_buf (Ptr hm) hc"
  defines "out \<equiv> \<lparr>out_key = Ptr km, out_key_len = Ptr kc, out_iv = Ptr vm, out_iv_len = Ptr vc,
                   out_hp = Ptr hm, out_hp_len = Ptr hc\<rparr>"
  shows "if (version = 1 \<or> version = 2) \<and> 16 \<le> sint kc \<and> 12 \<le> sint vc \<and> 16 \<le> sint hc
    then \<exists>key iv hp. derive_raw_keys hkdf suite version (take (nat (sint dn)) dm) (c \<noteq> 0) = Ret (Inr (key, iv, hp))
      \<and> length key = 16 \<and> length iv = 12 \<and> length hp = 16
      \<and> rlsm_initial_keys_raw hkdf suite version (Ptr dm) dn c out s =
          Ret ((0, \<lparr>out_key = Ptr (key @ drop 16 km), out_key_len = Ptr 16,
                    out_iv = Ptr (iv @ drop 12 vm), out_iv_len = Ptr 12,
                    out_hp = Ptr (hp @ drop 16 hm), out_hp_len = Ptr 16\<rparr>), clear_last_error s)
    else \<exists>msg. rlsm_initial_keys_raw hkdf suite version (Ptr dm) dn c out s =
          Ret ((-1, out), set_last_error msg (clear_last_error s))"
proof (cases "16 \<le> sint kc \<and> 12 \<le> sint vc \<and> 16 \<le> sint hc")
  case False
  then have no: "\<not> ((version = 1 \<or> version = 2) \<and> 16 \<le> sint kc \<and> 12 \<le> sint vc \<and> 16 \<le> sint hc)" by blast
  from initial_keys_raw_small [OF False dcid(2)] show ?thesis unfolding out_def if_not_P [OF no] .
next
  case True
  then have l: "16 \<le> length km" "12 \<le> length vm" "16 \<le> length hm"
    using bufs by (auto simp: valid_buf_def)
  show ?thesis
  proof (cases "version = 1 \<or> version = 2")
    case v: True
    obtain key iv hp where k: "derive_raw_keys hkdf suite version (take (nat (sint dn)) dm) (c \<noteq> 0) = Ret (Inr (key, iv, hp))"
      "length key = 16" "length iv = 12" "length hp = 16"
      by (rule derive_raw_keys_Ret [OF api v])
    show ?thesis
      using initial_keys_raw_valid [OF dcid k(1), of kc vc hc km vm hm s] True v k l
      by (simp add: out_def copy_nonoverlapping_Ptr i32_of_usize_def)
  next
    case v: False
    then have "derive_raw_keys hkdf suite version (take (nat (sint dn)) dm) (c \<noteq> 0) =
        Ret (Inl (''unsupported QUIC version: '' @ dec_i32 version))"
      by (intro derive_raw_keys_unsupported) auto
    from initial_keys_raw_valid [OF dcid this, of kc vc hc km vm hm s] True v show ?thesis
      by (auto simp: out_def)
  qed
qed

text \<open>
  The HKDF labels are RFC 8446 labels and separate domains: the info of the client
  Initial secret is the byte string of RFC 9001 (A.1), and two calls give HKDF the same
  info only for the same label and output length.
\<close>

theorem hkdf_label_info:
  "concat (label_info (ascii ''client in'') 32) =
     [0x00, 0x20, 0x0f, 0x74, 0x6c, 0x73, 0x31, 0x33, 0x20, 0x63, 0x6c, 0x69, 0x65, 0x6e, 0x74, 0x20, 0x69, 0x6e, 0x00]
   \<and> (concat (label_info l n) = concat (label_info l' n') \<and> n < 65536 \<and> n' < 65536 \<longrightarrow> l = l' \<and> n = n')"
proof
  show "concat (label_info (ascii ''client in'') 32) =
     [0x00, 0x20, 0x0f, 0x74, 0x6c, 0x73, 0x31, 0x33, 0x20, 0x63, 0x6c, 0x69, 0x65, 0x6e, 0x74, 0x20, 0x69, 0x6e, 0x00]"
    by code_simp
qed (use label_info_inj in blast)

theorem hkdf_label_info_witness:
  "concat (label_info (ascii ''quic hp'') 16) \<noteq> concat (label_info (ascii ''quic key'') 16)"
  using hkdf_label_info [of "ascii ''quic hp''" 16 "ascii ''quic key''" 16] by (simp add: byte_of_char_def)

text \<open>
  C18. What \<open>rlsm_aes_gcm_128_seal\<close> wrote, \<open>rlsm_aes_gcm_128_open\<close> opens to the original
  plaintext under the same key, nonce and additional data: the sealed length is the
  plaintext length plus 16, and opening reports the plaintext length.
\<close>

theorem gcm_seal_then_open:
  fixes s :: "'z error_state_scheme" and s' :: "'y error_state_scheme"
  assumes api: "aead_ok api" "UnboundKey_new api (take 16 km) = Inr k" "Nonce_try_assume_unique api (take 12 nm) = Inr n"
      "seal_in_place_append_tag api k n (optional_bytes ap al) (optional_bytes pp pl) = Inr c"
    and bufs: "16 \<le> length km" "12 \<le> length nm" "optional_ok ap al" "optional_ok pp pl"
    and room: "nat (sint pl) + 16 \<le> length om" "nat (sint pl) \<le> length om'" "sint pl + 16 < 2 ^ 31"
  shows "\<exists>cm cl. rlsm_aes_gcm_128_seal api (Ptr km) 16 (Ptr nm) 12 ap al pp pl (Ptr om) (Ptr l) s =
          Ret ((0, Ptr cm, Ptr cl), clear_last_error s)
      \<and> sint cl = sint pl + 16
      \<and> rlsm_aes_gcm_128_open api (Ptr km) 16 (Ptr nm) 12 ap al (Ptr cm) cl (Ptr om') (Ptr l') s' =
          Ret ((0, Ptr (optional_bytes pp pl @ drop (nat (sint pl)) om'), Ptr pl), clear_last_error s')"
proof -
  let ?cm = "c @ drop (length c) om" and ?cl = "i32_of_usize (length c)"
  have p: "length (optional_bytes pp pl) = nat (sint pl)" "0 \<le> sint pl"
    using bufs(4) by (auto simp: length_optional_bytes optional_ok_def)
  have c: "length c = nat (sint pl) + 16" "open_in_place api k n (optional_bytes ap al) c = Inr (optional_bytes pp pl)"
    using api(1,4) p unfolding aead_ok_def by metis+
  have cl: "sint ?cl = sint pl + 16" using c(1) p(2) room(3) by (simp add: sint_i32_of_usize)
  have "rlsm_aes_gcm_128_seal api (Ptr km) 16 (Ptr nm) 12 ap al pp pl (Ptr om) (Ptr l) s =
      Ret ((0, Ptr ?cm, Ptr ?cl), clear_last_error s)"
    using c room by (intro gcm_seal_valid [OF bufs api(2-4)]) simp
  moreover have "rlsm_aes_gcm_128_open api (Ptr km) 16 (Ptr nm) 12 ap al (Ptr ?cm) ?cl (Ptr om') (Ptr l') s' =
      Ret ((0, Ptr (optional_bytes pp pl @ drop (length (optional_bytes pp pl)) om'),
            Ptr (i32_of_usize (length (optional_bytes pp pl)))), clear_last_error s')"
  proof (rule gcm_open_valid [OF bufs(1-3) _ _ api(2,3)])
    have "nat (sint ?cl) = length c" using cl c(1) p(2) by simp
    then show "valid_buf (Ptr ?cm) ?cl" "open_in_place api k n (optional_bytes ap al) (take (nat (sint ?cl)) ?cm) =
        Inr (optional_bytes pp pl)"
      using c(2) by (simp_all add: valid_buf_def)
  qed (use cl p room in simp_all)
  ultimately show ?thesis
    using cl p(1) p(2) by (simp add: i32_of_usize_def)
qed

text \<open>A concrete HKDF and AEAD that meet the assumptions.\<close>

definition sample_hkdf :: "bytes hkdf_api" where
  "sample_hkdf = \<lparr>extract_from_secret = (\<lambda>salt secret. salt @ secret), expander_for_okm = (\<lambda>okm. okm),
     expand_slice = (\<lambda>x info n. Some (replicate n (word_of_nat (length (concat info)))))\<rparr>"

definition sample_suite :: suite_api where
  "sample_suite = \<lparr>suite_tls13 = True, suite_quic = True,
     Keys_initial = (\<lambda>v dcid side. \<lparr>keys_local = sample_keys, keys_remote = sample_keys\<rparr>)\<rparr>"

definition sample_aead :: "(bytes, bytes) aead_api" where
  "sample_aead = \<lparr>UnboundKey_new = Inr, Nonce_try_assume_unique = Inr,
     seal_in_place_append_tag = (\<lambda>k n aad p. Inr (map (\<lambda>b. b XOR hd (k @ [0])) p @ replicate 16 7)),
     open_in_place = (\<lambda>k n aad c. Inr (map (\<lambda>b. b XOR hd (k @ [0])) (take (length c - 16) c))),
     hmac_sha256_sign = (\<lambda>k m. replicate 32 0)\<rparr>"

lemma sample_expands: "expands sample_hkdf"
  by (simp add: expands_def sample_hkdf_def)

lemma sample_aead_ok: "aead_ok sample_aead"
  by (auto simp: aead_ok_def sample_aead_def comp_def)

theorem initial_keys_raw_outputs_witness:
  "(\<exists>key iv hp. rlsm_initial_keys_raw sample_hkdf sample_suite 1 (Ptr [1, 2, 3]) 3 1
      \<lparr>out_key = Ptr (replicate 16 0), out_key_len = Ptr 16, out_iv = Ptr (replicate 20 0), out_iv_len = Ptr 20,
       out_hp = Ptr (replicate 16 0), out_hp_len = Ptr 16\<rparr> \<lparr>LAST_ERROR = None\<rparr> =
      Ret ((0, \<lparr>out_key = Ptr key, out_key_len = Ptr 16, out_iv = Ptr iv, out_iv_len = Ptr 12,
                out_hp = Ptr hp, out_hp_len = Ptr 16\<rparr>), \<lparr>LAST_ERROR = None\<rparr>))
   \<and> (\<exists>msg. rlsm_initial_keys_raw sample_hkdf sample_suite 1 (Ptr [1, 2, 3]) 3 1
      \<lparr>out_key = Ptr (replicate 16 0), out_key_len = Ptr 16, out_iv = Ptr (replicate 4 0), out_iv_len = Ptr 4,
       out_hp = Ptr (replicate 16 0), out_hp_len = Ptr 16\<rparr> \<lparr>LAST_ERROR = None\<rparr> =
      Ret ((-1, \<lparr>out_key = Ptr (replicate 16 0), out_key_len = Ptr 16, out_iv = Ptr (replicate 4 0), out_iv_len = Ptr 4,
       out_hp = Ptr (replicate 16 0), out_hp_len = Ptr 16\<rparr>), \<lparr>LAST_ERROR = Some msg\<rparr>))"
proof -
  have suite: "suite_tls13 sample_suite" by (simp add: sample_suite_def)
  show ?thesis
    using initial_keys_raw_outputs [OF sample_expands suite, of "[1, 2, 3]" 3 "replicate 16 0" 16 "replicate 20 0" 20
        "replicate 16 0" 16 1 1 "\<lparr>LAST_ERROR = None\<rparr>"]
      initial_keys_raw_outputs [OF sample_expands suite, of "[1, 2, 3]" 3 "replicate 16 0" 16 "replicate 4 0" 4
        "replicate 16 0" 16 1 1 "\<lparr>LAST_ERROR = None\<rparr>"]
    by (auto simp: valid_buf_def clear_last_error_def set_last_error_def)
qed

theorem gcm_seal_then_open_witness:
  "\<exists>cm cl. rlsm_aes_gcm_128_seal sample_aead (Ptr (replicate 16 3)) 16 (Ptr (replicate 12 0)) 12 Null 0 (Ptr [5, 6]) 2
        (Ptr (replicate 18 0)) (Ptr 0) \<lparr>LAST_ERROR = None\<rparr> = Ret ((0, Ptr cm, Ptr cl), \<lparr>LAST_ERROR = None\<rparr>)
    \<and> rlsm_aes_gcm_128_open sample_aead (Ptr (replicate 16 3)) 16 (Ptr (replicate 12 0)) 12 Null 0 (Ptr cm) cl
        (Ptr [0, 0, 0]) (Ptr 0) \<lparr>LAST_ERROR = None\<rparr> = Ret ((0, Ptr [5, 6, 0], Ptr 2), \<lparr>LAST_ERROR = None\<rparr>)"
proof -
  have k: "UnboundKey_new sample_aead (take 16 (replicate 16 3)) = Inr (replicate 16 3)"
    "Nonce_try_assume_unique sample_aead (take 12 (replicate 12 0)) = Inr (replicate 12 0)"
    by (simp_all add: sample_aead_def)
  obtain c where c: "seal_in_place_append_tag sample_aead (replicate 16 3) (replicate 12 0) (optional_bytes Null 0)
      (optional_bytes (Ptr [5, 6]) 2) = Inr c" by (simp add: sample_aead_def)
  show ?thesis
    using gcm_seal_then_open [OF sample_aead_ok k c, of "replicate 18 0" "[0, 0, 0]" 0 "\<lparr>LAST_ERROR = None\<rparr>" 0
        "\<lparr>LAST_ERROR = None\<rparr>"]
    by (auto simp: optional_ok_def valid_buf_def clear_last_error_def)
qed

end
