(* ===== verification/Quic_Conn.thy ===== *)
theory Quic_Conn
  imports Quic_Keys Tls_Config
begin

text \<open>
  QUIC handshake objects (\<open>crates/librustls-mojo/src/quic_hs.rs\<close>, sections 1 and 2):
  client and server configurations, connection entries with their buffered key change and
  the ClientHello-prefix accumulator, their tables, and the operations that create and
  free them. rustls, rustls-pemfile and webpki-roots are arguments.
\<close>

section \<open>Connections and their tables\<close>

datatype 't ticketer = NeverProducesTickets | AwsTicketer 't

record ('cert, 'key, 't) quic_server_config = "('cert, 'key) server_config" +
  qs_ticketer :: "'t ticketer"
  qs_max_early_data_size :: u32

datatype ('cc, 'sc) QuicConn = QuicConn_Client 'cc | QuicConn_Server 'sc

datatype 'sec KeyChange = KeyChange_Handshake keys | KeyChange_OneRtt keys 'sec

record ('cc, 'sc, 'sec) QuicConnEntry =
  qc_conn :: "('cc, 'sc) QuicConn"
  qc_pending :: "(byte \<times> keys) option"
  qc_next_secrets :: "'sec option"
  qc_alert_cache :: "byte option"
  qc_first_ch_prefix :: bytes
  qc_first_ch_prefix_len :: byte
  qc_client_random_captured :: bool
  qc_client_random :: bytes

record ('r, 'cert, 'key, 't, 'cc, 'sc, 'sec) hs_shim = keys_shim +
  QUIC_CLIENT_CFG_TABLE :: "'r client_config handle_table"
  QUIC_SERVER_CFG_TABLE :: "('cert, 'key, 't) quic_server_config handle_table"
  QUIC_CONN_TABLE :: "('cc, 'sc, 'sec) QuicConnEntry handle_table"

type_synonym ('r, 'cert, 'key, 't, 'cc, 'sc, 'sec, 'a) hs_call =
  "('r, 'cert, 'key, 't, 'cc, 'sc, 'sec) hs_shim \<Rightarrow>
   ('a \<times> ('r, 'cert, 'key, 't, 'cc, 'sc, 'sec) hs_shim) outcome"

text \<open>The third-party calls of the configuration and connection constructors.\<close>

record ('r, 'cert, 'key, 't, 'name, 'cc, 'sc) quic_new_api =
  q_TLS_SERVER_ROOTS :: 'r
  q_roots_empty :: 'r
  q_roots_add :: "'r \<Rightarrow> 'cert \<Rightarrow> string + 'r"
  q_client_builder_tls13 :: "'r cert_verifier \<Rightarrow> 'r client_config"
  q_pemfile_certs :: "bytes \<Rightarrow> string + 'cert list"
  q_pemfile_private_key :: "bytes \<Rightarrow> string + 'key option"
  q_server_builder_tls13 :: "'cert list \<Rightarrow> 'key \<Rightarrow> string + ('cert, 'key, 't) quic_server_config"
  q_Ticketer_new :: "string + 't"
  q_server_name_try_from :: "string \<Rightarrow> string + 'name"
  q_client_connection_new :: "'r client_config \<Rightarrow> QuicVersion \<Rightarrow> 'name \<Rightarrow> bytes \<Rightarrow> string + 'cc"
  q_server_connection_new :: "('cert, 'key, 't) quic_server_config \<Rightarrow> QuicVersion \<Rightarrow> bytes \<Rightarrow> string + 'sc"

definition client_cfg_insert ::
  "'r client_config \<Rightarrow> ('r, 'cert, 'key, 't, 'cc, 'sc, 'sec) hs_shim \<Rightarrow>
   i32 option \<times> ('r, 'cert, 'key, 't, 'cc, 'sc, 'sec) hs_shim" where
  "client_cfg_insert cfg s =
     (case HandleTable_insert cfg (NEXT_HANDLE s, QUIC_CLIENT_CFG_TABLE s) of
        (h, (c, t)) \<Rightarrow> (h, s\<lparr>NEXT_HANDLE := c, QUIC_CLIENT_CFG_TABLE := t\<rparr>))"

definition server_cfg_insert ::
  "('cert, 'key, 't) quic_server_config \<Rightarrow> ('r, 'cert, 'key, 't, 'cc, 'sc, 'sec) hs_shim \<Rightarrow>
   i32 option \<times> ('r, 'cert, 'key, 't, 'cc, 'sc, 'sec) hs_shim" where
  "server_cfg_insert cfg s =
     (case HandleTable_insert cfg (NEXT_HANDLE s, QUIC_SERVER_CFG_TABLE s) of
        (h, (c, t)) \<Rightarrow> (h, s\<lparr>NEXT_HANDLE := c, QUIC_SERVER_CFG_TABLE := t\<rparr>))"

definition quic_conn_insert ::
  "('cc, 'sc, 'sec) QuicConnEntry \<Rightarrow> ('r, 'cert, 'key, 't, 'cc, 'sc, 'sec) hs_shim \<Rightarrow>
   i32 option \<times> ('r, 'cert, 'key, 't, 'cc, 'sc, 'sec) hs_shim" where
  "quic_conn_insert entry s =
     (case HandleTable_insert entry (NEXT_HANDLE s, QUIC_CONN_TABLE s) of
        (h, (c, t)) \<Rightarrow> (h, s\<lparr>NEXT_HANDLE := c, QUIC_CONN_TABLE := t\<rparr>))"

section \<open>Configurations\<close>

text \<open>
  The message names the set of accepted values with the UTF-8 bytes of the element sign; its
  braces are doubled, since \<open>rlsm_err!\<close> stores the literal without formatting it.
\<close>

definition early_data_msg :: string where
  "early_data_msg =
     ''rlsm_quic_server_config_new: rustls QUIC requires max_early_data ''
     @ [CHR 0xE2, CHR 0x88, CHR 0x88] @ '' {{0, 0xFFFFFFFF}}''"

definition rlsm_quic_server_config_new ::
  "('r, 'cert, 'key, 't, 'name, 'cc, 'sc) quic_new_api \<Rightarrow> bytes ptr \<Rightarrow> i32 \<Rightarrow> bytes ptr \<Rightarrow> i32 \<Rightarrow> bytes ptr \<Rightarrow> i32 \<Rightarrow>
   u32 \<Rightarrow> i32 ptr \<Rightarrow> ('r, 'cert, 'key, 't, 'cc, 'sc, 'sec, i32 \<times> i32 ptr) hs_call" where
  "rlsm_quic_server_config_new api cert_pem cert_len key_pem key_len alpn_ptr alpn_len max_early_data out_handle s =
     (let s = clear_last_error s; fail = (\<lambda>msg. rlsm_err msg (-1, out_handle) s) in
      if is_null cert_pem then fail ''rlsm_quic_server_config_new: null cert_pem''
      else if is_null key_pem then fail ''rlsm_quic_server_config_new: null key_pem''
      else if is_null alpn_ptr then fail ''rlsm_quic_server_config_new: null alpn_ptr''
      else if is_null out_handle then fail ''rlsm_quic_server_config_new: null out_handle''
      else if sint cert_len < 0 then fail ''rlsm_quic_server_config_new: negative cert_len''
      else if sint key_len < 0 then fail ''rlsm_quic_server_config_new: negative key_len''
      else if sint alpn_len < 0 then fail ''rlsm_quic_server_config_new: negative alpn_len''
      else if max_early_data \<noteq> 0 \<and> max_early_data \<noteq> 0xFFFFFFFF then fail early_data_msg
      else
        obind (from_raw_parts cert_pem (usize_of_i32 cert_len)) (\<lambda>cert_bytes.
        obind (from_raw_parts key_pem (usize_of_i32 key_len)) (\<lambda>key_bytes.
        obind (from_raw_parts alpn_ptr (usize_of_i32 alpn_len)) (\<lambda>alpn_bytes.
        case q_pemfile_certs api cert_bytes of
          Inl e \<Rightarrow> fail (''rlsm_quic_server_config_new: cert parse error: '' @ e)
        | Inr certs \<Rightarrow>
            if certs = [] then fail ''rlsm_quic_server_config_new: no certs in cert_pem''
            else case q_pemfile_private_key api key_bytes of
              Inr None \<Rightarrow> fail ''rlsm_quic_server_config_new: no key in key_pem''
            | Inl e \<Rightarrow> fail (''rlsm_quic_server_config_new: key parse error: '' @ e)
            | Inr (Some key) \<Rightarrow>
                case q_server_builder_tls13 api certs key of
                  Inl e \<Rightarrow> fail (''rlsm_quic_server_config_new: config build error: '' @ e)
                | Inr config \<Rightarrow>
                    let config = config\<lparr>sc_key_log := KeyLogFile, sc_alpn_protocols := [alpn_bytes]\<rparr> in
                    case (if max_early_data = 0 then map_sum id AwsTicketer (q_Ticketer_new api)
                          else Inr (qs_ticketer config)) of
                      Inl e \<Rightarrow> fail (''rlsm_quic_server_config_new: ticketer build error: '' @ e)
                    | Inr ticketer \<Rightarrow>
                        let config = config\<lparr>qs_ticketer := ticketer, qs_max_early_data_size := max_early_data\<rparr> in
                        case server_cfg_insert config s of
                          (Some h, s) \<Rightarrow> Ret ((0, Ptr h), s)
                        | (None, s) \<Rightarrow>
                            rlsm_err ''rlsm_quic_server_config_new: handle counter exhausted'' (-1, out_handle) s))))"

definition rlsm_quic_client_config_new ::
  "('r, 'cert, 'key, 't, 'name, 'cc, 'sc) quic_new_api \<Rightarrow> bytes ptr \<Rightarrow> i32 \<Rightarrow> i32 ptr \<Rightarrow>
   ('r, 'cert, 'key, 't, 'cc, 'sc, 'sec, i32 \<times> i32 ptr) hs_call" where
  "rlsm_quic_client_config_new api alpn_ptr alpn_len out_handle s =
     (let s = clear_last_error s; fail = (\<lambda>msg. rlsm_err msg (-1, out_handle) s) in
      if is_null alpn_ptr then fail ''rlsm_quic_client_config_new: null alpn_ptr''
      else if is_null out_handle then fail ''rlsm_quic_client_config_new: null out_handle''
      else if sint alpn_len < 0 then fail ''rlsm_quic_client_config_new: negative alpn_len''
      else
        obind (from_raw_parts alpn_ptr (usize_of_i32 alpn_len)) (\<lambda>alpn_bytes.
        let config = q_client_builder_tls13 api (WebPkiRoots (q_TLS_SERVER_ROOTS api));
            config = config\<lparr>cc_key_log := KeyLogFile, cc_alpn_protocols := [alpn_bytes]\<rparr> in
        case client_cfg_insert config s of
          (Some h, s) \<Rightarrow> Ret ((0, Ptr h), s)
        | (None, s) \<Rightarrow>
            rlsm_err ''rlsm_quic_client_config_new: handle counter exhausted'' (-1, out_handle) s))"

definition rlsm_quic_client_config_new_insecure ::
  "('r, 'cert, 'key, 't, 'name, 'cc, 'sc) quic_new_api \<Rightarrow> bytes ptr \<Rightarrow> i32 \<Rightarrow> i32 ptr \<Rightarrow>
   ('r, 'cert, 'key, 't, 'cc, 'sc, 'sec, i32 \<times> i32 ptr) hs_call" where
  "rlsm_quic_client_config_new_insecure api alpn_ptr alpn_len out_handle s =
     (let s = clear_last_error s; fail = (\<lambda>msg. rlsm_err msg (-1, out_handle) s) in
      if is_null alpn_ptr then fail ''rlsm_quic_client_config_new_insecure: null alpn_ptr''
      else if is_null out_handle then fail ''rlsm_quic_client_config_new_insecure: null out_handle''
      else if sint alpn_len < 0 then fail ''rlsm_quic_client_config_new_insecure: negative alpn_len''
      else
        obind (from_raw_parts alpn_ptr (usize_of_i32 alpn_len)) (\<lambda>alpn_bytes.
        let config = q_client_builder_tls13 api NoCertVerifier;
            config = config\<lparr>cc_key_log := KeyLogFile, cc_alpn_protocols := [alpn_bytes]\<rparr> in
        case client_cfg_insert config s of
          (Some h, s) \<Rightarrow> Ret ((0, Ptr h), s)
        | (None, s) \<Rightarrow>
            rlsm_err ''rlsm_quic_client_config_new_insecure: handle counter exhausted'' (-1, out_handle) s))"

text \<open>The loop that adds the parsed certificates to an empty root store.\<close>

fun add_roots :: "('r \<Rightarrow> 'cert \<Rightarrow> string + 'r) \<Rightarrow> 'cert list \<Rightarrow> 'r \<Rightarrow> string + 'r" where
  "add_roots add [] root_store = Inr root_store"
| "add_roots add (cert # certs) root_store =
     (case add root_store cert of Inl e \<Rightarrow> Inl e | Inr root_store \<Rightarrow> add_roots add certs root_store)"

definition rlsm_quic_client_config_with_ca ::
  "('r, 'cert, 'key, 't, 'name, 'cc, 'sc) quic_new_api \<Rightarrow> bytes ptr \<Rightarrow> i32 \<Rightarrow> bytes ptr \<Rightarrow> i32 \<Rightarrow> i32 ptr \<Rightarrow>
   ('r, 'cert, 'key, 't, 'cc, 'sc, 'sec, i32 \<times> i32 ptr) hs_call" where
  "rlsm_quic_client_config_with_ca api ca_pem ca_len alpn_ptr alpn_len out_handle s =
     (let s = clear_last_error s; fail = (\<lambda>msg. rlsm_err msg (-1, out_handle) s) in
      if is_null ca_pem then fail ''rlsm_quic_client_config_with_ca: null ca_pem''
      else if is_null alpn_ptr then fail ''rlsm_quic_client_config_with_ca: null alpn_ptr''
      else if is_null out_handle then fail ''rlsm_quic_client_config_with_ca: null out_handle''
      else if sint ca_len < 0 then fail ''rlsm_quic_client_config_with_ca: negative ca_len''
      else if sint alpn_len < 0 then fail ''rlsm_quic_client_config_with_ca: negative alpn_len''
      else
        obind (from_raw_parts ca_pem (usize_of_i32 ca_len)) (\<lambda>ca_bytes.
        obind (from_raw_parts alpn_ptr (usize_of_i32 alpn_len)) (\<lambda>alpn_bytes.
        case q_pemfile_certs api ca_bytes of
          Inl e \<Rightarrow> fail (''rlsm_quic_client_config_with_ca: ca parse error: '' @ e)
        | Inr certs \<Rightarrow>
            if certs = [] then fail ''rlsm_quic_client_config_with_ca: no certs in ca_pem''
            else case add_roots (q_roots_add api) certs (q_roots_empty api) of
              Inl e \<Rightarrow> fail (''rlsm_quic_client_config_with_ca: add root cert error: '' @ e)
            | Inr root_store \<Rightarrow>
                let config = q_client_builder_tls13 api (WebPkiRoots root_store);
                    config = config\<lparr>cc_key_log := KeyLogFile, cc_alpn_protocols := [alpn_bytes]\<rparr> in
                case client_cfg_insert config s of
                  (Some h, s) \<Rightarrow> Ret ((0, Ptr h), s)
                | (None, s) \<Rightarrow>
                    rlsm_err ''rlsm_quic_client_config_with_ca: handle counter exhausted'' (-1, out_handle) s)))"

section \<open>Connections\<close>

definition new_entry :: "('cc, 'sc) QuicConn \<Rightarrow> ('cc, 'sc, 'sec) QuicConnEntry" where
  "new_entry conn =
     \<lparr>qc_conn = conn, qc_pending = None, qc_next_secrets = None, qc_alert_cache = None,
      qc_first_ch_prefix = replicate 38 0, qc_first_ch_prefix_len = 0,
      qc_client_random_captured = False, qc_client_random = replicate 32 0\<rparr>"

definition rlsm_quic_client_conn_new ::
  "('r, 'cert, 'key, 't, 'name, 'cc, 'sc) quic_new_api \<Rightarrow> i32 \<Rightarrow> i32 \<Rightarrow> bytes ptr \<Rightarrow> i32 \<Rightarrow> bytes ptr \<Rightarrow> i32 \<Rightarrow> i32 ptr \<Rightarrow>
   ('r, 'cert, 'key, 't, 'cc, 'sc, 'sec, i32 \<times> i32 ptr) hs_call" where
  "rlsm_quic_client_conn_new api config_handle version server_name name_len transport_params tp_len out_handle s =
     (let s = clear_last_error s; fail = (\<lambda>msg. rlsm_err msg (-1, out_handle) s) in
      if is_null server_name then fail ''rlsm_quic_client_conn_new: null server_name''
      else if is_null out_handle then fail ''rlsm_quic_client_conn_new: null out_handle''
      else if sint name_len < 0 then fail ''rlsm_quic_client_conn_new: negative name_len''
      else if sint tp_len < 0 then fail ''rlsm_quic_client_conn_new: negative tp_len''
      else if sint tp_len > 0 \<and> is_null transport_params then
        fail ''rlsm_quic_client_conn_new: null transport_params with tp_len > 0''
      else case to_quic_version version of
        Inl e \<Rightarrow> fail e
      | Inr ver \<Rightarrow>
          obind (from_raw_parts server_name (usize_of_i32 name_len)) (\<lambda>name_bytes.
          obind (if tp_len = 0 then Ret [] else from_raw_parts transport_params (usize_of_i32 tp_len)) (\<lambda>tp_bytes.
          case from_utf8 name_bytes of
            Inl e \<Rightarrow> fail (''rlsm_quic_client_conn_new: invalid UTF-8 in server_name: '' @ show_utf8_error e)
          | Inr name_str \<Rightarrow>
              case q_server_name_try_from api name_str of
                Inl e \<Rightarrow> fail (''rlsm_quic_client_conn_new: invalid server name '' @ [CHR 0x27] @ name_str
                               @ [CHR 0x27] @ '': '' @ e)
              | Inr sni \<Rightarrow>
                  case QUIC_CLIENT_CFG_TABLE s config_handle of
                    None \<Rightarrow> fail ''rlsm_quic_client_conn_new: invalid config handle''
                  | Some config \<Rightarrow>
                      case q_client_connection_new api config ver sni tp_bytes of
                        Inl e \<Rightarrow> fail (''rlsm_quic_client_conn_new: connection error: '' @ e)
                      | Inr conn \<Rightarrow>
                          case quic_conn_insert (new_entry (QuicConn_Client conn)) s of
                            (Some h, s) \<Rightarrow> Ret ((0, Ptr h), s)
                          | (None, s) \<Rightarrow>
                              rlsm_err ''rlsm_quic_client_conn_new: handle counter exhausted'' (-1, out_handle) s)))"

definition rlsm_quic_server_conn_new ::
  "('r, 'cert, 'key, 't, 'name, 'cc, 'sc) quic_new_api \<Rightarrow> i32 \<Rightarrow> i32 \<Rightarrow> bytes ptr \<Rightarrow> i32 \<Rightarrow> i32 ptr \<Rightarrow>
   ('r, 'cert, 'key, 't, 'cc, 'sc, 'sec, i32 \<times> i32 ptr) hs_call" where
  "rlsm_quic_server_conn_new api config_handle version transport_params tp_len out_handle s =
     (let s = clear_last_error s; fail = (\<lambda>msg. rlsm_err msg (-1, out_handle) s) in
      if is_null out_handle then fail ''rlsm_quic_server_conn_new: null out_handle''
      else if sint tp_len < 0 then fail ''rlsm_quic_server_conn_new: negative tp_len''
      else if sint tp_len > 0 \<and> is_null transport_params then
        fail ''rlsm_quic_server_conn_new: null transport_params with tp_len > 0''
      else case to_quic_version version of
        Inl e \<Rightarrow> fail e
      | Inr ver \<Rightarrow>
          obind (if tp_len = 0 then Ret [] else from_raw_parts transport_params (usize_of_i32 tp_len)) (\<lambda>tp_bytes.
          case QUIC_SERVER_CFG_TABLE s config_handle of
            None \<Rightarrow> fail ''rlsm_quic_server_conn_new: invalid config handle''
          | Some config \<Rightarrow>
              case q_server_connection_new api config ver tp_bytes of
                Inl e \<Rightarrow> fail (''rlsm_quic_server_conn_new: connection error: '' @ e)
              | Inr conn \<Rightarrow>
                  case quic_conn_insert (new_entry (QuicConn_Server conn)) s of
                    (Some h, s) \<Rightarrow> Ret ((0, Ptr h), s)
                  | (None, s) \<Rightarrow>
                      rlsm_err ''rlsm_quic_server_conn_new: handle counter exhausted'' (-1, out_handle) s))"

definition rlsm_quic_conn_free :: "i32 \<Rightarrow> ('r, 'cert, 'key, 't, 'cc, 'sc, 'sec, i32) hs_call" where
  "rlsm_quic_conn_free conn_handle s =
     (let s = clear_last_error s in
      case HandleTable_remove conn_handle (QUIC_CONN_TABLE s) of
        (Some _, t) \<Rightarrow> Ret (0, s\<lparr>QUIC_CONN_TABLE := t\<rparr>)
      | (None, t) \<Rightarrow>
          rlsm_err ''rlsm_quic_conn_free: invalid conn handle'' (-1) (s\<lparr>QUIC_CONN_TABLE := t\<rparr>))"

end
