(* ===== verification/Quic_Handshake.thy ===== *)
theory Quic_Handshake
  imports Quic_Conn
begin

text \<open>
  The QUIC handshake operations (\<open>crates/librustls-mojo/src/quic_hs.rs\<close>, sections 3 to 6):
  CRYPTO data in and out, the buffered key change and its hand-over to the keys table, the
  ClientHello.random capture, state queries and the 0-RTT operations. A rustls connection
  is an opaque value with the calls of \<open>quic_conn_api\<close>.
\<close>

section \<open>The connection interface\<close>

datatype HandshakeKind = HandshakeKind_Full | HandshakeKind_Resumed | HandshakeKind_FullWithHelloRetryRequest

record ('c, 'sec) quic_conn_api =
  qa_write_hs :: "'c \<Rightarrow> bytes \<times> 'sec KeyChange option \<times> 'c"
  qa_read_hs :: "bytes \<Rightarrow> 'c \<Rightarrow> (string + unit) \<times> 'c"
  qa_alert :: "'c \<Rightarrow> byte option"
  qa_is_handshaking :: "'c \<Rightarrow> bool"
  qa_quic_transport_parameters :: "'c \<Rightarrow> bytes option"
  qa_alpn_protocol :: "'c \<Rightarrow> bytes option"
  qa_zero_rtt_keys :: "'c \<Rightarrow> directional_keys option"

text \<open>
  \<open>next_packet_keys\<close> of the 1-RTT secrets gives the local and the remote packet key;
  \<open>reject_early_data\<close> asserts that the connection is handshaking, so it may panic;
  \<open>qa_Error_General\<close> is how \<open>rustls::Error::General(msg)\<close> is displayed.
\<close>

record ('cc, 'sc, 'sec) quic_api =
  qa_client :: "('cc, 'sec) quic_conn_api"
  qa_server :: "('sc, 'sec) quic_conn_api"
  qa_next_packet_keys :: "'sec \<Rightarrow> packet_key \<times> packet_key"
  qa_handshake_kind :: "'sc \<Rightarrow> HandshakeKind option"
  qa_is_early_data_accepted :: "'cc \<Rightarrow> bool"
  qa_reject_early_data :: "'sc \<Rightarrow> 'sc outcome"
  qa_Error_General :: "string \<Rightarrow> string"

text \<open>Calls dispatched on the kind of connection.\<close>

fun conn_write_hs where
  "conn_write_hs api (QuicConn_Client c) =
     (case qa_write_hs (qa_client api) c of (v, k, c) \<Rightarrow> (v, k, QuicConn_Client c))"
| "conn_write_hs api (QuicConn_Server c) =
     (case qa_write_hs (qa_server api) c of (v, k, c) \<Rightarrow> (v, k, QuicConn_Server c))"

fun conn_read_hs where
  "conn_read_hs api data_slice (QuicConn_Client c) =
     map_prod id QuicConn_Client (qa_read_hs (qa_client api) data_slice c)"
| "conn_read_hs api data_slice (QuicConn_Server c) =
     map_prod id QuicConn_Server (qa_read_hs (qa_server api) data_slice c)"

fun conn_query where
  "conn_query fc fs (QuicConn_Client c) = fc c"
| "conn_query fc fs (QuicConn_Server c) = fs c"

section \<open>Handshake data exchange\<close>

text \<open>The dash of the message is the three UTF-8 bytes of an em dash.\<close>

definition em_dash :: string where
  "em_dash = [CHR 0xE2, CHR 0x80, CHR 0x94]"

definition rlsm_quic_conn_write_hs ::
  "('cc, 'sc, 'sec) quic_api \<Rightarrow> i32 \<Rightarrow> bytes ptr \<Rightarrow> i32 \<Rightarrow> i32 ptr \<Rightarrow> byte ptr \<Rightarrow>
   ('r, 'cert, 'key, 't, 'cc, 'sc, 'sec, i32 \<times> bytes ptr \<times> i32 ptr \<times> byte ptr) hs_call" where
  "rlsm_quic_conn_write_hs api conn_handle out_buf out_capacity out_written out_key_change_type s =
     (let s = clear_last_error s;
          fail = (\<lambda>msg s. rlsm_err msg (-1, out_buf, out_written, out_key_change_type) s) in
      if is_null out_buf then fail ''rlsm_quic_conn_write_hs: null out_buf'' s
      else if is_null out_written then fail ''rlsm_quic_conn_write_hs: null out_written'' s
      else if is_null out_key_change_type then fail ''rlsm_quic_conn_write_hs: null out_key_change_type'' s
      else if sint out_capacity < 0 then fail ''rlsm_quic_conn_write_hs: negative out_capacity'' s
      else case QUIC_CONN_TABLE s conn_handle of
        None \<Rightarrow> fail ''rlsm_quic_conn_write_hs: invalid conn handle'' s
      | Some entry \<Rightarrow>
          if qc_pending entry \<noteq> None then
            fail (''rlsm_quic_conn_write_hs: pending key change not consumed '' @ em_dash @ '' call take_keys first'') s
          else case conn_write_hs api (qc_conn entry) of (vec, key_change, conn) \<Rightarrow>
            let entry = entry\<lparr>qc_conn := conn\<rparr> in
            if length vec > usize_of_i32 out_capacity then
              fail (''rlsm_quic_conn_write_hs: output buffer too small (need '' @ dec_nat (length vec)
                    @ '', have '' @ dec_i32 out_capacity @ '')'')
                (s\<lparr>QUIC_CONN_TABLE := (QUIC_CONN_TABLE s)(conn_handle \<mapsto> entry)\<rparr>)
            else
              obind (copy_nonoverlapping vec out_buf) (\<lambda>out_buf.
              let out_written = Ptr (i32_of_usize (length vec));
                  (kind, entry) =
                    (case key_change of
                       None \<Rightarrow> (0, entry)
                     | Some (KeyChange_Handshake ks) \<Rightarrow> (1, entry\<lparr>qc_pending := Some (1, ks)\<rparr>)
                     | Some (KeyChange_OneRtt ks next_s) \<Rightarrow>
                         (2, entry\<lparr>qc_pending := Some (2, ks), qc_next_secrets := Some next_s\<rparr>)) in
              Ret ((0, out_buf, out_written, Ptr kind),
                   s\<lparr>QUIC_CONN_TABLE := (QUIC_CONN_TABLE s)(conn_handle \<mapsto> entry)\<rparr>)))"

text \<open>
  The ingress hook of \<open>rlsm_quic_conn_read_hs\<close>: the leading 38 bytes of the first server
  flight, and the random extracted from them.
\<close>

definition capture_prefix ::
  "bytes \<Rightarrow> ('cc, 'sc, 'sec) QuicConnEntry \<Rightarrow> ('cc, 'sc, 'sec) QuicConnEntry" where
  "capture_prefix data_slice entry =
     (if (case qc_conn entry of QuicConn_Server _ \<Rightarrow> True | _ \<Rightarrow> False)
         \<and> \<not> qc_client_random_captured entry \<and> data_slice \<noteq> [] then
        let cur = unat (qc_first_ch_prefix_len entry) in
        if cur < 38 then
          let want = 38 - cur;
              tk = min want (length data_slice);
              entry = entry\<lparr>qc_first_ch_prefix :=
                        take cur (qc_first_ch_prefix entry) @ take tk data_slice
                        @ drop (cur + tk) (qc_first_ch_prefix entry),
                      qc_first_ch_prefix_len := word_of_nat (cur + tk)\<rparr> in
          if qc_first_ch_prefix_len entry = 38 then
            if qc_first_ch_prefix entry ! 0 = 1 then
              entry\<lparr>qc_client_random := take 32 (drop 6 (qc_first_ch_prefix entry)),
                    qc_client_random_captured := True\<rparr>
            else entry
          else entry
        else entry
      else entry)"

text \<open>The closure of \<open>rlsm_quic_conn_read_hs\<close>: the error if any, and the entry after it.\<close>

definition read_hs_entry ::
  "('cc, 'sc, 'sec) quic_api \<Rightarrow> bytes \<Rightarrow> ('cc, 'sc, 'sec) QuicConnEntry \<Rightarrow>
   string option \<times> ('cc, 'sc, 'sec) QuicConnEntry" where
  "read_hs_entry api data_slice entry =
     (let entry = capture_prefix data_slice entry in
      case conn_read_hs api data_slice (qc_conn entry) of (result, conn) \<Rightarrow>
        let entry = entry\<lparr>qc_conn := conn\<rparr> in
        case result of
          Inr _ \<Rightarrow> (None, entry)
        | Inl e \<Rightarrow>
            let alert_code = conn_query (qa_alert (qa_client api)) (qa_alert (qa_server api)) (qc_conn entry);
                code = (case alert_code of Some a \<Rightarrow> a | None \<Rightarrow> 50) in
            (Some (''rlsm_quic_conn_read_hs: TLS error: '' @ e), entry\<lparr>qc_alert_cache := Some code\<rparr>))"

text \<open>The two durations written to the optional out-parameters are arguments.\<close>

fun write_opt :: "'a \<Rightarrow> 'a ptr \<Rightarrow> 'a ptr" where
  "write_opt x Null = Null"
| "write_opt x (Ptr _) = Ptr x"

definition rlsm_quic_conn_read_hs ::
  "('cc, 'sc, 'sec) quic_api \<Rightarrow> u64 \<Rightarrow> u64 \<Rightarrow> i32 \<Rightarrow> bytes ptr \<Rightarrow> i32 \<Rightarrow> u64 ptr \<Rightarrow> u64 ptr \<Rightarrow>
   ('r, 'cert, 'key, 't, 'cc, 'sc, 'sec, i32 \<times> u64 ptr \<times> u64 ptr) hs_call" where
  "rlsm_quic_conn_read_hs api lookup_us sm_us conn_handle data len out_state_machine_us out_handle_lookup_us s =
     (let s = clear_last_error s in
      if is_null data \<and> sint len > 0 then
        rlsm_err ''rlsm_quic_conn_read_hs: null data with len > 0''
          (-1, out_state_machine_us, out_handle_lookup_us) s
      else if sint len < 0 then
        rlsm_err ''rlsm_quic_conn_read_hs: negative len'' (-1, out_state_machine_us, out_handle_lookup_us) s
      else
        obind (if len = 0 then Ret [] else from_raw_parts data (usize_of_i32 len)) (\<lambda>data_slice.
        case QUIC_CONN_TABLE s conn_handle of
          None \<Rightarrow>
            rlsm_err ''rlsm_quic_conn_read_hs: invalid conn handle''
              (-1, out_state_machine_us, out_handle_lookup_us) s
        | Some entry \<Rightarrow>
            let out_handle_lookup_us = write_opt lookup_us out_handle_lookup_us in
            case read_hs_entry api data_slice entry of (err, entry) \<Rightarrow>
              let out_state_machine_us = write_opt sm_us out_state_machine_us;
                  s = s\<lparr>QUIC_CONN_TABLE := (QUIC_CONN_TABLE s)(conn_handle \<mapsto> entry)\<rparr> in
              case err of
                None \<Rightarrow> Ret ((0, out_state_machine_us, out_handle_lookup_us), s)
              | Some msg \<Rightarrow> rlsm_err msg (-1, out_state_machine_us, out_handle_lookup_us) s))"

definition rlsm_quic_conn_alert :: "i32 \<Rightarrow> ('r, 'cert, 'key, 't, 'cc, 'sc, 'sec, i32) hs_call" where
  "rlsm_quic_conn_alert conn_handle s =
     (let s = clear_last_error s in
      case HandleTable_with_mut conn_handle
             (\<lambda>entry. (case qc_alert_cache entry of Some a \<Rightarrow> i32_of_usize (unat a) | None \<Rightarrow> -1,
                       entry\<lparr>qc_alert_cache := None\<rparr>)) (QUIC_CONN_TABLE s) of
        (Some r, t) \<Rightarrow> Ret (r, s\<lparr>QUIC_CONN_TABLE := t\<rparr>)
      | (None, t) \<Rightarrow> rlsm_err ''rlsm_quic_conn_alert: invalid conn handle'' (-1) (s\<lparr>QUIC_CONN_TABLE := t\<rparr>))"

section \<open>Key materialization\<close>

definition rlsm_quic_conn_take_keys ::
  "i32 \<Rightarrow> i32 ptr \<Rightarrow> ('r, 'cert, 'key, 't, 'cc, 'sc, 'sec, i32 \<times> i32 ptr) hs_call" where
  "rlsm_quic_conn_take_keys conn_handle out_keys_handle s =
     (let s = clear_last_error s; fail = (\<lambda>msg s. rlsm_err msg (-1, out_keys_handle) s) in
      if is_null out_keys_handle then fail ''rlsm_quic_conn_take_keys: null out_keys_handle'' s
      else case QUIC_CONN_TABLE s conn_handle of
        None \<Rightarrow> fail ''rlsm_quic_conn_take_keys: invalid conn handle'' s
      | Some entry \<Rightarrow>
          let taken = qc_pending entry;
              s = s\<lparr>QUIC_CONN_TABLE := (QUIC_CONN_TABLE s)(conn_handle \<mapsto> entry\<lparr>qc_pending := None\<rparr>)\<rparr> in
          case taken of
            None \<Rightarrow> fail ''rlsm_quic_conn_take_keys: no pending key change'' s
          | Some (kind, ks) \<Rightarrow>
              case keys_table_insert
                     \<lparr>ke_local = keys_local ks, ke_remote = keys_remote ks, last_local_pn = None\<rparr> s of
                (Some kh, s) \<Rightarrow> Ret ((0, Ptr kh), s)
              | (None, s) \<Rightarrow> fail ''rlsm_quic_conn_take_keys: KEYS_TABLE handle counter exhausted'' s)"

text \<open>The header-protection key of a key update: it refuses every call.\<close>

definition noop_hp_msg :: string where
  "noop_hp_msg =
     ''key update: header protection key not available '' @ em_dash
     @ '' HP keys do not rotate (RFC 9001 '' @ [CHR 0xC2, CHR 0xA7] @ ''6.3)''"

definition NoOpHpKey :: "(string \<Rightarrow> string) \<Rightarrow> header_key" where
  "NoOpHpKey general =
     \<lparr>hk_encrypt_in_place = (\<lambda>sample first packet_number. (Inl (general noop_hp_msg), first, packet_number)),
      hk_decrypt_in_place = (\<lambda>sample first packet_number. (Inl (general noop_hp_msg), first, packet_number)),
      hk_sample_len = 16\<rparr>"

definition rlsm_quic_conn_take_next_keys ::
  "('cc, 'sc, 'sec) quic_api \<Rightarrow> i32 \<Rightarrow> i32 ptr \<Rightarrow>
   ('r, 'cert, 'key, 't, 'cc, 'sc, 'sec, i32 \<times> i32 ptr) hs_call" where
  "rlsm_quic_conn_take_next_keys api conn_handle out_keys_handle s =
     (let s = clear_last_error s; fail = (\<lambda>msg s. rlsm_err msg (-1, out_keys_handle) s) in
      if is_null out_keys_handle then fail ''rlsm_quic_conn_take_next_keys: null out_keys_handle'' s
      else case QUIC_CONN_TABLE s conn_handle of
        None \<Rightarrow> fail ''rlsm_quic_conn_take_next_keys: invalid conn handle'' s
      | Some entry \<Rightarrow>
          let taken = qc_next_secrets entry;
              s = s\<lparr>QUIC_CONN_TABLE := (QUIC_CONN_TABLE s)(conn_handle \<mapsto> entry\<lparr>qc_next_secrets := None\<rparr>)\<rparr> in
          case taken of
            None \<Rightarrow>
              fail (''rlsm_quic_conn_take_next_keys: no 1-RTT Secrets available ''
                    @ ''(OneRtt key change not yet processed, or already consumed)'') s
          | Some secrets \<Rightarrow>
              case qa_next_packet_keys api secrets of (pk_local, pk_remote) \<Rightarrow>
              case keys_table_insert
                     \<lparr>ke_local = \<lparr>dk_header = NoOpHpKey (qa_Error_General api), dk_packet = pk_local\<rparr>,
                      ke_remote = \<lparr>dk_header = NoOpHpKey (qa_Error_General api), dk_packet = pk_remote\<rparr>, last_local_pn = None\<rparr> s of
                (Some kh, s) \<Rightarrow> Ret ((0, Ptr kh), s)
              | (None, s) \<Rightarrow> fail ''rlsm_quic_conn_take_next_keys: KEYS_TABLE handle counter exhausted'' s)"

section \<open>State queries\<close>

definition rlsm_quic_conn_is_handshaking ::
  "('cc, 'sc, 'sec) quic_api \<Rightarrow> i32 \<Rightarrow> ('r, 'cert, 'key, 't, 'cc, 'sc, 'sec, i32) hs_call" where
  "rlsm_quic_conn_is_handshaking api conn_handle s =
     (let s = clear_last_error s in
      case HandleTable_with conn_handle
             (\<lambda>entry. if conn_query (qa_is_handshaking (qa_client api)) (qa_is_handshaking (qa_server api)) (qc_conn entry)
                      then 1 else 0) (QUIC_CONN_TABLE s) of
        Some v \<Rightarrow> Ret (v, s)
      | None \<Rightarrow> rlsm_err ''rlsm_quic_conn_is_handshaking: invalid conn handle'' (-1) s)"

definition rlsm_quic_conn_handshake_kind ::
  "('cc, 'sc, 'sec) quic_api \<Rightarrow> i32 \<Rightarrow> ('r, 'cert, 'key, 't, 'cc, 'sc, 'sec, i32) hs_call" where
  "rlsm_quic_conn_handshake_kind api conn_handle s =
     (let s = clear_last_error s in
      case HandleTable_with conn_handle
             (\<lambda>entry. case qc_conn entry of
                QuicConn_Client _ \<Rightarrow> -2
              | QuicConn_Server c \<Rightarrow>
                  (case qa_handshake_kind api c of
                     None \<Rightarrow> 0
                   | Some HandshakeKind_Full \<Rightarrow> 1
                   | Some HandshakeKind_Resumed \<Rightarrow> 2
                   | Some HandshakeKind_FullWithHelloRetryRequest \<Rightarrow> 3)) (QUIC_CONN_TABLE s) of
        Some v \<Rightarrow> Ret (v, s)
      | None \<Rightarrow> rlsm_err ''rlsm_quic_conn_handshake_kind: invalid conn handle'' (-1) s)"

definition rlsm_quic_conn_transport_params ::
  "('cc, 'sc, 'sec) quic_api \<Rightarrow> i32 \<Rightarrow> bytes ptr \<Rightarrow> i32 \<Rightarrow> i32 ptr \<Rightarrow>
   ('r, 'cert, 'key, 't, 'cc, 'sc, 'sec, i32 \<times> bytes ptr \<times> i32 ptr) hs_call" where
  "rlsm_quic_conn_transport_params api conn_handle out_buf out_capacity out_written s =
     (let s = clear_last_error s; fail = (\<lambda>msg. rlsm_err msg (-1, out_buf, out_written) s) in
      if is_null out_buf then fail ''rlsm_quic_conn_transport_params: null out_buf''
      else if is_null out_written then fail ''rlsm_quic_conn_transport_params: null out_written''
      else if sint out_capacity < 0 then fail ''rlsm_quic_conn_transport_params: negative capacity''
      else case QUIC_CONN_TABLE s conn_handle of
        None \<Rightarrow> fail ''rlsm_quic_conn_transport_params: invalid conn handle''
      | Some entry \<Rightarrow>
          case conn_query (qa_quic_transport_parameters (qa_client api))
                 (qa_quic_transport_parameters (qa_server api)) (qc_conn entry) of
            None \<Rightarrow> Ret ((1, out_buf, Ptr 0), s)
          | Some p \<Rightarrow>
              if length p > usize_of_i32 out_capacity then
                fail (''rlsm_quic_conn_transport_params: buffer too small (need '' @ dec_nat (length p)
                      @ '', have '' @ dec_i32 out_capacity @ '')'')
              else
                obind (copy_nonoverlapping p out_buf) (\<lambda>out_buf.
                Ret ((0, out_buf, Ptr (i32_of_usize (length p))), s)))"

definition rlsm_quic_conn_alpn ::
  "('cc, 'sc, 'sec) quic_api \<Rightarrow> i32 \<Rightarrow> bytes ptr \<Rightarrow> i32 \<Rightarrow> i32 ptr \<Rightarrow>
   ('r, 'cert, 'key, 't, 'cc, 'sc, 'sec, i32 \<times> bytes ptr \<times> i32 ptr) hs_call" where
  "rlsm_quic_conn_alpn api conn_handle out_buf out_capacity out_written s =
     (let s = clear_last_error s; fail = (\<lambda>msg. rlsm_err msg (-1, out_buf, out_written) s) in
      if is_null out_buf then fail ''rlsm_quic_conn_alpn: null out_buf''
      else if is_null out_written then fail ''rlsm_quic_conn_alpn: null out_written''
      else if sint out_capacity < 0 then fail ''rlsm_quic_conn_alpn: negative capacity''
      else case QUIC_CONN_TABLE s conn_handle of
        None \<Rightarrow> fail ''rlsm_quic_conn_alpn: invalid conn handle''
      | Some entry \<Rightarrow>
          case conn_query (qa_alpn_protocol (qa_client api)) (qa_alpn_protocol (qa_server api)) (qc_conn entry) of
            None \<Rightarrow> Ret ((1, out_buf, Ptr 0), s)
          | Some p \<Rightarrow>
              if length p > usize_of_i32 out_capacity then
                fail (''rlsm_quic_conn_alpn: buffer too small (need '' @ dec_nat (length p)
                      @ '', have '' @ dec_i32 out_capacity @ '')'')
              else
                obind (copy_nonoverlapping p out_buf) (\<lambda>out_buf.
                Ret ((0, out_buf, Ptr (i32_of_usize (length p))), s)))"

section \<open>0-RTT\<close>

text \<open>Keys that refuse every call, for the direction 0-RTT does not have.\<close>

definition noop_keys :: "(string \<Rightarrow> string) \<Rightarrow> string \<Rightarrow> string \<Rightarrow> directional_keys" where
  "noop_keys general packet_msg hp_msg =
     \<lparr>dk_header = \<lparr>hk_encrypt_in_place = (\<lambda>sample b pn. (Inl (general hp_msg), b, pn)),
                  hk_decrypt_in_place = (\<lambda>sample b pn. (Inl (general hp_msg), b, pn)), hk_sample_len = 16\<rparr>,
      dk_packet = \<lparr>pk_encrypt_in_place = (\<lambda>pn hdr payload. (Inl (general packet_msg), payload)),
                  pk_decrypt_in_place = (\<lambda>pn hdr payload. (Inl (general packet_msg), payload)), pk_tag_len = 16\<rparr>\<rparr>"

definition rlsm_quic_conn_zero_rtt_keys ::
  "('cc, 'sc, 'sec) quic_api \<Rightarrow> i32 \<Rightarrow> i32 ptr \<Rightarrow>
   ('r, 'cert, 'key, 't, 'cc, 'sc, 'sec, i32 \<times> i32 ptr) hs_call" where
  "rlsm_quic_conn_zero_rtt_keys api conn_handle out_keys_handle s =
     (let s = clear_last_error s; fail = (\<lambda>msg s. rlsm_err msg (-1, out_keys_handle) s) in
      if is_null out_keys_handle then fail ''rlsm_quic_conn_zero_rtt_keys: null out_keys_handle'' s
      else case QUIC_CONN_TABLE s conn_handle of
        None \<Rightarrow> fail ''rlsm_quic_conn_zero_rtt_keys: invalid conn handle'' s
      | Some entry \<Rightarrow>
          case qc_conn entry of
            QuicConn_Server _ \<Rightarrow>
              fail ''rlsm_quic_conn_zero_rtt_keys: not supported on server connections'' s
          | QuicConn_Client c \<Rightarrow>
              case qa_zero_rtt_keys (qa_client api) c of
                None \<Rightarrow> Ret ((1, Ptr 0), s)
              | Some local_dk \<Rightarrow>
                  case keys_table_insert
                         \<lparr>ke_local = local_dk,
                          ke_remote = noop_keys (qa_Error_General api) ''0-RTT: no remote packet key'' ''0-RTT: no remote HP key'',
                          last_local_pn = None\<rparr> s of
                    (Some kh, s) \<Rightarrow> Ret ((0, Ptr kh), s)
                  | (None, s) \<Rightarrow> fail ''rlsm_quic_conn_zero_rtt_keys: handle exhausted'' s)"

definition rlsm_quic_server_conn_zero_rtt_keys ::
  "('cc, 'sc, 'sec) quic_api \<Rightarrow> i32 \<Rightarrow> i32 ptr \<Rightarrow>
   ('r, 'cert, 'key, 't, 'cc, 'sc, 'sec, i32 \<times> i32 ptr) hs_call" where
  "rlsm_quic_server_conn_zero_rtt_keys api conn_handle out_keys_handle s =
     (let s = clear_last_error s in
      if is_null out_keys_handle then
        rlsm_err ''rlsm_quic_server_conn_zero_rtt_keys: null out_keys_handle'' (-1, out_keys_handle) s
      else case QUIC_CONN_TABLE s conn_handle of
        None \<Rightarrow> rlsm_err ''rlsm_quic_server_conn_zero_rtt_keys: invalid conn handle'' (-1, Ptr (-1)) s
      | Some entry \<Rightarrow>
          case qc_conn entry of
            QuicConn_Client _ \<Rightarrow>
              rlsm_err ''rlsm_quic_server_conn_zero_rtt_keys: not supported on client connections'' (-1, Ptr (-1)) s
          | QuicConn_Server c \<Rightarrow>
              case qa_zero_rtt_keys (qa_server api) c of
                None \<Rightarrow> Ret ((1, Ptr (-1)), s)
              | Some real_dk \<Rightarrow>
                  case keys_table_insert
                         \<lparr>ke_local = noop_keys (qa_Error_General api) ''0-RTT: no local packet key'' ''0-RTT: no local HP key'',
                          ke_remote = real_dk, last_local_pn = None\<rparr> s of
                    (Some kh, s) \<Rightarrow> Ret ((0, Ptr kh), s)
                  | (None, s) \<Rightarrow>
                      rlsm_err ''rlsm_quic_server_conn_zero_rtt_keys: handle exhausted'' (-1, Ptr (-1)) s)"

definition rlsm_quic_conn_is_early_data_accepted ::
  "('cc, 'sc, 'sec) quic_api \<Rightarrow> i32 \<Rightarrow> ('r, 'cert, 'key, 't, 'cc, 'sc, 'sec, i32) hs_call" where
  "rlsm_quic_conn_is_early_data_accepted api conn_handle s =
     (let s = clear_last_error s in
      case QUIC_CONN_TABLE s conn_handle of
        None \<Rightarrow> rlsm_err ''rlsm_quic_conn_is_early_data_accepted: invalid conn handle'' (-1) s
      | Some entry \<Rightarrow>
          case qc_conn entry of
            QuicConn_Client c \<Rightarrow> Ret (if qa_is_early_data_accepted api c then 1 else 0, s)
          | QuicConn_Server _ \<Rightarrow>
              rlsm_err ''rlsm_quic_conn_is_early_data_accepted: not applicable to server connections'' (-1) s)"

definition rlsm_quic_server_conn_reject_early_data ::
  "('cc, 'sc, 'sec) quic_api \<Rightarrow> i32 \<Rightarrow> ('r, 'cert, 'key, 't, 'cc, 'sc, 'sec, i32) hs_call" where
  "rlsm_quic_server_conn_reject_early_data api conn_handle s =
     (let s = clear_last_error s in
      case QUIC_CONN_TABLE s conn_handle of
        None \<Rightarrow> rlsm_err ''rlsm_quic_server_conn_reject_early_data: invalid conn handle'' (-1) s
      | Some entry \<Rightarrow>
          case qc_conn entry of
            QuicConn_Server c \<Rightarrow>
              if qa_is_handshaking (qa_server api) c then
                obind (qa_reject_early_data api c) (\<lambda>c.
                Ret (0, s\<lparr>QUIC_CONN_TABLE :=
                           (QUIC_CONN_TABLE s)(conn_handle \<mapsto> entry\<lparr>qc_conn := QuicConn_Server c\<rparr>)\<rparr>))
              else rlsm_err ''rlsm_quic_server_conn_reject_early_data: not a handshaking server conn'' (-1) s
          | QuicConn_Client _ \<Rightarrow>
              rlsm_err ''rlsm_quic_server_conn_reject_early_data: not a handshaking server conn'' (-1) s)"

text \<open>\<open>out_len\<close> is a \<open>usize\<close>; the buffer is written with 32 bytes.\<close>

definition rlsm_quic_server_conn_replay_authenticator ::
  "i32 \<Rightarrow> bytes ptr \<Rightarrow> nat ptr \<Rightarrow>
   ('r, 'cert, 'key, 't, 'cc, 'sc, 'sec, i32 \<times> bytes ptr \<times> nat ptr) hs_call" where
  "rlsm_quic_server_conn_replay_authenticator conn_handle out_buf out_len s =
     (let s = clear_last_error s in
      if is_null out_buf then
        rlsm_err ''rlsm_quic_server_conn_replay_authenticator: null out_buf'' (-1, out_buf, out_len) s
      else if is_null out_len then
        rlsm_err ''rlsm_quic_server_conn_replay_authenticator: null out_len'' (-1, out_buf, out_len) s
      else case QUIC_CONN_TABLE s conn_handle of
        None \<Rightarrow>
          rlsm_err ''rlsm_quic_server_conn_replay_authenticator: invalid conn handle'' (-1, out_buf, Ptr 0) s
      | Some entry \<Rightarrow>
          case qc_conn entry of
            QuicConn_Client _ \<Rightarrow>
              rlsm_err ''rlsm_quic_server_conn_replay_authenticator: not applicable to client connections''
                (-1, out_buf, Ptr 0) s
          | QuicConn_Server _ \<Rightarrow>
              if \<not> qc_client_random_captured entry then Ret ((1, out_buf, Ptr 0), s)
              else obind (copy_nonoverlapping (take 32 (qc_client_random entry)) out_buf) (\<lambda>out_buf.
                   Ret ((0, out_buf, Ptr 32), s)))"

end
