(* ===== verification/Quic_Protocol.thy ===== *)
theory Quic_Protocol
  imports Quic_Handshake
begin

text \<open>
  The life of one QUIC connection among the calls of \<open>quic_hs.rs\<close>: a step relation over
  the shim's state, in which calls on any handles interleave, with a log of what one
  connection was fed, which key changes it reported and which keys were taken. The
  invariants give the anti-replay authenticator and the hand-over of handshake keys for
  every such history.
\<close>

section \<open>Histories\<close>

text \<open>The log of one connection; key sets are kept as the entries they become.\<close>

record hs_log =
  log_fed :: bytes
  log_reported :: "KeysEntry list"
  log_taken :: "KeysEntry list"

definition log_init :: hs_log where
  "log_init = \<lparr>log_fed = [], log_reported = [], log_taken = []\<rparr>"

definition entry_of_keys :: "keys \<Rightarrow> KeysEntry" where
  "entry_of_keys ks = \<lparr>ke_local = keys_local ks, ke_remote = keys_remote ks, last_local_pn = None\<rparr>"

fun change_entries :: "'sec KeyChange option \<Rightarrow> KeysEntry list" where
  "change_entries None = []"
| "change_entries (Some (KeyChange_Handshake ks)) = [entry_of_keys ks]"
| "change_entries (Some (KeyChange_OneRtt ks n)) = [entry_of_keys ks]"

definition pending_entries :: "('cc, 'sc, 'sec) QuicConnEntry \<Rightarrow> KeysEntry list" where
  "pending_entries e = (case qc_pending e of None \<Rightarrow> [] | Some (k, ks) \<Rightarrow> [entry_of_keys ks])"

text \<open>The key changes the TLS stack hands out at the next \<open>write_hs\<close> of \<open>h\<close>.\<close>

definition next_change ::
  "('cc, 'sc, 'sec) quic_api \<Rightarrow> i32 \<Rightarrow> ('r, 'cert, 'key, 't, 'cc, 'sc, 'sec) hs_shim \<Rightarrow> KeysEntry list" where
  "next_change api h s =
     (case QUIC_CONN_TABLE s h of
        None \<Rightarrow> [] | Some e \<Rightarrow> change_entries (fst (snd (conn_write_hs api (qc_conn e)))))"

definition tables_ok :: "('r, 'cert, 'key, 't, 'cc, 'sc, 'sec) hs_shim \<Rightarrow> bool" where
  "tables_ok s \<longleftrightarrow> handles_below (NEXT_HANDLE s) (KEYS_TABLE s) \<and> handles_below (NEXT_HANDLE s) (QUIC_CONN_TABLE s)"

text \<open>
  One call. Every call of sections 2 to 6 of \<open>quic_hs.rs\<close> that changes state has a rule,
  on any handle (\<open>conn_free\<close> on any but \<open>h\<close>); \<open>other\<close> stands for the calls of the rest of
  the library, which do not touch the connection table.
\<close>

inductive hs_step ::
  "('cc, 'sc, 'sec) quic_api \<Rightarrow> ('r, 'cert, 'key, 't, 'name, 'cc, 'sc) quic_new_api \<Rightarrow> i32 \<Rightarrow>
   hs_log \<times> ('r, 'cert, 'key, 't, 'cc, 'sc, 'sec) hs_shim \<Rightarrow>
   hs_log \<times> ('r, 'cert, 'key, 't, 'cc, 'sc, 'sec) hs_shim \<Rightarrow> bool"
  for api napi h where
  read_hs: "rlsm_quic_conn_read_hs api l m k data len p q s = Ret (r, s') \<Longrightarrow>
     fed = (case data of Null \<Rightarrow> [] | Ptr d \<Rightarrow> take (nat (sint len)) d) \<Longrightarrow>
     hs_step api napi h (g, s)
       (if k = h then g\<lparr>log_fed := log_fed g @ fed\<rparr> else g, s')"
| write_hs: "rlsm_quic_conn_write_hs api k buf cap w t s = Ret ((r, out), s') \<Longrightarrow>
     hs_step api napi h (g, s)
       (if k = h \<and> r = 0 then g\<lparr>log_reported := log_reported g @ next_change api h s\<rparr> else g, s')"
| take_keys: "rlsm_quic_conn_take_keys k out s = Ret ((r, out'), s') \<Longrightarrow>
     taken = (case out' of Ptr kh \<Rightarrow> (case KEYS_TABLE s' kh of Some e \<Rightarrow> [e] | None \<Rightarrow> []) | Null \<Rightarrow> []) \<Longrightarrow>
     hs_step api napi h (g, s)
       (if k = h \<and> r = 0 then g\<lparr>log_taken := log_taken g @ taken\<rparr> else g, s')"
| take_next_keys: "rlsm_quic_conn_take_next_keys api k out s = Ret (r, s') \<Longrightarrow> hs_step api napi h (g, s) (g, s')"
| alert: "rlsm_quic_conn_alert k s = Ret (r, s') \<Longrightarrow> hs_step api napi h (g, s) (g, s')"
| zero_rtt_keys: "rlsm_quic_conn_zero_rtt_keys api k out s = Ret (r, s') \<Longrightarrow> hs_step api napi h (g, s) (g, s')"
| server_zero_rtt_keys:
    "rlsm_quic_server_conn_zero_rtt_keys api k out s = Ret (r, s') \<Longrightarrow> hs_step api napi h (g, s) (g, s')"
| reject_early_data:
    "rlsm_quic_server_conn_reject_early_data api k s = Ret (r, s') \<Longrightarrow> hs_step api napi h (g, s) (g, s')"
| client_conn_new: "rlsm_quic_client_conn_new napi cfg v n nl tp tpl out s = Ret (r, s') \<Longrightarrow>
     hs_step api napi h (g, s) (g, s')"
| server_conn_new: "rlsm_quic_server_conn_new napi cfg v tp tpl out s = Ret (r, s') \<Longrightarrow>
     hs_step api napi h (g, s) (g, s')"
| conn_free: "k \<noteq> h \<Longrightarrow> rlsm_quic_conn_free k s = Ret (r, s') \<Longrightarrow> hs_step api napi h (g, s) (g, s')"
| other: "QUIC_CONN_TABLE s' = QUIC_CONN_TABLE s \<Longrightarrow>
     NEXT_HANDLE s' = NEXT_HANDLE s \<or> NEXT_HANDLE s' = snd (next_handle (NEXT_HANDLE s)) \<Longrightarrow>
     (tables_ok s \<longrightarrow> handles_below (NEXT_HANDLE s') (KEYS_TABLE s')) \<Longrightarrow>
     hs_step api napi h (g, s) (g, s')"

text \<open>The counter has not reached \<open>i32::MAX\<close>: no handle was refused or given twice.\<close>

definition unexhausted :: "'z shim_scheme \<Rightarrow> bool" where
  "unexhausted s \<longleftrightarrow> 0 < sint (NEXT_HANDLE s) \<and> NEXT_HANDLE s \<noteq> i32_MAX"

section \<open>Invariants\<close>

text \<open>The random of a flight: bytes 6 to 38 when it begins as a ClientHello and has them.\<close>

definition hello_random :: "bytes \<Rightarrow> bytes option" where
  "hello_random fed = (if 38 \<le> length fed \<and> fed ! 0 = 1 then Some (take 32 (drop 6 fed)) else None)"

definition is_server :: "('cc, 'sc) QuicConn \<Rightarrow> bool" where
  "is_server c = (case c of QuicConn_Server _ \<Rightarrow> True | QuicConn_Client _ \<Rightarrow> False)"

definition capture_inv :: "bytes \<Rightarrow> ('cc, 'sc, 'sec) QuicConnEntry \<Rightarrow> bool" where
  "capture_inv fed e \<longleftrightarrow>
     is_server (qc_conn e) \<and> length (qc_first_ch_prefix e) = 38
   \<and> unat (qc_first_ch_prefix_len e) = min 38 (length fed)
   \<and> take (min 38 (length fed)) (qc_first_ch_prefix e) = take 38 fed
   \<and> (if qc_client_random_captured e then hello_random fed = Some (qc_client_random e)
      else hello_random fed = None)"

definition keys_inv :: "hs_log \<Rightarrow> ('cc, 'sc, 'sec) QuicConnEntry \<Rightarrow> bool" where
  "keys_inv g e \<longleftrightarrow> log_reported g = log_taken g @ pending_entries e"

fun hs_inv :: "i32 \<Rightarrow> hs_log \<times> ('r, 'cert, 'key, 't, 'cc, 'sc, 'sec) hs_shim \<Rightarrow> bool" where
  "hs_inv h (g, s) \<longleftrightarrow>
     tables_ok s
   \<and> (case QUIC_CONN_TABLE s h of None \<Rightarrow> False | Some e \<Rightarrow> capture_inv (log_fed g) e \<and> keys_inv g e)"

section \<open>Lemmas: the counter\<close>

lemma next_handle_MAX_MIN:
  "\<not> (0 < sint c \<and> c \<noteq> i32_MAX) \<Longrightarrow>
   \<not> (0 < sint (snd (next_handle c)) \<and> snd (next_handle c) \<noteq> i32_MAX)"
  by (cases "0 < sint c") (auto simp: next_handle_def i32_MAX_def)

lemma unexhausted_back:
  "unexhausted s' \<Longrightarrow> NEXT_HANDLE s' = NEXT_HANDLE s \<or> NEXT_HANDLE s' = snd (next_handle (NEXT_HANDLE s))
   \<Longrightarrow> unexhausted s"
  using next_handle_MAX_MIN unfolding unexhausted_def by metis

section \<open>Lemmas: what each call does to the tables\<close>

lemma hs_last_error [simp]:
  "QUIC_CONN_TABLE (set_last_error m s) = QUIC_CONN_TABLE s"
  "QUIC_CONN_TABLE (clear_last_error s) = QUIC_CONN_TABLE s"
  "NEXT_HANDLE (set_last_error m t) = NEXT_HANDLE t"
  "NEXT_HANDLE (clear_last_error t) = NEXT_HANDLE t"
  by (simp_all add: set_last_error_def clear_last_error_def)

lemma keys_table_insert_cases:
  assumes "keys_table_insert e s = (r, s')"
  shows "r = Some (NEXT_HANDLE s) \<and> 0 < sint (NEXT_HANDLE s)
           \<and> s' = s\<lparr>NEXT_HANDLE := NEXT_HANDLE s + 1, KEYS_TABLE := (KEYS_TABLE s)(NEXT_HANDLE s \<mapsto> e)\<rparr>
       \<or> r = None \<and> sint (NEXT_HANDLE s) \<le> 0 \<and> s' = s\<lparr>NEXT_HANDLE := i32_MAX\<rparr>"
  using assms
  by (cases "0 < sint (NEXT_HANDLE s)")
    (auto simp: keys_table_insert_def HandleTable_insert_def next_handle_def)

lemma quic_conn_insert_cases:
  assumes "quic_conn_insert e s = (r, s')"
  shows "r = Some (NEXT_HANDLE s) \<and> 0 < sint (NEXT_HANDLE s)
           \<and> s' = s\<lparr>NEXT_HANDLE := NEXT_HANDLE s + 1, QUIC_CONN_TABLE := (QUIC_CONN_TABLE s)(NEXT_HANDLE s \<mapsto> e)\<rparr>
       \<or> r = None \<and> sint (NEXT_HANDLE s) \<le> 0 \<and> s' = s\<lparr>NEXT_HANDLE := i32_MAX\<rparr>"
  using assms
  by (cases "0 < sint (NEXT_HANDLE s)")
    (auto simp: quic_conn_insert_def HandleTable_insert_def next_handle_def)

text \<open>
  The effect of a call on handle \<open>k\<close>: on the connection table it replaces at most the entry
  of \<open>k\<close>, by one related to it by \<open>R\<close>; on the keys table it inserts at most one entry.
\<close>

definition conn_effect ::
  "i32 \<Rightarrow> (('cc, 'sc, 'sec) QuicConnEntry \<Rightarrow> ('cc, 'sc, 'sec) QuicConnEntry \<Rightarrow> bool) \<Rightarrow>
   ('r, 'cert, 'key, 't, 'cc, 'sc, 'sec) hs_shim \<Rightarrow> ('r, 'cert, 'key, 't, 'cc, 'sc, 'sec) hs_shim \<Rightarrow> bool" where
  "conn_effect k R s s' \<longleftrightarrow>
     (case QUIC_CONN_TABLE s k of
        None \<Rightarrow> QUIC_CONN_TABLE s' = QUIC_CONN_TABLE s
      | Some e \<Rightarrow> \<exists>e'. QUIC_CONN_TABLE s' = (QUIC_CONN_TABLE s)(k \<mapsto> e') \<and> R e e')"

definition keys_effect ::
  "('r, 'cert, 'key, 't, 'cc, 'sc, 'sec) hs_shim \<Rightarrow> ('r, 'cert, 'key, 't, 'cc, 'sc, 'sec) hs_shim \<Rightarrow> bool" where
  "keys_effect s s' \<longleftrightarrow>
     NEXT_HANDLE s' = NEXT_HANDLE s \<and> KEYS_TABLE s' = KEYS_TABLE s
   \<or> NEXT_HANDLE s' = i32_MAX \<and> sint (NEXT_HANDLE s) \<le> 0 \<and> KEYS_TABLE s' = KEYS_TABLE s
   \<or> NEXT_HANDLE s' = NEXT_HANDLE s + 1 \<and> 0 < sint (NEXT_HANDLE s)
     \<and> (\<exists>e. KEYS_TABLE s' = (KEYS_TABLE s)(NEXT_HANDLE s \<mapsto> e))"

lemma conn_effect_same:
  "QUIC_CONN_TABLE s' = QUIC_CONN_TABLE s \<Longrightarrow> (\<And>e. QUIC_CONN_TABLE s k = Some e \<Longrightarrow> R e e) \<Longrightarrow> conn_effect k R s s'"
  unfolding conn_effect_def by (cases "QUIC_CONN_TABLE s k") (force simp: fun_upd_idem)+

lemma conn_effect_upd:
  "QUIC_CONN_TABLE s k = Some e \<Longrightarrow> QUIC_CONN_TABLE s' = (QUIC_CONN_TABLE s)(k \<mapsto> e') \<Longrightarrow> R e e' \<Longrightarrow> conn_effect k R s s'"
  by (auto simp: conn_effect_def)

lemma keys_effect_same:
  "NEXT_HANDLE s' = NEXT_HANDLE s \<Longrightarrow> KEYS_TABLE s' = KEYS_TABLE s \<Longrightarrow> keys_effect s s'"
  by (simp add: keys_effect_def)

lemma keys_effect_counter:
  "keys_effect s s' \<Longrightarrow> NEXT_HANDLE s' = NEXT_HANDLE s \<or> NEXT_HANDLE s' = snd (next_handle (NEXT_HANDLE s))"
  unfolding keys_effect_def by (auto simp: next_handle_pos next_handle_nonpos)

lemma tables_ok_effect:
  assumes "tables_ok s" "conn_effect k R s s'" "keys_effect s s'" "unexhausted s'"
  shows "tables_ok s'"
proof -
  have ok: "handles_below (NEXT_HANDLE s) (QUIC_CONN_TABLE s')"
    using assms(1,2) by (auto simp: tables_ok_def conn_effect_def handles_below_replace split: option.splits)
  consider "NEXT_HANDLE s' = NEXT_HANDLE s" "KEYS_TABLE s' = KEYS_TABLE s"
    | e where "NEXT_HANDLE s' = NEXT_HANDLE s + 1" "0 < sint (NEXT_HANDLE s)"
        "KEYS_TABLE s' = (KEYS_TABLE s)(NEXT_HANDLE s \<mapsto> e)"
    using assms(3,4) unfolding keys_effect_def unexhausted_def by blast
  then show ?thesis
    using ok assms(1) by cases (auto simp: tables_ok_def handles_below_step)
qed

text \<open>What the invariant of \<open>h\<close> needs of a call with such an effect.\<close>

lemma hs_inv_effect:
  assumes "hs_inv h (g, s)" "conn_effect k R s s'" "keys_effect s s'" "unexhausted s'"
    and "k \<noteq> h \<Longrightarrow> g' = g"
    and "\<And>e e'. k = h \<Longrightarrow> R e e' \<Longrightarrow> QUIC_CONN_TABLE s h = Some e \<Longrightarrow>
      capture_inv (log_fed g) e \<Longrightarrow> keys_inv g e \<Longrightarrow> capture_inv (log_fed g') e' \<and> keys_inv g' e'"
  shows "hs_inv h (g', s')"
proof -
  have "tables_ok s'"
    using assms(1) by (intro tables_ok_effect [OF _ assms(2,3,4)]) simp
  moreover obtain e where e: "QUIC_CONN_TABLE s h = Some e" "capture_inv (log_fed g) e" "keys_inv g e"
    using assms(1) by (auto split: option.splits)
  moreover have "\<exists>e'. QUIC_CONN_TABLE s' h = Some e' \<and> capture_inv (log_fed g') e' \<and> keys_inv g' e'"
  proof (cases "k = h")
    case True
    then obtain e' where "QUIC_CONN_TABLE s' h = Some e'" "R e e'"
      using assms(2) e by (auto simp: conn_effect_def)
    then show ?thesis using assms(6) True e by blast
  next
    case False
    then have "QUIC_CONN_TABLE s' h = QUIC_CONN_TABLE s h"
      using assms(2) by (auto simp: conn_effect_def split: option.splits)
    then show ?thesis using assms(5) False e by simp
  qed
  ultimately show ?thesis by auto
qed

text \<open>What the queries and the key hand-over leave of a connection entry.\<close>

definition same_capture :: "('cc, 'sc, 'sec) QuicConnEntry \<Rightarrow> ('cc, 'sc, 'sec) QuicConnEntry \<Rightarrow> bool" where
  "same_capture e e' \<longleftrightarrow>
     is_server (qc_conn e') = is_server (qc_conn e)
   \<and> qc_first_ch_prefix e' = qc_first_ch_prefix e \<and> qc_first_ch_prefix_len e' = qc_first_ch_prefix_len e
   \<and> qc_client_random_captured e' = qc_client_random_captured e \<and> qc_client_random e' = qc_client_random e"

lemma same_capture_inv: "same_capture e e' \<Longrightarrow> capture_inv fed e' \<longleftrightarrow> capture_inv fed e"
  by (simp add: same_capture_def capture_inv_def)

lemmas effect_intros = conn_effect_same conn_effect_upd keys_effect_same

lemma read_hs_slice:
  assumes "(if len = 0 then Ret [] else from_raw_parts data (usize_of_i32 len)) = Ret fed" "0 \<le> sint len"
  shows "fed = (case data of Null \<Rightarrow> [] | Ptr d \<Rightarrow> take (nat (sint len)) d)"
  using assms
  by (cases data) (auto simp: from_raw_parts_def usize_of_i32_nonneg split: if_splits)

lemma read_hs_effect:
  assumes call: "rlsm_quic_conn_read_hs api l m k data len p q s = Ret (r, s')"
    and fed: "fed = (case data of Null \<Rightarrow> [] | Ptr d \<Rightarrow> take (nat (sint len)) d)"
  shows "conn_effect k (\<lambda>e e'. fed = [] \<and> e' = e \<or> e' = snd (read_hs_entry api fed e)) s s' \<and> keys_effect s s'"
proof (cases "is_null data \<and> 0 < sint len \<or> sint len < 0")
  case True
  moreover have "fed = []"
    using True fed by (cases data) auto
  ultimately show ?thesis
    using call by (auto simp: rlsm_quic_conn_read_hs_def Let_def rlsm_err_def intro!: effect_intros split: if_splits)
next
  case False
  then obtain x where x: "(if len = 0 then Ret [] else from_raw_parts data (usize_of_i32 len)) = Ret x"
    using call by (auto simp: rlsm_quic_conn_read_hs_def Let_def split del: if_split)
  moreover have "x = fed"
    using read_hs_slice [OF x] False fed by simp
  ultimately have x: "(if len = 0 then Ret [] else from_raw_parts data (usize_of_i32 len)) = Ret fed"
    by simp
  show ?thesis
  proof (cases "QUIC_CONN_TABLE s k")
    case None
    then show ?thesis
      using call False x by (auto simp: rlsm_quic_conn_read_hs_def Let_def rlsm_err_def intro!: effect_intros)
  next
    case (Some e)
    then have "QUIC_CONN_TABLE s' = (QUIC_CONN_TABLE s)(k \<mapsto> snd (read_hs_entry api fed e))
        \<and> NEXT_HANDLE s' = NEXT_HANDLE s \<and> KEYS_TABLE s' = KEYS_TABLE s"
      using call False x
      by (auto simp: rlsm_quic_conn_read_hs_def Let_def rlsm_err_def case_prod_beta split: option.splits)
    with Some show ?thesis
      by (intro conjI conn_effect_upd [OF Some] keys_effect_same) auto
  qed
qed

lemma pending_entries_None: "qc_pending e = None \<Longrightarrow> pending_entries e = []"
  by (simp add: pending_entries_def)

lemma conn_write_hs_server: "conn_write_hs api c = (v, kc, c') \<Longrightarrow> is_server c' = is_server c"
  by (cases c) (auto simp: is_server_def split: prod.splits)

lemma conn_read_hs_server: "conn_read_hs api d c = (v, c') \<Longrightarrow> is_server c' = is_server c"
  by (cases c) (auto simp: is_server_def map_prod_def split: prod.splits)

lemma write_hs_effect:
  assumes call: "rlsm_quic_conn_write_hs api k buf cap w t s = Ret ((r, out), s')"
  shows "conn_effect k (\<lambda>e e'. r \<noteq> 0 \<and> e' = e
       \<or> pending_entries e = [] \<and> same_capture e e'
         \<and> pending_entries e' = (if r = 0 then change_entries (fst (snd (conn_write_hs api (qc_conn e)))) else []))
       s s' \<and> keys_effect s s'"
proof (cases "is_null buf \<or> is_null w \<or> is_null t \<or> sint cap < 0 \<or> QUIC_CONN_TABLE s k = None
    \<or> (\<exists>e. QUIC_CONN_TABLE s k = Some e \<and> qc_pending e \<noteq> None)")
  case True
  then show ?thesis
    using call by (auto simp: rlsm_quic_conn_write_hs_def Let_def rlsm_err_def intro!: effect_intros split: if_splits option.splits)
next
  case False
  then obtain e where e: "QUIC_CONN_TABLE s k = Some e" "qc_pending e = None"
    by (cases "QUIC_CONN_TABLE s k") blast+
  obtain v kc c where c: "conn_write_hs api (qc_conn e) = (v, kc, c)"
    by (metis prod_cases3)
  let ?e = "if r \<noteq> 0 then e\<lparr>qc_conn := c\<rparr>
    else (case kc of None \<Rightarrow> e\<lparr>qc_conn := c\<rparr>
          | Some (KeyChange_Handshake ks) \<Rightarrow> e\<lparr>qc_conn := c, qc_pending := Some (1, ks)\<rparr>
          | Some (KeyChange_OneRtt ks n) \<Rightarrow>
              e\<lparr>qc_conn := c, qc_pending := Some (2, ks), qc_next_secrets := Some n\<rparr>)"
  have "QUIC_CONN_TABLE s' = (QUIC_CONN_TABLE s)(k \<mapsto> ?e) \<and> NEXT_HANDLE s' = NEXT_HANDLE s \<and> KEYS_TABLE s' = KEYS_TABLE s"
    using call False e c
    by (auto simp: rlsm_quic_conn_write_hs_def Let_def rlsm_err_def split: if_splits option.splits KeyChange.splits)
  moreover have "same_capture e ?e \<and> pending_entries ?e = (if r = 0 then change_entries kc else [])"
    using e conn_write_hs_server [OF c]
    by (auto simp: same_capture_def pending_entries_def split: option.splits KeyChange.splits)
  ultimately show ?thesis
    using e c by (auto intro!: conn_effect_upd [OF e(1)] keys_effect_same simp: pending_entries_None)
qed

lemma take_keys_effect:
  assumes call: "rlsm_quic_conn_take_keys k out s = Ret ((r, out'), s')"
  shows "conn_effect k (\<lambda>e e'. e' = e \<and> r \<noteq> 0 \<and> out = Null
       \<or> same_capture e e' \<and> pending_entries e' = []
         \<and> (unexhausted s' \<longrightarrow>
             (r = 0 \<longleftrightarrow> pending_entries e \<noteq> [])
             \<and> (r = 0 \<longrightarrow> (\<exists>kh x. out' = Ptr kh \<and> KEYS_TABLE s' kh = Some x \<and> pending_entries e = [x])))) s s'
     \<and> keys_effect s s'"
proof (cases "is_null out \<or> QUIC_CONN_TABLE s k = None")
  case True
  then show ?thesis
    using call by (auto simp: rlsm_quic_conn_take_keys_def Let_def rlsm_err_def is_null_iff intro!: effect_intros split: if_splits)
next
  case False
  then obtain e where e: "QUIC_CONN_TABLE s k = Some e"
    by blast
  let ?s = "(clear_last_error s)\<lparr>QUIC_CONN_TABLE := (QUIC_CONN_TABLE s)(k \<mapsto> e\<lparr>qc_pending := None\<rparr>)\<rparr>"
  show ?thesis
  proof (cases "qc_pending e")
    case None
    then show ?thesis
      using call False e
      by (auto simp: rlsm_quic_conn_take_keys_def Let_def rlsm_err_def same_capture_def pending_entries_def
          intro!: conn_effect_upd [OF e] keys_effect_same)
  next
    case (Some p)
    obtain kind ks where p: "p = (kind, ks)" by (cases p)
    obtain kh s2 where ins: "keys_table_insert (entry_of_keys ks) ?s = (kh, s2)"
      by (metis surj_pair)
    have "s' = (if kh = None then set_last_error ''rlsm_quic_conn_take_keys: KEYS_TABLE handle counter exhausted'' s2 else s2)"
      and "r = (if kh = None then -1 else 0)" and "kh \<noteq> None \<Longrightarrow> out' = Ptr (the kh)"
      using call False e Some p ins
      by (auto simp: rlsm_quic_conn_take_keys_def Let_def rlsm_err_def entry_of_keys_def split: option.splits)
    with keys_table_insert_cases [OF ins] show ?thesis
      using Some p
      by (auto simp: keys_effect_def same_capture_def pending_entries_def unexhausted_def
          intro!: conn_effect_upd [OF e])
  qed
qed

text \<open>The calls that only query a connection, and the one that frees it or makes a new one.\<close>

lemma take_next_keys_effect:
  assumes call: "rlsm_quic_conn_take_next_keys api k out s = Ret (r, s')"
  shows "conn_effect k (\<lambda>e e'. same_capture e e' \<and> qc_pending e' = qc_pending e) s s' \<and> keys_effect s s'"
proof (cases "is_null out \<or> QUIC_CONN_TABLE s k = None")
  case True
  then show ?thesis
    using call by (auto simp: rlsm_quic_conn_take_next_keys_def Let_def rlsm_err_def same_capture_def intro!: effect_intros split: if_splits)
next
  case False
  then obtain e where e: "QUIC_CONN_TABLE s k = Some e"
    by blast
  have "QUIC_CONN_TABLE s' = (QUIC_CONN_TABLE s)(k \<mapsto> e\<lparr>qc_next_secrets := None\<rparr>) \<and> keys_effect s s'"
    using call False e
    by (auto simp: rlsm_quic_conn_take_next_keys_def Let_def rlsm_err_def keys_effect_def
        split: option.splits prod.splits dest!: keys_table_insert_cases)
  then show ?thesis
    by (auto intro!: conn_effect_upd [OF e] simp: same_capture_def)
qed

lemma alert_effect:
  assumes "rlsm_quic_conn_alert k s = Ret (r, s')"
  shows "conn_effect k (\<lambda>e e'. same_capture e e' \<and> qc_pending e' = qc_pending e) s s' \<and> keys_effect s s'"
  using assms
  by (cases "QUIC_CONN_TABLE s k")
    (auto simp: rlsm_quic_conn_alert_def Let_def rlsm_err_def HandleTable_with_mut_def same_capture_def keys_effect_def conn_effect_def)

lemma reject_early_data_effect:
  assumes "rlsm_quic_server_conn_reject_early_data api k s = Ret (r, s')"
  shows "conn_effect k (\<lambda>e e'. same_capture e e' \<and> qc_pending e' = qc_pending e) s s' \<and> keys_effect s s'"
  using assms
  by (auto simp: rlsm_quic_server_conn_reject_early_data_def Let_def rlsm_err_def same_capture_def is_server_def
      intro: conn_effect_same conn_effect_upd keys_effect_same
      split: option.splits QuicConn.splits if_splits)

lemma zero_rtt_keys_effect:
  assumes "rlsm_quic_conn_zero_rtt_keys api k out s = Ret (r, s')"
  shows "QUIC_CONN_TABLE s' = QUIC_CONN_TABLE s \<and> keys_effect s s'"
  using assms
  by (auto simp: rlsm_quic_conn_zero_rtt_keys_def Let_def rlsm_err_def keys_effect_def
      split: option.splits QuicConn.splits if_splits prod.splits dest!: keys_table_insert_cases)

lemma server_zero_rtt_keys_effect:
  assumes "rlsm_quic_server_conn_zero_rtt_keys api k out s = Ret (r, s')"
  shows "QUIC_CONN_TABLE s' = QUIC_CONN_TABLE s \<and> keys_effect s s'"
  using assms
  by (auto simp: rlsm_quic_server_conn_zero_rtt_keys_def Let_def rlsm_err_def keys_effect_def
      split: option.splits QuicConn.splits if_splits prod.splits dest!: keys_table_insert_cases)

text \<open>A connection constructor fails and leaves the tables, or inserts a fresh entry.\<close>

definition new_conn_result ::
  "('c \<Rightarrow> ('cc, 'sc) QuicConn) \<Rightarrow> ('r, 'cert, 'key, 't, 'cc, 'sc, 'sec) hs_shim \<Rightarrow>
   (i32 \<times> i32 ptr) \<times> ('r, 'cert, 'key, 't, 'cc, 'sc, 'sec) hs_shim \<Rightarrow> bool" where
  "new_conn_result mk s res \<longleftrightarrow>
     (\<exists>m. snd res = set_last_error m (clear_last_error s)) \<and> fst (fst res) = -1
   \<or> (\<exists>c kh s2. quic_conn_insert (new_entry (mk c)) (clear_last_error s) = (kh, s2)
        \<and> (if kh = None then (\<exists>m. snd res = set_last_error m s2) \<and> fst (fst res) = -1
           else snd res = s2 \<and> fst res = (0, Ptr (the kh))))"

lemma new_conn_result_simps:
  "new_conn_result mk s ((-1, p), set_last_error m (clear_last_error s))"
  "quic_conn_insert (new_entry (mk c)) (clear_last_error s) = (Some h, s2) \<Longrightarrow> new_conn_result mk s ((0, Ptr h), s2)"
  "quic_conn_insert (new_entry (mk c)) (clear_last_error s) = (None, s2) \<Longrightarrow>
   new_conn_result mk s ((-1, p), set_last_error m s2)"
  by (force simp: new_conn_result_def)+

lemma server_conn_new_result:
  "when_ret (new_conn_result QuicConn_Server s) (rlsm_quic_server_conn_new napi cfg v tp tpl out s)"
  unfolding rlsm_quic_server_conn_new_def Let_def
  by (auto simp: new_conn_result_simps rlsm_err_def split: sum.split option.split prod.split intro!: when_ret_obind)

lemma client_conn_new_result:
  "when_ret (new_conn_result QuicConn_Client s) (rlsm_quic_client_conn_new napi cfg v n nl tp tpl out s)"
  unfolding rlsm_quic_client_conn_new_def Let_def
  by (auto simp: new_conn_result_simps rlsm_err_def split: sum.split option.split prod.split intro!: when_ret_obind)

lemma conn_insert_inv:
  assumes "hs_inv h (g, s)" "quic_conn_insert e (clear_last_error s) = (kh, s2)"
    and "s' = s2 \<or> (\<exists>m. s' = set_last_error m s2)" "unexhausted s'"
  shows "hs_inv h (g, s')"
proof -
  have c: "NEXT_HANDLE s' = NEXT_HANDLE s + 1" "0 < sint (NEXT_HANDLE s)"
      "QUIC_CONN_TABLE s' = (QUIC_CONN_TABLE s)(NEXT_HANDLE s \<mapsto> e)" "KEYS_TABLE s' = KEYS_TABLE s"
    using quic_conn_insert_cases [OF assms(2)] assms(3,4) by (auto simp: unexhausted_def)
  have "handles_below (NEXT_HANDLE s) (QUIC_CONN_TABLE s)" "QUIC_CONN_TABLE s h \<noteq> None"
    using assms(1) by (auto simp: tables_ok_def split: option.splits)
  then have "h \<noteq> NEXT_HANDLE s"
    using c(2) handles_below_fresh by metis
  then show ?thesis
    using assms(1) c by (simp add: tables_ok_def handles_below_step)
qed

section \<open>Lemmas: the captured prefix\<close>

lemma hello_random_append:
  "38 \<le> length fed \<Longrightarrow> hello_random (fed @ d) = hello_random fed"
  by (auto simp: hello_random_def nth_append)

lemma hello_random_take:
  "38 \<le> length fed \<Longrightarrow>
   hello_random fed = (if take 38 fed ! 0 = 1 then Some (take 32 (drop 6 (take 38 fed))) else None)"
  by (simp add: hello_random_def drop_take)

lemma capture_prefix_idle:
  assumes inv: "capture_inv fed e" and idle: "d = [] \<or> 38 \<le> length fed"
  shows "capture_prefix d e = e" "capture_inv (fed @ d) e"
proof -
  have "d = [] \<or> unat (qc_first_ch_prefix_len e) = 38"
    using inv idle by (auto simp: capture_inv_def)
  then show "capture_prefix d e = e"
    unfolding capture_prefix_def Let_def [of "unat (qc_first_ch_prefix_len e)"] by (elim disjE) simp_all
  have "hello_random (fed @ d) = hello_random fed" "take 38 (fed @ d) = take 38 fed"
    "min 38 (length (fed @ d)) = min 38 (length fed)"
    using idle by (auto simp: hello_random_append)
  then show "capture_inv (fed @ d) e"
    using inv unfolding capture_inv_def by presburger
qed

text \<open>The prefix after a fragment: the bytes received so far, up to 38.\<close>

lemma capture_prefix_fragment:
  assumes inv: "capture_inv fed e" and "d \<noteq> []" "length fed < 38"
  obtains q where "length q = 38" "take (min 38 (length (fed @ d))) q = take 38 (fed @ d)"
    "capture_prefix d e =
      (let e1 = e\<lparr>qc_first_ch_prefix := q, qc_first_ch_prefix_len := word_of_nat (min 38 (length (fed @ d)))\<rparr> in
       if 38 \<le> length (fed @ d) \<and> q ! 0 = 1
       then e1\<lparr>qc_client_random := take 32 (drop 6 q), qc_client_random_captured := True\<rparr> else e1)"
proof -
  let ?n = "length fed" and ?p = "qc_first_ch_prefix e"
  define tk where "tk = min (38 - ?n) (length d)"
  define q where "q = take ?n ?p @ take tk d @ drop (?n + tk) ?p"
  have e: "is_server (qc_conn e)" "length ?p = 38" "unat (qc_first_ch_prefix_len e) = ?n" "take ?n ?p = fed"
    "\<not> qc_client_random_captured e"
    using inv assms(3) by (auto simp: capture_inv_def hello_random_def split: if_splits)
  have len: "?n + tk = min 38 (length (fed @ d))"
    using assms(3) unfolding tk_def length_append by linarith
  have q: "length q = 38"
    using e len assms(3) by (simp add: q_def)
  have tq: "take (?n + tk) q = take 38 (fed @ d)"
    using assms(3) e by (auto simp: q_def tk_def min_def)
  have full: "(word_of_nat (?n + tk) :: byte) = 38 \<longleftrightarrow> 38 \<le> length (fed @ d)"
  proof -
    have "(word_of_nat (?n + tk) :: byte) = 38 \<longleftrightarrow> unat (word_of_nat (?n + tk) :: byte) = 38"
      by (simp add: word_unat_eq_iff)
    also have "\<dots> \<longleftrightarrow> 38 \<le> length (fed @ d)"
      unfolding len by (subst unat_byte_of_nat) auto
    finally show ?thesis .
  qed
  define e1 where "e1 = e\<lparr>qc_first_ch_prefix := q, qc_first_ch_prefix_len := word_of_nat (?n + tk)\<rparr>"
  have sv: "(case qc_conn e of QuicConn_Server _ \<Rightarrow> True | _ \<Rightarrow> False) = True"
    using e(1) by (simp add: is_server_def split: QuicConn.splits)
  have "capture_prefix d e =
    (if qc_first_ch_prefix_len e1 = 38 then
       if qc_first_ch_prefix e1 ! 0 = 1
       then e1\<lparr>qc_client_random := take 32 (drop 6 (qc_first_ch_prefix e1)), qc_client_random_captured := True\<rparr> else e1
     else e1)"
    using assms(2,3) e(5)
    by (simp only: capture_prefix_def Let_def sv e(3) simp_thms if_True e1_def q_def tk_def not_False_eq_True)
  also have "\<dots> = (if 38 \<le> length (fed @ d) \<and> q ! 0 = 1
     then e1\<lparr>qc_client_random := take 32 (drop 6 q), qc_client_random_captured := True\<rparr> else e1)"
    using full unfolding e1_def by simp
  finally have "capture_prefix d e =
    (let e1 = e\<lparr>qc_first_ch_prefix := q, qc_first_ch_prefix_len := word_of_nat (?n + tk)\<rparr> in
     if 38 \<le> length (fed @ d) \<and> q ! 0 = 1
     then e1\<lparr>qc_client_random := take 32 (drop 6 q), qc_client_random_captured := True\<rparr> else e1)"
    unfolding e1_def Let_def .
  then show ?thesis
    using that [of q] q tq unfolding len by blast
qed

lemma capture_prefix_inv:
  assumes inv: "capture_inv fed e"
  shows "capture_inv (fed @ d) (capture_prefix d e)"
proof (cases "d = [] \<or> 38 \<le> length fed")
  case True
  then show ?thesis
    using capture_prefix_idle [OF inv True] by simp
next
  case False
  define n where "n = min 38 (length (fed @ d))"
  have "d \<noteq> []" "length fed < 38"
    using False by auto
  from capture_prefix_fragment [OF inv this] obtain q
    where q: "length q = 38" "take n q = take 38 (fed @ d)"
      and cp: "capture_prefix d e =
      (let e1 = e\<lparr>qc_first_ch_prefix := q, qc_first_ch_prefix_len := word_of_nat n\<rparr> in
       if 38 \<le> length (fed @ d) \<and> q ! 0 = 1
       then e1\<lparr>qc_client_random := take 32 (drop 6 q), qc_client_random_captured := True\<rparr> else e1)"
    unfolding n_def by blast
  have e: "is_server (qc_conn e)" "\<not> qc_client_random_captured e" "unat (word_of_nat n :: byte) = n"
    using inv False by (auto simp: capture_inv_def hello_random_def n_def unat_byte_of_nat split: if_splits)
  show ?thesis
  proof (cases "38 \<le> length (fed @ d)")
    case True
    then have "q = take 38 (fed @ d)"
      using q by (simp add: n_def)
    then have "hello_random (fed @ d) = (if q ! 0 = 1 then Some (take 32 (drop 6 q)) else None)"
      using hello_random_take [OF True] by (simp only:)
    then show ?thesis
      using e q True unfolding capture_inv_def n_def [symmetric] cp Let_def by (simp del: length_append)
  next
    case False
    then have "hello_random (fed @ d) = None"
      by (simp add: hello_random_def)
    then show ?thesis
      using e q False unfolding capture_inv_def n_def [symmetric] cp Let_def by (simp del: length_append)
  qed
qed

lemma read_hs_entry_inv:
  assumes "capture_inv fed e"
  shows "capture_inv (fed @ d) (snd (read_hs_entry api d e))"
proof -
  obtain r c where c: "conn_read_hs api d (qc_conn (capture_prefix d e)) = (r, c)"
    by (metis surj_pair)
  have "same_capture (capture_prefix d e) (snd (read_hs_entry api d e))"
    using conn_read_hs_server [OF c] c
    by (simp add: read_hs_entry_def Let_def same_capture_def split: sum.splits)
  then show "capture_inv (fed @ d) (snd (read_hs_entry api d e))"
    using capture_prefix_inv [OF assms] same_capture_inv by blast
qed

lemma read_hs_entry_pending: "pending_entries (snd (read_hs_entry api d e)) = pending_entries e"
proof -
  obtain r c where "conn_read_hs api d (qc_conn (capture_prefix d e)) = (r, c)"
    by (metis surj_pair)
  moreover have "qc_pending (capture_prefix d e) = qc_pending e"
    by (simp add: capture_prefix_def Let_def)
  ultimately show ?thesis
    by (simp add: read_hs_entry_def Let_def pending_entries_def split: sum.splits)
qed

section \<open>Lemmas: histories\<close>

lemma query_step:
  assumes "hs_inv h (g, s)" "unexhausted s'"
    and eff: "conn_effect k (\<lambda>e e'. same_capture e e' \<and> qc_pending e' = qc_pending e) s s' \<and> keys_effect s s'"
  shows "hs_inv h (g, s')"
  by (intro hs_inv_effect [OF assms(1) conjunct1 [OF eff] conjunct2 [OF eff] assms(2)])
    (auto simp: same_capture_inv keys_inv_def pending_entries_def)

lemma same_table_step:
  assumes "hs_inv h (g, s)" "unexhausted s'"
    and "QUIC_CONN_TABLE s' = QUIC_CONN_TABLE s \<and> keys_effect s s'"
  shows "hs_inv h (g, s')"
proof (rule query_step [OF assms(1,2)], rule conjI)
  show "conn_effect h (\<lambda>e e'. same_capture e e' \<and> qc_pending e' = qc_pending e) s s'"
    using assms(3) by (intro conn_effect_same) (simp_all add: same_capture_def)
qed (use assms(3) in simp)

lemma read_step:
  assumes "hs_inv h (g, s)" "unexhausted s'" "rlsm_quic_conn_read_hs api l m k data len p q s = Ret (r, s')"
    and "fed = (case data of Null \<Rightarrow> [] | Ptr d \<Rightarrow> take (nat (sint len)) d)"
  shows "hs_inv h (if k = h then g\<lparr>log_fed := log_fed g @ fed\<rparr> else g, s')"
proof -
  note eff = read_hs_effect [OF assms(3,4)]
  show ?thesis
    using read_hs_entry_inv
    by (intro hs_inv_effect [OF assms(1) conjunct1 [OF eff] conjunct2 [OF eff] assms(2)])
      (auto simp: keys_inv_def read_hs_entry_pending)
qed

lemma write_step:
  assumes "hs_inv h (g, s)" "unexhausted s'" "rlsm_quic_conn_write_hs api k buf cap w t s = Ret ((r, out), s')"
  shows "hs_inv h (if k = h \<and> r = 0 then g\<lparr>log_reported := log_reported g @ next_change api h s\<rparr> else g, s')"
proof -
  note eff = write_hs_effect [OF assms(3)]
  show ?thesis
    by (intro hs_inv_effect [OF assms(1) conjunct1 [OF eff] conjunct2 [OF eff] assms(2)])
      (auto simp: keys_inv_def next_change_def same_capture_inv)
qed

lemma take_step:
  assumes "hs_inv h (g, s)" "unexhausted s'" "rlsm_quic_conn_take_keys k out s = Ret ((r, out'), s')"
    and "taken = (case out' of Ptr kh \<Rightarrow> (case KEYS_TABLE s' kh of Some e \<Rightarrow> [e] | None \<Rightarrow> []) | Null \<Rightarrow> [])"
  shows "hs_inv h (if k = h \<and> r = 0 then g\<lparr>log_taken := log_taken g @ taken\<rparr> else g, s')"
proof -
  note eff = take_keys_effect [OF assms(3)]
  show ?thesis
    using assms(2,4)
    by (intro hs_inv_effect [OF assms(1) conjunct1 [OF eff] conjunct2 [OF eff] assms(2)])
      (auto simp: keys_inv_def same_capture_inv)
qed

lemma free_step:
  assumes "hs_inv h (g, s)" "k \<noteq> h" "rlsm_quic_conn_free k s = Ret (r, s')"
  shows "hs_inv h (g, s')"
  using assms
  by (auto simp: rlsm_quic_conn_free_def Let_def rlsm_err_def HandleTable_remove_def tables_ok_def
      handles_below_remove split: option.splits)

lemma other_step:
  assumes "hs_inv h (g, s)" "unexhausted s'" "QUIC_CONN_TABLE s' = QUIC_CONN_TABLE s"
    and c: "NEXT_HANDLE s' = NEXT_HANDLE s \<or> NEXT_HANDLE s' = snd (next_handle (NEXT_HANDLE s))"
    and "tables_ok s \<longrightarrow> handles_below (NEXT_HANDLE s') (KEYS_TABLE s')"
  shows "hs_inv h (g, s')"
proof -
  have "unexhausted s"
    using assms(2) c by (rule unexhausted_back)
  then show ?thesis
    using assms c by (auto simp: tables_ok_def unexhausted_def next_handle_pos handles_below_step)
qed

lemma new_conn_result_cases:
  assumes "new_conn_result mk s (r, s')"
  obtains m where "s' = set_last_error m (clear_last_error s)"
  | c kh s2 where "quic_conn_insert (new_entry (mk c)) (clear_last_error s) = (kh, s2)"
      "s' = s2 \<or> (\<exists>m. s' = set_last_error m s2)"
  using assms unfolding new_conn_result_def by (metis (no_types) snd_conv)

lemma new_step:
  assumes "hs_inv h (g, s)" "unexhausted s'" "new_conn_result mk s (r, s')"
  shows "hs_inv h (g, s')"
  using assms(3)
proof (cases rule: new_conn_result_cases)
  case (1 m)
  then show ?thesis
    by (intro same_table_step [OF assms(1,2)]) (simp add: keys_effect_def)
next
  case (2 c kh s2)
  then show ?thesis
    by (intro conn_insert_inv [OF assms(1) _ _ assms(2)])
qed

lemma new_conn_counter:
  assumes "new_conn_result mk s (r, s')"
  shows "NEXT_HANDLE s' = NEXT_HANDLE s \<or> NEXT_HANDLE s' = snd (next_handle (NEXT_HANDLE s))"
  using assms
  by (cases rule: new_conn_result_cases)
    (auto dest!: quic_conn_insert_cases simp: next_handle_pos next_handle_nonpos)

lemma hs_step_counter:
  "hs_step api napi h x y \<Longrightarrow>
   NEXT_HANDLE (snd y) = NEXT_HANDLE (snd x) \<or> NEXT_HANDLE (snd y) = snd (next_handle (NEXT_HANDLE (snd x)))"
proof (induction rule: hs_step.induct)
  case (client_conn_new cfg v n nl tp tpl out s r s' g)
  then show ?case
    using client_conn_new_result [of s napi cfg v n nl tp tpl out] new_conn_counter by fastforce
next
  case (server_conn_new cfg v tp tpl out s r s' g)
  then show ?case
    using server_conn_new_result [of s napi cfg v tp tpl out] new_conn_counter by fastforce
next
  case (conn_free k s r s' g)
  then show ?case
    by (auto simp: rlsm_quic_conn_free_def Let_def rlsm_err_def HandleTable_remove_def split: option.splits)
qed (use read_hs_effect write_hs_effect take_keys_effect take_next_keys_effect alert_effect zero_rtt_keys_effect
    server_zero_rtt_keys_effect reject_early_data_effect keys_effect_counter in \<open>fastforce\<close>)+

lemma hs_step_inv:
  assumes "hs_step api napi h x y" "hs_inv h x" "unexhausted (snd y)"
  shows "hs_inv h y"
  using assms
proof (induction rule: hs_step.induct)
  case (read_hs l m k data len p q s r s' fed g)
  show ?case by (rule read_step [OF read_hs(3) read_hs(4) [unfolded snd_conv] read_hs(1,2)])
next
  case (write_hs k buf cap w t s r out s' g)
  show ?case by (rule write_step [OF write_hs(2) write_hs(3) [unfolded snd_conv] write_hs(1)])
next
  case (take_keys k out s r out' s' taken g)
  show ?case by (rule take_step [OF take_keys(3) take_keys(4) [unfolded snd_conv] take_keys(1,2)])
next
  case (take_next_keys k out s r s' g)
  show ?case by (rule query_step [OF take_next_keys(2) take_next_keys(3) [unfolded snd_conv] take_next_keys_effect [OF take_next_keys(1)]])
next
  case (alert k s r s' g)
  show ?case by (rule query_step [OF alert(2) alert(3) [unfolded snd_conv] alert_effect [OF alert(1)]])
next
  case (zero_rtt_keys k out s r s' g)
  show ?case by (rule same_table_step [OF zero_rtt_keys(2) zero_rtt_keys(3) [unfolded snd_conv] zero_rtt_keys_effect [OF zero_rtt_keys(1)]])
next
  case (server_zero_rtt_keys k out s r s' g)
  show ?case
    by (rule same_table_step [OF server_zero_rtt_keys(2) server_zero_rtt_keys(3) [unfolded snd_conv]
          server_zero_rtt_keys_effect [OF server_zero_rtt_keys(1)]])
next
  case (reject_early_data k s r s' g)
  show ?case
    by (rule query_step [OF reject_early_data(2) reject_early_data(3) [unfolded snd_conv]
          reject_early_data_effect [OF reject_early_data(1)]])
next
  case (client_conn_new cfg v n nl tp tpl out s r s' g)
  have "new_conn_result QuicConn_Client s (r, s')"
    using client_conn_new_result [of s napi cfg v n nl tp tpl out] client_conn_new(1) by simp
  then show ?case by (rule new_step [OF client_conn_new(2) client_conn_new(3) [unfolded snd_conv]])
next
  case (server_conn_new cfg v tp tpl out s r s' g)
  have "new_conn_result QuicConn_Server s (r, s')"
    using server_conn_new_result [of s napi cfg v tp tpl out] server_conn_new(1) by simp
  then show ?case by (rule new_step [OF server_conn_new(2) server_conn_new(3) [unfolded snd_conv]])
next
  case (conn_free k s r s' g)
  show ?case by (rule free_step [OF conn_free(3,1,2)])
next
  case (other s' s g)
  show ?case by (rule other_step [OF other(4) other(5) [unfolded snd_conv] other(1,2,3)])
qed

lemma hs_run_inv:
  "(hs_step api napi h)\<^sup>*\<^sup>* x y \<Longrightarrow> hs_inv h x \<Longrightarrow> unexhausted (snd y) \<Longrightarrow> hs_inv h y"
proof (induction rule: rtranclp_induct)
  case base
  then show ?case by simp
next
  case (step y z)
  have "unexhausted (snd y)"
    using step.prems(2) hs_step_counter [OF step.hyps(2)] by (rule unexhausted_back)
  then show ?case
    using step by (intro hs_step_inv [OF step.hyps(2)])
qed

text \<open>A server connection starts with an empty log.\<close>

lemma server_conn_new_inv:
  assumes ok: "tables_ok s" and call: "rlsm_quic_server_conn_new napi cfg v tp tpl out s = Ret ((0, Ptr h), s')"
  shows "hs_inv h (log_init, s')"
proof -
  have "new_conn_result QuicConn_Server s ((0, Ptr h), s')"
    using server_conn_new_result [of s napi cfg v tp tpl out] call by simp
  then obtain c where "quic_conn_insert (new_entry (QuicConn_Server c)) (clear_last_error s) = (Some h, s')"
    by (auto simp: new_conn_result_def split: if_splits)
  from quic_conn_insert_cases [OF this]
  have "h = NEXT_HANDLE s" "0 < sint (NEXT_HANDLE s)" "NEXT_HANDLE s' = NEXT_HANDLE s + 1"
    "QUIC_CONN_TABLE s' = (QUIC_CONN_TABLE s)(NEXT_HANDLE s \<mapsto> new_entry (QuicConn_Server c))"
    "KEYS_TABLE s' = KEYS_TABLE s"
    by auto
  then show ?thesis
    using ok by (simp add: tables_ok_def handles_below_step capture_inv_def keys_inv_def new_entry_def log_init_def
        hello_random_def is_server_def pending_entries_def)
qed

lemma hs_inv_run_new:
  assumes "tables_ok s" "rlsm_quic_server_conn_new napi cfg v tp tpl out s = Ret ((0, Ptr h), s0)"
    and "(hs_step api napi h)\<^sup>*\<^sup>* (log_init, s0) (g, s1)" "unexhausted s1"
  obtains e where "QUIC_CONN_TABLE s1 h = Some e" "capture_inv (log_fed g) e"
    "log_reported g = log_taken g @ pending_entries e" "tables_ok s1"
proof -
  have "hs_inv h (g, s1)"
    using hs_run_inv [OF assms(3) server_conn_new_inv [OF assms(1,2)]] assms(4) by simp
  then show ?thesis
    using that by (auto simp: keys_inv_def split: option.splits)
qed

lemma hello_random_length: "hello_random fed = Some rnd \<Longrightarrow> length rnd = 32"
  by (auto simp: hello_random_def split: if_splits)

lemma take_keys_nothing:
  "QUIC_CONN_TABLE s h = Some e \<Longrightarrow> qc_pending e = None \<Longrightarrow>
   \<exists>s'. rlsm_quic_conn_take_keys h (Ptr x) s = Ret ((-1, Ptr x), s') \<and> KEYS_TABLE s' = KEYS_TABLE s"
  by (simp add: rlsm_quic_conn_take_keys_def Let_def rlsm_err_def)

lemma take_keys_pending:
  assumes "QUIC_CONN_TABLE s h = Some e" "qc_pending e = Some (kind, ks)" "unexhausted s"
  shows "\<exists>s'. rlsm_quic_conn_take_keys h (Ptr x) s = Ret ((0, Ptr (NEXT_HANDLE s)), s')
    \<and> KEYS_TABLE s' = (KEYS_TABLE s)(NEXT_HANDLE s \<mapsto> entry_of_keys ks)"
  using assms
  by (simp add: rlsm_quic_conn_take_keys_def Let_def unexhausted_def keys_table_insert_def HandleTable_insert_pos
      entry_of_keys_def)

section \<open>Sample connections\<close>

text \<open>
  A TLS stack that reports one key change of each kind and keeps what it reads; every
  certificate, key and name is a unit value.
\<close>

definition sample_stack :: "(nat, unit) quic_conn_api" where
  "sample_stack =
     \<lparr>qa_write_hs = (\<lambda>c. ([22, 3], if c = 0 then Some (KeyChange_Handshake \<lparr>keys_local = sample_keys, keys_remote = sample_keys\<rparr>)
                                  else if c = 1 then Some (KeyChange_OneRtt \<lparr>keys_local = sample_keys, keys_remote = sample_keys\<rparr> ())
                                  else None, c + 1)),
      qa_read_hs = (\<lambda>d c. if d = [0] then (Inl ''bad message'', c) else (Inr (), c)),
      qa_alert = (\<lambda>c. None), qa_is_handshaking = (\<lambda>c. c < 2), qa_quic_transport_parameters = (\<lambda>c. Some [1, 2, 3]),
      qa_alpn_protocol = (\<lambda>c. None), qa_zero_rtt_keys = (\<lambda>c. Some sample_keys)\<rparr>"

definition sample_quic_api :: "(nat, nat, unit) quic_api" where
  "sample_quic_api =
     \<lparr>qa_client = sample_stack, qa_server = sample_stack, qa_next_packet_keys = (\<lambda>_. (sample_packet_key, sample_packet_key)),
      qa_handshake_kind = (\<lambda>c. Some HandshakeKind_Full), qa_is_early_data_accepted = (\<lambda>c. False),
      qa_reject_early_data = (\<lambda>c. if c < 2 then Ret c else Panic), qa_Error_General = (\<lambda>m. ''unexpected error: '' @ m)\<rparr>"

definition sample_server_config :: "(unit, unit, unit) quic_server_config" where
  "sample_server_config =
     \<lparr>sc_certs = [()], sc_key = (), sc_key_log = KeyLogFile, sc_alpn_protocols = [[104, 51]],
      qs_ticketer = NeverProducesTickets, qs_max_early_data_size = 0\<rparr>"

definition sample_new_api :: "(unit, unit, unit, unit, unit, nat, nat) quic_new_api" where
  "sample_new_api =
     \<lparr>q_TLS_SERVER_ROOTS = (), q_roots_empty = (), q_roots_add = (\<lambda>r c. Inr ()),
      q_client_builder_tls13 = (\<lambda>v. \<lparr>cc_verifier = v, cc_key_log = KeyLogFile, cc_resumption = Resumption_default, cc_alpn_protocols = []\<rparr>),
      q_pemfile_certs = (\<lambda>b. Inr [()]), q_pemfile_private_key = (\<lambda>b. Inr (Some ())),
      q_server_builder_tls13 = (\<lambda>c k. Inr sample_server_config), q_Ticketer_new = Inr (),
      q_server_name_try_from = (\<lambda>n. Inr ()), q_client_connection_new = (\<lambda>c v n t. Inr 0),
      q_server_connection_new = (\<lambda>c v t. Inr 0)\<rparr>"

definition sample_hs_shim :: "(unit, unit, unit, unit, nat, nat, unit) hs_shim" where
  "sample_hs_shim =
     \<lparr>LAST_ERROR = None, NEXT_HANDLE = 2, KEYS_TABLE = Map.empty, KEYS_FREE_COUNT = 0,
      QUIC_CLIENT_CFG_TABLE = Map.empty, QUIC_SERVER_CFG_TABLE = [1 \<mapsto> sample_server_config],
      QUIC_CONN_TABLE = Map.empty\<rparr>"

text \<open>The state after \<open>rlsm_quic_server_conn_new\<close> in \<open>sample_hs_shim\<close>, with handle 2.\<close>

definition sample_conn_shim :: "(unit, unit, unit, unit, nat, nat, unit) hs_shim" where
  "sample_conn_shim = sample_hs_shim\<lparr>NEXT_HANDLE := 3, QUIC_CONN_TABLE := [2 \<mapsto> new_entry (QuicConn_Server 0)]\<rparr>"

lemma sample_tables_ok: "tables_ok sample_hs_shim"
  by (simp add: tables_ok_def handles_below_def sample_hs_shim_def)

lemma sample_conn_new:
  "rlsm_quic_server_conn_new sample_new_api 1 1 Null 0 (Ptr 0) sample_hs_shim = Ret ((0, Ptr 2), sample_conn_shim)"
  by (simp add: rlsm_quic_server_conn_new_def Let_def clear_last_error_def sample_hs_shim_def to_quic_version_def
      sample_new_api_def quic_conn_insert_def HandleTable_insert_def next_handle_def sample_conn_shim_def)

section \<open>Properties\<close>

text \<open>
  C3. In every history of a server connection, whatever calls on this and other handles
  interleave and however the first flight is cut into CRYPTO fragments, the replay
  authenticator is bytes 6 to 38 of what the connection was fed when that begins as a
  ClientHello, and is reported as not yet available otherwise.
\<close>

theorem replay_authenticator_is_client_random:
  assumes "tables_ok s" "rlsm_quic_server_conn_new napi cfg v tp tpl out s = Ret ((0, Ptr h), s0)"
    and "(hs_step api napi h)\<^sup>*\<^sup>* (log_init, s0) (g, s1)" "unexhausted s1" and "32 \<le> length buf"
  shows "rlsm_quic_server_conn_replay_authenticator h (Ptr buf) (Ptr n) s1 =
    Ret (case hello_random (log_fed g) of
           None \<Rightarrow> (1, Ptr buf, Ptr 0)
         | Some rnd \<Rightarrow> (0, Ptr (rnd @ drop 32 buf), Ptr 32), clear_last_error s1)"
proof -
  obtain e where e: "QUIC_CONN_TABLE s1 h = Some e" and inv: "capture_inv (log_fed g) e"
    using hs_inv_run_new [OF assms(1-4)] by metis
  obtain c where c: "qc_conn e = QuicConn_Server c"
    using inv by (auto simp: capture_inv_def is_server_def split: QuicConn.splits)
  show ?thesis
  proof (cases "qc_client_random_captured e")
    case True
    then have "hello_random (log_fed g) = Some (qc_client_random e)"
      using inv by (simp add: capture_inv_def)
    then show ?thesis
      using e c True assms(5) hello_random_length [of "log_fed g" "qc_client_random e"]
      by (simp add: rlsm_quic_server_conn_replay_authenticator_def Let_def copy_nonoverlapping_Ptr)
  next
    case False
    then have "hello_random (log_fed g) = None"
      using inv by (simp add: capture_inv_def)
    then show ?thesis
      using e c False by (simp add: rlsm_quic_server_conn_replay_authenticator_def Let_def)
  qed
qed

text \<open>
  C4. In every history of a server connection, the key sets taken so far are the first ones
  reported, in order; the next \<open>take_keys\<close> moves the oldest one not yet taken into the
  keys table under a handle that was free, and fails when there is none.
\<close>

theorem handshake_keys_delivered:
  assumes "tables_ok s" "rlsm_quic_server_conn_new napi cfg v tp tpl out s = Ret ((0, Ptr h), s0)"
    and "(hs_step api napi h)\<^sup>*\<^sup>* (log_init, s0) (g, s1)" "unexhausted s1"
  shows "log_taken g = take (length (log_taken g)) (log_reported g)
    \<and> (if log_taken g = log_reported g then
         \<exists>s2. rlsm_quic_conn_take_keys h (Ptr x) s1 = Ret ((-1, Ptr x), s2) \<and> KEYS_TABLE s2 = KEYS_TABLE s1
       else \<exists>s2. rlsm_quic_conn_take_keys h (Ptr x) s1 = Ret ((0, Ptr (NEXT_HANDLE s1)), s2)
              \<and> KEYS_TABLE s1 (NEXT_HANDLE s1) = None
              \<and> KEYS_TABLE s2 = (KEYS_TABLE s1)(NEXT_HANDLE s1 \<mapsto> log_reported g ! length (log_taken g)))"
proof -
  obtain e where e: "QUIC_CONN_TABLE s1 h = Some e" and inv: "log_reported g = log_taken g @ pending_entries e"
    and ok: "tables_ok s1"
    using hs_inv_run_new [OF assms] by metis
  have fresh: "KEYS_TABLE s1 (NEXT_HANDLE s1) = None"
    using ok assms(4) by (simp add: tables_ok_def unexhausted_def handles_below_fresh)
  show ?thesis
  proof (cases "qc_pending e")
    case None
    then show ?thesis
      using take_keys_nothing [OF e None] inv by (simp add: pending_entries_def)
  next
    case (Some p)
    then obtain kind ks where p: "qc_pending e = Some (kind, ks)" by (cases p) simp
    then show ?thesis
      using take_keys_pending [OF e p assms(4)] inv fresh by (simp add: pending_entries_def)
  qed
qed

section \<open>Witnesses\<close>

lemma sample_read:
  assumes "QUIC_CONN_TABLE s 2 = Some e" "qc_conn e = QuicConn_Server c" "d \<noteq> [0]" "length d < 2 ^ 31" "d \<noteq> []"
  shows "\<exists>s' e'. hs_step sample_quic_api sample_new_api 2 (g, s) (g\<lparr>log_fed := log_fed g @ d\<rparr>, s')
    \<and> NEXT_HANDLE s' = NEXT_HANDLE s \<and> QUIC_CONN_TABLE s' 2 = Some e' \<and> qc_conn e' = QuicConn_Server c"
proof -
  let ?e = "snd (read_hs_entry sample_quic_api d e)"
  let ?s = "(clear_last_error s)\<lparr>QUIC_CONN_TABLE := (QUIC_CONN_TABLE s)(2 \<mapsto> ?e)\<rparr>"
  have c: "qc_conn (capture_prefix d e) = QuicConn_Server c"
    using assms(2) by (simp add: capture_prefix_def Let_def)
  have same: "(capture_prefix d e)\<lparr>qc_conn := QuicConn_Server c\<rparr> = capture_prefix d e"
    by (subst c [symmetric]) simp
  have e: "read_hs_entry sample_quic_api d e = (None, capture_prefix d e)"
    using c assms(3) by (simp add: read_hs_entry_def Let_def sample_quic_api_def sample_stack_def same)
  have l: "sint (i32_of_usize (length d)) = int (length d)" "i32_of_usize (length d) \<noteq> 0"
    using assms(4,5) sint_i32_of_usize [of "length d"] by auto
  have "rlsm_quic_conn_read_hs sample_quic_api 0 0 2 (Ptr d) (i32_of_usize (length d)) Null Null s = Ret ((0, Null, Null), ?s)"
    using assms e l by (simp add: rlsm_quic_conn_read_hs_def Let_def from_raw_parts_Ptr)
  from hs_step.read_hs [OF this refl, of sample_new_api 2 g] show ?thesis
    using c e l by (auto simp: l)
qed

definition sample_hello :: bytes where
  "sample_hello = 1 # replicate 5 0 @ map word_of_nat [100..<134]"

lemma sample_run:
  "\<exists>s1. (hs_step sample_quic_api sample_new_api 2)\<^sup>*\<^sup>* (log_init, sample_conn_shim) (log_init\<lparr>log_fed := sample_hello\<rparr>, s1)
    \<and> unexhausted s1"
proof -
  have e: "QUIC_CONN_TABLE sample_conn_shim 2 = Some (new_entry (QuicConn_Server 0))"
      "qc_conn (new_entry (QuicConn_Server 0)) = QuicConn_Server 0"
    by (simp_all add: sample_conn_shim_def new_entry_def)
  have d: "take 9 sample_hello \<noteq> [0]" "length (take 9 sample_hello) < 2 ^ 31" "take 9 sample_hello \<noteq> []"
    "drop 9 sample_hello \<noteq> [0]" "length (drop 9 sample_hello) < 2 ^ 31" "drop 9 sample_hello \<noteq> []"
    by (simp_all add: sample_hello_def)
  obtain s1 e1 where 1: "hs_step sample_quic_api sample_new_api 2 (log_init, sample_conn_shim)
      (log_init\<lparr>log_fed := take 9 sample_hello\<rparr>, s1)"
    "NEXT_HANDLE s1 = 3" "QUIC_CONN_TABLE s1 2 = Some e1" "qc_conn e1 = QuicConn_Server 0"
    using sample_read [OF e d(1-3), of log_init] by (auto simp: log_init_def sample_conn_shim_def)
  obtain s2 where 2: "hs_step sample_quic_api sample_new_api 2 (log_init\<lparr>log_fed := take 9 sample_hello\<rparr>, s1)
      (log_init\<lparr>log_fed := take 9 sample_hello @ drop 9 sample_hello\<rparr>, s2)" "NEXT_HANDLE s2 = 3"
    using sample_read [OF 1(3,4) d(4-6), of "log_init\<lparr>log_fed := take 9 sample_hello\<rparr>"] 1(2) by auto
  have "unexhausted s2"
    using 2(2) by (simp add: unexhausted_def i32_MAX_def)
  then show ?thesis
    using rtranclp.rtrancl_into_rtrancl [OF r_into_rtranclp [where r = "hs_step sample_quic_api sample_new_api 2", OF 1(1)] 2(1)]
    unfolding append_take_drop_id by blast
qed

theorem replay_authenticator_is_client_random_witness:
  "\<exists>s1 :: (unit, unit, unit, unit, nat, nat, unit) hs_shim.
      rlsm_quic_server_conn_replay_authenticator 2 (Ptr (replicate 33 7)) (Ptr 0) s1 =
      Ret ((0, Ptr (map word_of_nat [100..<132] @ [7]), Ptr 32), clear_last_error s1)"
proof -
  obtain s1 where "(hs_step sample_quic_api sample_new_api 2)\<^sup>*\<^sup>* (log_init, sample_conn_shim)
      (log_init\<lparr>log_fed := sample_hello\<rparr>, s1)" "unexhausted s1"
    using sample_run by blast
  from replay_authenticator_is_client_random [OF sample_tables_ok sample_conn_new this, of "replicate 33 7" 0]
  have "rlsm_quic_server_conn_replay_authenticator 2 (Ptr (replicate 33 7)) (Ptr 0) s1 =
    Ret (case hello_random sample_hello of None \<Rightarrow> (1, Ptr (replicate 33 7), Ptr 0)
         | Some rnd \<Rightarrow> (0, Ptr (rnd @ drop 32 (replicate 33 7)), Ptr 32), clear_last_error s1)"
    by simp
  moreover have "hello_random sample_hello = Some (map word_of_nat [100..<132])" "drop 32 (replicate 33 7) = [7 :: byte]"
    by (code_simp; fail)+
  ultimately show ?thesis by (intro exI [of _ s1]) simp
qed

lemma sample_write:
  "\<exists>s1. hs_step sample_quic_api sample_new_api 2 (log_init, sample_conn_shim)
      (log_init\<lparr>log_reported := [sample_entry]\<rparr>, s1) \<and> NEXT_HANDLE s1 = 3 \<and> KEYS_TABLE s1 = Map.empty"
proof -
  let ?ks = "\<lparr>keys_local = sample_keys, keys_remote = sample_keys\<rparr>"
  let ?e = "(new_entry (QuicConn_Server 0))\<lparr>qc_conn := QuicConn_Server 1, qc_pending := Some (1, ?ks)\<rparr>"
  have "rlsm_quic_conn_write_hs sample_quic_api 2 (Ptr [0, 0, 0]) 3 (Ptr 0) (Ptr 0) sample_conn_shim =
      Ret ((0, Ptr [22, 3, 0], Ptr 2, Ptr 1), sample_conn_shim\<lparr>QUIC_CONN_TABLE := [2 \<mapsto> ?e]\<rparr>)"
    by (simp add: rlsm_quic_conn_write_hs_def Let_def sample_conn_shim_def sample_hs_shim_def clear_last_error_def
        new_entry_def sample_quic_api_def sample_stack_def usize_of_i32_nonneg copy_nonoverlapping_def i32_of_usize_def)
  from hs_step.write_hs [OF this, of sample_new_api 2 log_init] show ?thesis
    by (auto simp: next_change_def log_init_def sample_conn_shim_def sample_hs_shim_def new_entry_def sample_quic_api_def
        sample_stack_def entry_of_keys_def sample_entry_def)
qed

theorem handshake_keys_delivered_witness:
  "\<exists>s1 s2. KEYS_TABLE s1 = Map.empty
    \<and> rlsm_quic_conn_take_keys 2 (Ptr 0) (s1 :: (unit, unit, unit, unit, nat, nat, unit) hs_shim) = Ret ((0, Ptr 3), s2)
    \<and> KEYS_TABLE s2 = [3 \<mapsto> sample_entry]"
proof -
  obtain s1 where s1: "hs_step sample_quic_api sample_new_api 2 (log_init, sample_conn_shim)
      (log_init\<lparr>log_reported := [sample_entry]\<rparr>, s1)" "NEXT_HANDLE s1 = 3" "KEYS_TABLE s1 = Map.empty"
    using sample_write by blast
  have "unexhausted s1"
    using s1(2) by (simp add: unexhausted_def i32_MAX_def)
  from handshake_keys_delivered [OF sample_tables_ok sample_conn_new
      r_into_rtranclp [where r = "hs_step sample_quic_api sample_new_api 2", OF s1(1)] this, of 0] s1
  show ?thesis
    by (auto simp: log_init_def)
qed

end
