(* ===== verification/Quic_Calls.thy ===== *)
theory Quic_Calls
  imports Quic_Protocol
begin

text \<open>
  Contracts of single calls of \<open>quic_hs.rs\<close>: memory safety, what a failed \<open>write_hs\<close>
  drops, the cached alert, the early-data rule of server configurations, the directions
  that 0-RTT and key-update handles refuse; and the tables of the QUIC state as handle
  stores.
\<close>

section \<open>The connection and key tables as handle stores\<close>

definition quic_conn_update ::
  "i32 \<Rightarrow> (('cc, 'sc, 'sec) QuicConnEntry \<Rightarrow> ('cc, 'sc, 'sec) QuicConnEntry) \<Rightarrow>
   ('r, 'cert, 'key, 't, 'cc, 'sc, 'sec) hs_shim \<Rightarrow> ('r, 'cert, 'key, 't, 'cc, 'sc, 'sec) hs_shim" where
  "quic_conn_update h f s = s\<lparr>QUIC_CONN_TABLE := snd (HandleTable_with_mut h (\<lambda>e. ((), f e)) (QUIC_CONN_TABLE s))\<rparr>"

definition quic_conn_remove ::
  "i32 \<Rightarrow> ('r, 'cert, 'key, 't, 'cc, 'sc, 'sec) hs_shim \<Rightarrow> ('r, 'cert, 'key, 't, 'cc, 'sc, 'sec) hs_shim" where
  "quic_conn_remove h s = s\<lparr>QUIC_CONN_TABLE := snd (HandleTable_remove h (QUIC_CONN_TABLE s))\<rparr>"

lemma with_mut_update:
  "snd (HandleTable_with_mut h (\<lambda>e. ((), f e)) t) = t(h := map_option f (t h))"
  by (auto simp: HandleTable_with_mut_def split: option.splits)

lemma quic_conn_insert_Some:
  "quic_conn_insert e s = (Some h, s') \<longleftrightarrow> 0 < sint (NEXT_HANDLE s) \<and> h = NEXT_HANDLE s
     \<and> s' = s\<lparr>NEXT_HANDLE := h + 1, QUIC_CONN_TABLE := (QUIC_CONN_TABLE s)(h \<mapsto> e)\<rparr>"
  by (auto simp: quic_conn_insert_def HandleTable_insert_def next_handle_def Let_def)

interpretation qc: handle_store
  "\<lambda>s. handles_below (NEXT_HANDLE s) (QUIC_CONN_TABLE s)" quic_conn_insert quic_conn_update quic_conn_remove QUIC_CONN_TABLE
proof
  fix s s' :: "('r, 'cert, 'key, 't, 'cc, 'sc, 'sec) hs_shim" and v h
  show "handles_below (NEXT_HANDLE s) (QUIC_CONN_TABLE s) \<Longrightarrow> quic_conn_insert v s = (Some h, s') \<Longrightarrow>
      0 < sint h \<and> QUIC_CONN_TABLE s h = None"
    by (auto simp: quic_conn_insert_Some handles_below_fresh)
  show "handles_below (NEXT_HANDLE s) (QUIC_CONN_TABLE s) \<Longrightarrow> quic_conn_insert v s = (Some h, s') \<Longrightarrow>
      QUIC_CONN_TABLE s' = (QUIC_CONN_TABLE s)(h \<mapsto> v)"
    by (auto simp: quic_conn_insert_Some)
  show "handles_below (NEXT_HANDLE s) (QUIC_CONN_TABLE s) \<Longrightarrow> quic_conn_insert v s = (Some h, s') \<Longrightarrow>
      handles_below (NEXT_HANDLE s') (QUIC_CONN_TABLE s')"
    by (auto simp: quic_conn_insert_Some handles_below_step)
  show "quic_conn_insert v s = (None, s') \<Longrightarrow> QUIC_CONN_TABLE s' = QUIC_CONN_TABLE s"
    by (auto dest: quic_conn_insert_cases)
next
  fix s :: "('r, 'cert, 'key, 't, 'cc, 'sc, 'sec) hs_shim" and h f
  show "QUIC_CONN_TABLE (quic_conn_update h f s) = (QUIC_CONN_TABLE s)(h := map_option f (QUIC_CONN_TABLE s h))"
    by (simp add: quic_conn_update_def with_mut_update)
  show "handles_below (NEXT_HANDLE s) (QUIC_CONN_TABLE s) \<Longrightarrow>
      handles_below (NEXT_HANDLE (quic_conn_update h f s)) (QUIC_CONN_TABLE (quic_conn_update h f s))"
    by (cases "QUIC_CONN_TABLE s h")
      (simp_all add: quic_conn_update_def with_mut_update handles_below_remove handles_below_replace)
  show "QUIC_CONN_TABLE (quic_conn_remove h s) = (QUIC_CONN_TABLE s)(h := None)"
    by (simp add: quic_conn_remove_def HandleTable_remove_def)
  show "handles_below (NEXT_HANDLE s) (QUIC_CONN_TABLE s) \<Longrightarrow>
      handles_below (NEXT_HANDLE (quic_conn_remove h s)) (QUIC_CONN_TABLE (quic_conn_remove h s))"
    by (simp add: quic_conn_remove_def HandleTable_remove_def handles_below_remove)
qed

section \<open>Lemmas: calls that return\<close>

definition has_room :: "bytes ptr \<Rightarrow> nat \<Rightarrow> bool" where
  "has_room p n = (case p of Null \<Rightarrow> True | Ptr mem \<Rightarrow> n \<le> length mem)"

lemma returns_copy: "valid_buf p n \<Longrightarrow> \<not> is_null p \<Longrightarrow> \<not> sint n < 0 \<Longrightarrow> length v \<le> usize_of_i32 n \<Longrightarrow>
    returns (copy_nonoverlapping v p)"
  by (cases p) (auto simp: valid_buf_def copy_nonoverlapping_def usize_of_i32_nonneg)

lemma returns_slice_opt:
  "valid_buf p n \<Longrightarrow> \<not> (is_null p \<and> 0 < sint n) \<Longrightarrow> \<not> sint n < 0 \<Longrightarrow>
   returns (if n = 0 then Ret [] else from_raw_parts p (usize_of_i32 n))"
proof (cases "n = 0")
  case False
  then have "sint n \<noteq> 0" by (simp add: signed_eq_0_iff)
  assume "valid_buf p n" "\<not> (is_null p \<and> 0 < sint n)" "\<not> sint n < 0"
  then show ?thesis
    using False \<open>sint n \<noteq> 0\<close> by (simp add: returns_from_raw_parts)
qed simp

lemma returns_write_hs:
  assumes "valid_buf out cap"
  shows "returns (rlsm_quic_conn_write_hs api h out cap w t s)"
proof (cases "is_null out \<or> is_null w \<or> is_null t \<or> sint cap < 0")
  case True
  then show ?thesis by (auto simp: rlsm_quic_conn_write_hs_def Let_def)
next
  case False
  then show ?thesis
    using assms
    by (auto simp: rlsm_quic_conn_write_hs_def Let_def case_prod_beta
        intro!: returns_obind returns_copy split: option.split)
qed

lemma returns_read_hs:
  assumes "valid_buf data len"
  shows "returns (rlsm_quic_conn_read_hs api l m h data len p q s)"
proof (cases "is_null data \<and> 0 < sint len \<or> sint len < 0")
  case True
  then show ?thesis by (auto simp: rlsm_quic_conn_read_hs_def Let_def)
next
  case False
  then have "returns (if len = 0 then Ret [] else from_raw_parts data (usize_of_i32 len))"
    using assms by (intro returns_slice_opt) auto
  then show ?thesis
    using False unfolding rlsm_quic_conn_read_hs_def Let_def
    by (auto intro!: returns_obind split: option.split prod.split)
qed

lemma returns_transport_params:
  "valid_buf out cap \<Longrightarrow> returns (rlsm_quic_conn_transport_params api h out cap w s)"
  by (auto simp: rlsm_quic_conn_transport_params_def Let_def intro!: returns_obind returns_copy split: option.split)

lemma returns_quic_alpn: "valid_buf out cap \<Longrightarrow> returns (rlsm_quic_conn_alpn api h out cap w s)"
  by (auto simp: rlsm_quic_conn_alpn_def Let_def intro!: returns_obind returns_copy split: option.split)

lemma returns_replay_authenticator:
  "has_room out 32 \<Longrightarrow> returns (rlsm_quic_server_conn_replay_authenticator h out n s)"
  by (cases out) (auto simp: rlsm_quic_server_conn_replay_authenticator_def has_room_def Let_def copy_nonoverlapping_def
      split: option.split QuicConn.split)

lemma returns_reject_early_data:
  assumes "\<And>c. qa_is_handshaking (qa_server api) c \<Longrightarrow> returns (qa_reject_early_data api c)"
  shows "returns (rlsm_quic_server_conn_reject_early_data api h s)"
  using assms
  by (auto simp: rlsm_quic_server_conn_reject_early_data_def Let_def intro!: returns_obind
      split: option.split QuicConn.split)

lemma returns_server_conn_new:
  assumes "valid_buf tp tpl"
  shows "returns (rlsm_quic_server_conn_new napi cfg v tp tpl out s)"
proof (cases "is_null tp \<and> 0 < sint tpl \<or> sint tpl < 0")
  case True
  then show ?thesis by (auto simp: rlsm_quic_server_conn_new_def Let_def)
next
  case False
  then have "returns (if tpl = 0 then Ret [] else from_raw_parts tp (usize_of_i32 tpl))"
    using assms by (intro returns_slice_opt) auto
  then show ?thesis
    unfolding rlsm_quic_server_conn_new_def Let_def
    by (auto intro!: returns_obind split: sum.split option.split prod.split)
qed

lemma returns_client_conn_new:
  assumes "valid_buf tp tpl" "valid_buf name name_len"
  shows "returns (rlsm_quic_client_conn_new napi cfg v name name_len tp tpl out s)"
proof (cases "is_null tp \<and> 0 < sint tpl \<or> sint tpl < 0 \<or> is_null name \<or> sint name_len < 0")
  case True
  then show ?thesis by (auto simp: rlsm_quic_client_conn_new_def Let_def)
next
  case False
  then have "returns (if tpl = 0 then Ret [] else from_raw_parts tp (usize_of_i32 tpl))"
    "returns (from_raw_parts name (usize_of_i32 name_len))"
    using assms by (intro returns_slice_opt returns_from_raw_parts; auto)+
  then show ?thesis
    unfolding rlsm_quic_client_conn_new_def Let_def
    by (auto intro!: returns_obind split: sum.split option.split prod.split)
qed

section \<open>Lemmas: keys that refuse\<close>

text \<open>A direction whose packet key (or header key) refuses every call.\<close>

definition refuses_packets :: "packet_key \<Rightarrow> bool" where
  "refuses_packets k \<longleftrightarrow>
     (\<forall>pn h p. \<exists>m. pk_encrypt_in_place k pn h p = (Inl m, p)) \<and> (\<forall>pn h p. \<exists>m. pk_decrypt_in_place k pn h p = (Inl m, p))"

definition refuses_headers :: "header_key \<Rightarrow> bool" where
  "refuses_headers k \<longleftrightarrow>
     (\<forall>sample b pn. \<exists>m. hk_encrypt_in_place k sample b pn = (Inl m, b, pn))
   \<and> (\<forall>sample b pn. \<exists>m. hk_decrypt_in_place k sample b pn = (Inl m, b, pn))"

lemma noop_keys_refuse:
  "refuses_packets (dk_packet (noop_keys g pm hm))" "refuses_headers (dk_header (noop_keys g pm hm))"
  "refuses_headers (NoOpHpKey g)"
  by (simp_all add: refuses_packets_def refuses_headers_def noop_keys_def NoOpHpKey_def)

lemma put_slice_same: "from_raw_parts p n = Ret b \<Longrightarrow> put_slice b p = p"
  by (cases p) (auto simp: from_raw_parts_def split: if_splits)

lemma refused_encrypt:
  assumes "KEYS_TABLE s h = Some e" "refuses_packets (dk_packet (ke_local e))"
  shows "when_ret (\<lambda>((r, p), s'). r = -1 \<and> p = payload) (rlsm_keys_local_encrypt h pn hp hl payload n cap s)"
proof -
  have "\<exists>m e'. local_encrypt_entry pn hd k buf e = (Inl m, buf, e')" for hd k buf
  proof -
    obtain m where "pk_encrypt_in_place (dk_packet (ke_local e)) pn hd (take k buf) = (Inl m, take k buf)"
      using assms(2) unfolding refuses_packets_def by blast
    then show ?thesis by (simp add: local_encrypt_entry_def)
  qed
  then have "fst (local_encrypt_entry pn hd k buf e) = Inl (projl (fst (local_encrypt_entry pn hd k buf e)))
      \<and> fst (snd (local_encrypt_entry pn hd k buf e)) = buf" for hd k buf
    by (metis fst_conv snd_conv sum.sel(1))
  then show ?thesis
    unfolding rlsm_keys_local_encrypt_def Let_def
    by (auto simp: assms(1) rlsm_err_def case_prod_beta put_slice_same intro!: when_ret_obind split: sum.split) (metis sum.distinct(1))+
qed

lemma refused_decrypt:
  assumes "KEYS_TABLE s h = Some e" "refuses_packets (dk_packet (ke_remote e))"
  shows "when_ret (\<lambda>((r, p), s'). r = -1 \<and> p = payload) (rlsm_keys_remote_decrypt h pn hp hl payload n s)"
proof -
  have "fst (pk_decrypt_in_place (dk_packet (ke_remote e)) pn hd b) = Inl (projl (fst (pk_decrypt_in_place (dk_packet (ke_remote e)) pn hd b)))
      \<and> snd (pk_decrypt_in_place (dk_packet (ke_remote e)) pn hd b) = b" for hd b
    using assms(2) unfolding refuses_packets_def by (metis fst_conv snd_conv sum.sel(1))
  then show ?thesis
    unfolding rlsm_keys_remote_decrypt_def Let_def
    by (auto simp: assms(1) rlsm_err_def case_prod_beta put_slice_same intro!: when_ret_obind split: sum.split) (metis sum.distinct(1))+
qed

lemma refused_header_protect:
  assumes "KEYS_TABLE s h = Some e" "refuses_headers (dk_header (ke_local e))"
  shows "when_ret (\<lambda>((r, b, p), s'). r = -1 \<and> b = first_byte \<and> p = pn_bytes)
     (rlsm_keys_local_header_protect h sp sl first_byte pn_bytes pl s)"
proof -
  let ?k = "hk_encrypt_in_place (dk_header (ke_local e))"
  have k: "snd (?k sample b pn) = (b, pn)" "fst (?k sample b pn) \<noteq> Inr u" for sample b pn u
    using assms(2) unfolding refuses_headers_def by (metis fst_conv snd_conv sum.distinct(1))+
  show ?thesis
    unfolding rlsm_keys_local_header_protect_def Let_def
    by (cases first_byte)
      (auto simp: assms(1) rlsm_err_def put_slice_same deref_def case_prod_beta k intro!: when_ret_obind split: sum.split)
qed

lemma refused_header_unprotect:
  assumes "KEYS_TABLE s h = Some e" "refuses_headers (dk_header (ke_remote e))"
  shows "when_ret (\<lambda>((r, b, p), s'). r = -1 \<and> b = first_byte \<and> p = pn_bytes)
     (rlsm_keys_remote_header_unprotect h sp sl first_byte pn_bytes pl s)"
proof -
  let ?k = "hk_decrypt_in_place (dk_header (ke_remote e))"
  have k: "snd (?k sample b pn) = (b, pn)" "fst (?k sample b pn) \<noteq> Inr u" for sample b pn u
    using assms(2) unfolding refuses_headers_def by (metis fst_conv snd_conv sum.distinct(1))+
  show ?thesis
    unfolding rlsm_keys_remote_header_unprotect_def Let_def
    by (cases first_byte)
      (auto simp: assms(1) rlsm_err_def put_slice_same deref_def case_prod_beta k intro!: when_ret_obind split: sum.split)
qed

text \<open>The entries the three calls insert.\<close>

lemma zero_rtt_entry:
  assumes "rlsm_quic_conn_zero_rtt_keys api h out s = Ret ((0, Ptr kh), s')"
  shows "\<exists>e. KEYS_TABLE s' kh = Some e
    \<and> ke_remote e = noop_keys (qa_Error_General api) ''0-RTT: no remote packet key'' ''0-RTT: no remote HP key''"
proof -
  have "when_ret (\<lambda>(r, s'). fst r = 0 \<longrightarrow> (\<exists>e kh. snd r = Ptr kh \<and> KEYS_TABLE s' kh = Some e
      \<and> ke_remote e = noop_keys (qa_Error_General api) ''0-RTT: no remote packet key'' ''0-RTT: no remote HP key''))
      (rlsm_quic_conn_zero_rtt_keys api h out s)"
    unfolding rlsm_quic_conn_zero_rtt_keys_def Let_def
    by (auto simp: rlsm_err_def dest!: keys_table_insert_cases split: option.split QuicConn.split prod.split)
  then show ?thesis using assms by auto
qed

lemma server_zero_rtt_entry:
  assumes "rlsm_quic_server_conn_zero_rtt_keys api h out s = Ret ((0, Ptr kh), s')"
  shows "\<exists>e. KEYS_TABLE s' kh = Some e
    \<and> ke_local e = noop_keys (qa_Error_General api) ''0-RTT: no local packet key'' ''0-RTT: no local HP key''"
proof -
  have "when_ret (\<lambda>(r, s'). fst r = 0 \<longrightarrow> (\<exists>e kh. snd r = Ptr kh \<and> KEYS_TABLE s' kh = Some e
      \<and> ke_local e = noop_keys (qa_Error_General api) ''0-RTT: no local packet key'' ''0-RTT: no local HP key''))
      (rlsm_quic_server_conn_zero_rtt_keys api h out s)"
    unfolding rlsm_quic_server_conn_zero_rtt_keys_def Let_def
    by (auto simp: rlsm_err_def dest!: keys_table_insert_cases split: option.split QuicConn.split prod.split)
  then show ?thesis using assms by auto
qed

lemma next_keys_entry:
  assumes "rlsm_quic_conn_take_next_keys api h out s = Ret ((0, Ptr kh), s')"
  shows "\<exists>e. KEYS_TABLE s' kh = Some e \<and> dk_header (ke_local e) = NoOpHpKey (qa_Error_General api)
    \<and> dk_header (ke_remote e) = NoOpHpKey (qa_Error_General api)"
proof -
  have "when_ret (\<lambda>(r, s'). fst r = 0 \<longrightarrow> (\<exists>e kh. snd r = Ptr kh \<and> KEYS_TABLE s' kh = Some e
      \<and> dk_header (ke_local e) = NoOpHpKey (qa_Error_General api) \<and> dk_header (ke_remote e) = NoOpHpKey (qa_Error_General api)))
      (rlsm_quic_conn_take_next_keys api h out s)"
    unfolding rlsm_quic_conn_take_next_keys_def Let_def
    by (auto simp: rlsm_err_def dest!: keys_table_insert_cases split: option.split prod.split)
  then show ?thesis using assms by auto
qed

section \<open>Lemmas: server configurations\<close>

definition config_made ::
  "('r, 'cert, 'key, 't, 'name, 'cc, 'sc) quic_new_api \<Rightarrow> u32 \<Rightarrow> ('r, 'cert, 'key, 't, 'cc, 'sc, 'sec) hs_shim \<Rightarrow>
   i32 \<times> i32 ptr \<Rightarrow> ('r, 'cert, 'key, 't, 'cc, 'sc, 'sec) hs_shim \<Rightarrow> bool" where
  "config_made api m s r s' \<longleftrightarrow>
     (\<exists>certs k base cfg h. q_server_builder_tls13 api certs k = Inr base \<and> certs \<noteq> [] \<and> r = (0, Ptr h)
        \<and> server_cfg_insert cfg (clear_last_error s) = (Some h, s') \<and> qs_max_early_data_size cfg = m
        \<and> (if m = 0 then \<exists>t. q_Ticketer_new api = Inr t \<and> qs_ticketer cfg = AwsTicketer t
           else qs_ticketer cfg = qs_ticketer base))"

lemma config_madeI:
  "q_server_builder_tls13 api certs k = Inr base \<Longrightarrow> certs \<noteq> [] \<Longrightarrow>
   server_cfg_insert (base\<lparr>sc_key_log := l, sc_alpn_protocols := a, qs_ticketer := t, qs_max_early_data_size := 0\<rparr>)
     (clear_last_error s) = (Some h, s') \<Longrightarrow>
   map_sum id AwsTicketer (q_Ticketer_new api) = Inr t \<Longrightarrow> config_made api 0 s (0, Ptr h) s'"
  "q_server_builder_tls13 api certs k = Inr base \<Longrightarrow> certs \<noteq> [] \<Longrightarrow>
   server_cfg_insert (base\<lparr>sc_key_log := l, sc_alpn_protocols := a, qs_max_early_data_size := 0xFFFFFFFF\<rparr>)
     (clear_last_error s) = (Some h, s') \<Longrightarrow> config_made api 0xFFFFFFFF s (0, Ptr h) s'"
  unfolding config_made_def by (cases "q_Ticketer_new api"; fastforce)+

section \<open>Properties\<close>


text \<open>
  C22. A \<open>write_hs\<close> whose buffer is too small fails after the TLS stack has been drained:
  the connection has moved past the flight and the key change, neither the output buffer
  nor the pending slot has them, and \<open>take_keys\<close> finds nothing.
\<close>

theorem write_hs_small_buffer_drops:
  assumes "QUIC_CONN_TABLE s h = Some e" "qc_pending e = None"
    and "conn_write_hs api (qc_conn e) = (flight, kc, c)" and "0 \<le> sint cap" "nat (sint cap) < length flight"
  shows "\<exists>s'. rlsm_quic_conn_write_hs api h (Ptr buf) cap (Ptr w) (Ptr t) s = Ret ((-1, Ptr buf, Ptr w, Ptr t), s')
    \<and> QUIC_CONN_TABLE s' h = Some (e\<lparr>qc_conn := c\<rparr>)
    \<and> (\<exists>s2. rlsm_quic_conn_take_keys h (Ptr x) s' = Ret ((-1, Ptr x), s2))"
  using assms
  by (simp add: rlsm_quic_conn_write_hs_def rlsm_quic_conn_take_keys_def Let_def rlsm_err_def usize_of_i32_nonneg)

text \<open>
  When the TLS stack rejects CRYPTO data, the alert code it gives (50, decode_error,
  when it gives none) is reported by the next \<open>rlsm_quic_conn_alert\<close>, once: the call after
  that reports none.
\<close>

theorem alert_reported_once:
  assumes "QUIC_CONN_TABLE s h = Some e" "conn_read_hs api (take (nat (sint len)) d) (qc_conn e) = (Inl err, c)"
    and "0 < sint len" "nat (sint len) \<le> length d"
    and "alert = (case conn_query (qa_alert (qa_client api)) (qa_alert (qa_server api)) c of Some a \<Rightarrow> a | None \<Rightarrow> 50)"
  shows "\<exists>s1 s2 s3 p' q'. rlsm_quic_conn_read_hs api l m h (Ptr d) len p q s = Ret ((-1, p', q'), s1)
    \<and> rlsm_quic_conn_alert h s1 = Ret (i32_of_usize (unat alert), s2) \<and> rlsm_quic_conn_alert h s2 = Ret (-1, s3)"
proof -
  have "len \<noteq> 0" using assms(3) by auto
  moreover have "qc_conn (capture_prefix (take (nat (sint len)) d) e) = qc_conn e"
    by (simp add: capture_prefix_def Let_def)
  ultimately show ?thesis
    using assms
    by (simp add: rlsm_quic_conn_read_hs_def Let_def from_raw_parts_Ptr usize_of_i32_nonneg read_hs_entry_def rlsm_err_def
        rlsm_quic_conn_alert_def HandleTable_with_mut_def)
qed

text \<open>
  C21. A server configuration is created only with \<open>max_early_data\<close> 0 or 0xFFFFFFFF, it
  carries that limit, and without early data its tickets come from the stateless ticketer
  while with early data the default of the TLS stack is kept (session cache).
\<close>

theorem server_config_early_data:
  assumes "rlsm_quic_server_config_new api cert cl key kl alpn al max_early_data out s = Ret ((0, Ptr h), s')"
    and "handles_below (NEXT_HANDLE s) (QUIC_SERVER_CFG_TABLE s)"
  shows "max_early_data \<in> {0, 0xFFFFFFFF} \<and> QUIC_SERVER_CFG_TABLE s h = None
    \<and> (\<exists>certs k base cfg. q_server_builder_tls13 api certs k = Inr base \<and> certs \<noteq> []
        \<and> QUIC_SERVER_CFG_TABLE s' = (QUIC_SERVER_CFG_TABLE s)(h \<mapsto> cfg)
        \<and> qs_max_early_data_size cfg = max_early_data
        \<and> (if max_early_data = 0 then \<exists>t. q_Ticketer_new api = Inr t \<and> qs_ticketer cfg = AwsTicketer t
           else qs_ticketer cfg = qs_ticketer base))"
proof -
  have "when_ret (\<lambda>(r, s'). fst r = 0 \<longrightarrow> max_early_data \<in> {0, 0xFFFFFFFF} \<and> config_made api max_early_data s r s')
      (rlsm_quic_server_config_new api cert cl key kl alpn al max_early_data out s)"
    unfolding rlsm_quic_server_config_new_def Let_def
    by (auto simp: rlsm_err_def intro!: when_ret_obind intro: config_madeI split: sum.split option.split prod.split)
  then have m: "max_early_data \<in> {0, 0xFFFFFFFF}" and made: "config_made api max_early_data s (0, Ptr h) s'"
    using assms(1) by auto
  from made obtain certs k base cfg where
    c: "q_server_builder_tls13 api certs k = Inr base" "certs \<noteq> []" "qs_max_early_data_size cfg = max_early_data"
      "if max_early_data = 0 then \<exists>t. q_Ticketer_new api = Inr t \<and> qs_ticketer cfg = AwsTicketer t
       else qs_ticketer cfg = qs_ticketer base"
    and ins: "server_cfg_insert cfg (clear_last_error s) = (Some h, s')"
    unfolding config_made_def by (metis (no_types) Pair_inject ptr.inject)
  have "QUIC_SERVER_CFG_TABLE s h = None" "QUIC_SERVER_CFG_TABLE s' = (QUIC_SERVER_CFG_TABLE s)(h \<mapsto> cfg)"
    using ins assms(2)
    by (auto simp: server_cfg_insert_def HandleTable_insert_def next_handle_def Let_def handles_below_fresh clear_last_error_def
        split: if_splits)
  then show ?thesis using m c by blast
qed

text \<open>
  C20. Keys that exist for one direction only refuse the other: a client's 0-RTT handle does
  not open packets, a server's does not seal them, and a key-update handle refuses header
  protection both ways; a refused call leaves the caller's buffers as they were.
\<close>

theorem one_way_keys:
  "(rlsm_quic_conn_zero_rtt_keys api h out s = Ret ((0, Ptr kh), s1) \<longrightarrow>
      when_ret (\<lambda>((r, p), _). r = -1 \<and> p = payload) (rlsm_keys_remote_decrypt kh pn hp hl payload n s1)
    \<and> when_ret (\<lambda>((r, b, p), _). r = -1 \<and> b = first_byte \<and> p = pn_bytes)
        (rlsm_keys_remote_header_unprotect kh sp sl first_byte pn_bytes pl s1))
   \<and> (rlsm_quic_server_conn_zero_rtt_keys api h out s = Ret ((0, Ptr kh), s2) \<longrightarrow>
      when_ret (\<lambda>((r, p), _). r = -1 \<and> p = payload) (rlsm_keys_local_encrypt kh pn hp hl payload n cap s2)
    \<and> when_ret (\<lambda>((r, b, p), _). r = -1 \<and> b = first_byte \<and> p = pn_bytes)
        (rlsm_keys_local_header_protect kh sp sl first_byte pn_bytes pl s2))
   \<and> (rlsm_quic_conn_take_next_keys api h out s = Ret ((0, Ptr kh), s3) \<longrightarrow>
      when_ret (\<lambda>((r, b, p), _). r = -1 \<and> b = first_byte \<and> p = pn_bytes)
        (rlsm_keys_local_header_protect kh sp sl first_byte pn_bytes pl s3)
    \<and> when_ret (\<lambda>((r, b, p), _). r = -1 \<and> b = first_byte \<and> p = pn_bytes)
        (rlsm_keys_remote_header_unprotect kh sp sl first_byte pn_bytes pl s3))"
proof (intro conjI impI)
  assume call: "rlsm_quic_conn_zero_rtt_keys api h out s = Ret ((0, Ptr kh), s1)"
  from zero_rtt_entry [OF call] obtain e where e: "KEYS_TABLE s1 kh = Some e"
    "refuses_packets (dk_packet (ke_remote e))" "refuses_headers (dk_header (ke_remote e))"
    using noop_keys_refuse by auto
  show "when_ret (\<lambda>((r, p), _). r = -1 \<and> p = payload) (rlsm_keys_remote_decrypt kh pn hp hl payload n s1)"
    "when_ret (\<lambda>((r, b, p), _). r = -1 \<and> b = first_byte \<and> p = pn_bytes)
        (rlsm_keys_remote_header_unprotect kh sp sl first_byte pn_bytes pl s1)"
    by (rule refused_decrypt [OF e(1,2)] refused_header_unprotect [OF e(1,3)])+
next
  assume call: "rlsm_quic_server_conn_zero_rtt_keys api h out s = Ret ((0, Ptr kh), s2)"
  from server_zero_rtt_entry [OF call] obtain e where e: "KEYS_TABLE s2 kh = Some e"
    "refuses_packets (dk_packet (ke_local e))" "refuses_headers (dk_header (ke_local e))"
    using noop_keys_refuse by auto
  show "when_ret (\<lambda>((r, p), _). r = -1 \<and> p = payload) (rlsm_keys_local_encrypt kh pn hp hl payload n cap s2)"
    "when_ret (\<lambda>((r, b, p), _). r = -1 \<and> b = first_byte \<and> p = pn_bytes)
        (rlsm_keys_local_header_protect kh sp sl first_byte pn_bytes pl s2)"
    by (rule refused_encrypt [OF e(1,2)] refused_header_protect [OF e(1,3)])+
next
  assume call: "rlsm_quic_conn_take_next_keys api h out s = Ret ((0, Ptr kh), s3)"
  from next_keys_entry [OF call] obtain e where e: "KEYS_TABLE s3 kh = Some e"
    "refuses_headers (dk_header (ke_local e))" "refuses_headers (dk_header (ke_remote e))"
    using noop_keys_refuse by auto
  show "when_ret (\<lambda>((r, b, p), _). r = -1 \<and> b = first_byte \<and> p = pn_bytes)
        (rlsm_keys_local_header_protect kh sp sl first_byte pn_bytes pl s3)"
    "when_ret (\<lambda>((r, b, p), _). r = -1 \<and> b = first_byte \<and> p = pn_bytes)
        (rlsm_keys_remote_header_unprotect kh sp sl first_byte pn_bytes pl s3)"
    by (rule refused_header_protect [OF e(1,2)] refused_header_unprotect [OF e(1,3)])+
qed

text \<open>
  C26. Two \<open>rlsm_quic_server_conn_zero_rtt_keys\<close> calls on one connection give two different
  handles, each with its own entry in the keys table.
\<close>

theorem server_zero_rtt_keys_not_idempotent:
  assumes "QUIC_CONN_TABLE s h = Some e" "qc_conn e = QuicConn_Server c" "qa_zero_rtt_keys (qa_server api) c = Some dk"
    and "unexhausted s"
  shows "\<exists>s1 s2. rlsm_quic_server_conn_zero_rtt_keys api h (Ptr x) s = Ret ((0, Ptr (NEXT_HANDLE s)), s1)
    \<and> rlsm_quic_server_conn_zero_rtt_keys api h (Ptr x) s1 = Ret ((0, Ptr (NEXT_HANDLE s + 1)), s2)
    \<and> map_option ke_remote (KEYS_TABLE s2 (NEXT_HANDLE s)) = Some dk
    \<and> map_option ke_remote (KEYS_TABLE s2 (NEXT_HANDLE s + 1)) = Some dk"
proof -
  have "0 < sint (NEXT_HANDLE s)" "sint (NEXT_HANDLE s) \<noteq> 2 ^ 31 - 1"
    using assms(4) eq_i32_MAX by (auto simp: unexhausted_def)
  then have pos: "0 < sint (NEXT_HANDLE s)" "0 < sint (NEXT_HANDLE s + 1)" and "NEXT_HANDLE s \<noteq> NEXT_HANDLE s + 1"
    using sint_Suc [of "NEXT_HANDLE s"] by auto
  then show ?thesis
    using assms(1-3)
    by (simp add: rlsm_quic_server_conn_zero_rtt_keys_def Let_def keys_table_insert_def HandleTable_insert_pos)
qed

section \<open>Witnesses\<close>


theorem write_hs_small_buffer_drops_witness:
  "\<exists>s' s2. rlsm_quic_conn_write_hs sample_quic_api 2 (Ptr [9]) 1 (Ptr 0) (Ptr 0) sample_conn_shim =
       Ret ((-1, Ptr [9], Ptr 0, Ptr 0), s')
     \<and> rlsm_quic_conn_take_keys 2 (Ptr 8) s' = Ret ((-1, Ptr 8), s2)"
proof -
  have "QUIC_CONN_TABLE sample_conn_shim 2 = Some (new_entry (QuicConn_Server 0))"
    by (simp add: sample_conn_shim_def)
  from write_hs_small_buffer_drops [OF this, of sample_quic_api "[22, 3]" _ "QuicConn_Server 1" 1 "[9]" 0 0 8]
  show ?thesis
    by (auto simp: new_entry_def sample_quic_api_def sample_stack_def)
qed

theorem alert_reported_once_witness:
  "\<exists>s1 s2 s3. rlsm_quic_conn_read_hs sample_quic_api 0 0 2 (Ptr [0]) 1 Null Null sample_conn_shim = Ret ((-1, Null, Null), s1)
    \<and> rlsm_quic_conn_alert 2 s1 = Ret (50, s2) \<and> rlsm_quic_conn_alert 2 s2 = Ret (-1, s3)"
proof -
  have e: "QUIC_CONN_TABLE sample_conn_shim 2 = Some (new_entry (QuicConn_Server 0))"
    by (simp add: sample_conn_shim_def)
  obtain s1 s2 s3 p' q' where "rlsm_quic_conn_read_hs sample_quic_api 0 0 2 (Ptr [0]) 1 Null Null sample_conn_shim = Ret ((-1, p', q'), s1)"
      "rlsm_quic_conn_alert 2 s1 = Ret (i32_of_usize (unat (50 :: byte)), s2)" "rlsm_quic_conn_alert 2 s2 = Ret (-1, s3)"
    using alert_reported_once [OF e, of sample_quic_api 1 "[0]" "''bad message''" "QuicConn_Server 0" 50 0 0 Null Null]
    by (auto simp: new_entry_def sample_quic_api_def sample_stack_def)
  moreover from this(1) have "p' = Null" "q' = Null"
    by (auto simp: rlsm_quic_conn_read_hs_def Let_def from_raw_parts_def usize_of_i32_nonneg e rlsm_err_def split: prod.splits option.splits)
  ultimately show ?thesis
    by (auto simp: i32_of_usize_def)
qed

theorem server_config_early_data_witness:
  "\<exists>s' cfg. rlsm_quic_server_config_new sample_new_api (Ptr [1]) 1 (Ptr [2]) 1 (Ptr [104, 51]) 2 0 (Ptr 0) sample_hs_shim =
        Ret ((0, Ptr 2), s')
    \<and> QUIC_SERVER_CFG_TABLE s' = (QUIC_SERVER_CFG_TABLE sample_hs_shim)(2 \<mapsto> cfg) \<and> qs_ticketer cfg = AwsTicketer ()"
proof -
  have "\<exists>s'. rlsm_quic_server_config_new sample_new_api (Ptr [1]) 1 (Ptr [2]) 1 (Ptr [104, 51]) 2 0 (Ptr 0) sample_hs_shim =
      Ret ((0, Ptr 2), s')"
    by (simp add: rlsm_quic_server_config_new_def Let_def from_raw_parts_def usize_of_i32_nonneg sample_new_api_def
        server_cfg_insert_def HandleTable_insert_def next_handle_def sample_hs_shim_def clear_last_error_def)
  then obtain s' where c: "rlsm_quic_server_config_new sample_new_api (Ptr [1]) 1 (Ptr [2]) 1 (Ptr [104, 51]) 2 0 (Ptr 0) sample_hs_shim =
      Ret ((0, Ptr 2), s')"
    by blast
  have "handles_below (NEXT_HANDLE sample_hs_shim) (QUIC_SERVER_CFG_TABLE sample_hs_shim)"
    by (simp add: handles_below_def sample_hs_shim_def)
  from server_config_early_data [OF c this] c show ?thesis
    by auto
qed

theorem one_way_keys_witness:
  "\<exists>s1. rlsm_quic_server_conn_zero_rtt_keys sample_quic_api 2 (Ptr 0) sample_conn_shim = Ret ((0, Ptr 3), s1)
    \<and> (\<exists>s2. rlsm_keys_local_encrypt 3 7 (Ptr [1]) 1 (Ptr [2, 3]) 1 2 s1 = Ret ((-1, Ptr [2, 3]), s2))"
proof -
  obtain s1 where c: "rlsm_quic_server_conn_zero_rtt_keys sample_quic_api 2 (Ptr 0) sample_conn_shim = Ret ((0, Ptr 3), s1)"
    by (simp add: rlsm_quic_server_conn_zero_rtt_keys_def Let_def sample_conn_shim_def sample_hs_shim_def new_entry_def
        sample_quic_api_def sample_stack_def keys_table_insert_def HandleTable_insert_def next_handle_def clear_last_error_def)
  have "returns (rlsm_keys_local_encrypt 3 7 (Ptr [1]) 1 (Ptr [2, 3]) 1 2 s1)"
    by (rule returns_local_encrypt) (simp_all add: valid_buf_def)
  moreover have "when_ret (\<lambda>((r, p), _). r = -1 \<and> p = Ptr [2, 3]) (rlsm_keys_local_encrypt 3 7 (Ptr [1]) 1 (Ptr [2, 3]) 1 2 s1)"
    using one_way_keys [of sample_quic_api 2 "Ptr 0" sample_conn_shim 3 s1 "Ptr [2, 3]" 7 "Ptr [1]" 1 1] c by blast
  ultimately show ?thesis
    using c by (auto simp: returns_iff)
qed

theorem server_zero_rtt_keys_not_idempotent_witness:
  "\<exists>s1 s2. rlsm_quic_server_conn_zero_rtt_keys sample_quic_api 2 (Ptr 0) sample_conn_shim = Ret ((0, Ptr 3), s1)
    \<and> rlsm_quic_server_conn_zero_rtt_keys sample_quic_api 2 (Ptr 0) s1 = Ret ((0, Ptr 4), s2)
    \<and> map_option ke_remote (KEYS_TABLE s2 4) = Some sample_keys"
proof -
  have e: "QUIC_CONN_TABLE sample_conn_shim 2 = Some (new_entry (QuicConn_Server 0))" "NEXT_HANDLE sample_conn_shim = 3"
    by (simp_all add: sample_conn_shim_def)
  show ?thesis
    using server_zero_rtt_keys_not_idempotent [OF e(1), of 0 sample_quic_api sample_keys 0] e(2)
    by (auto simp: new_entry_def sample_quic_api_def sample_stack_def unexhausted_def i32_MAX_def)
qed

end
