(* ===== verification/Wire_Codec.thy ===== *)
theory Wire_Codec
  imports Rust_Std
begin

text \<open>
  QUIC variable-length integers (\<open>encode_varint\<close>, \<open>decode_varint\<close> and \<open>varint_width\<close> of
  \<open>conformance/tls-conformance/src/quic_packet.rs\<close>), with their reading as numbers, and
  the interface of a self-delimiting code, which the later theories build on.
\<close>

section \<open>Variable-length integers\<close>

text \<open>\<open>out\<close> is the vector appended to; the bounds are \<open>1 << 6\<close> and so on.\<close>

definition encode_varint :: "u64 \<Rightarrow> bytes \<Rightarrow> bytes outcome" where
  "encode_varint v out =
     (if v < push_bit 6 1 then Ret (out @ [ucast v])
      else if v < push_bit 14 1 then
        let b = to_be_bytes (ucast v :: u16) in Ret (out @ [b ! 0 OR 0x40, b ! 1])
      else if v < push_bit 30 1 then
        let b = to_be_bytes (ucast v :: u32) in Ret (out @ [b ! 0 OR 0x80, b ! 1, b ! 2, b ! 3])
      else if v < push_bit 62 1 then
        let b = to_be_bytes v in Ret ((out @ [b ! 0 OR 0xC0]) @ drop 1 b)
      else Panic)"

definition decode_varint :: "bytes \<Rightarrow> (u64 \<times> nat) option" where
  "decode_varint buf =
     (case buf of
        [] \<Rightarrow> None
      | first # _ \<Rightarrow>
          let len = (2 :: nat) ^ unat (drop_bit 6 first) in
          if length buf < len then None
          else Some (foldl (\<lambda>v b. push_bit 8 v OR ucast b) (ucast (first AND 0x3F)) (drop 1 (take len buf)), len))"

definition varint_width :: "u64 \<Rightarrow> nat" where
  "varint_width v =
     (if v < push_bit 6 1 then 1 else if v < push_bit 14 1 then 2 else if v < push_bit 30 1 then 4 else 8)"

section \<open>Readings\<close>

text \<open>The bytes of a varint: a big-endian number whose top two bits hold the width.\<close>

definition varint_len :: "nat \<Rightarrow> nat" where
  "varint_len n = (if n < 2 ^ 6 then 1 else if n < 2 ^ 14 then 2 else if n < 2 ^ 30 then 4 else 8)"

definition varint_class :: "nat \<Rightarrow> nat" where
  "varint_class n = (if n < 2 ^ 6 then 0 else if n < 2 ^ 14 then 1 else if n < 2 ^ 30 then 2 else 3)"

definition varint_bytes :: "nat \<Rightarrow> bytes" where
  "varint_bytes n = be_nat (varint_len n) (varint_class n * 2 ^ (8 * varint_len n - 2) + n)"

section \<open>The contract of a self-delimiting code\<close>

text \<open>
  \<open>enc\<close> is defined on \<open>ok\<close> values; \<open>dec\<close> reads one value off the front of a buffer and says
  how many bytes it took, whatever follows them.
\<close>

locale prefix_code =
  fixes ok :: "'a \<Rightarrow> bool"
    and enc :: "'a \<Rightarrow> bytes"
    and dec :: "bytes \<Rightarrow> ('a \<times> nat) option"
  assumes dec_enc: "ok x \<Longrightarrow> dec (enc x @ rest) = Some (x, length (enc x))"
    and dec_length: "dec buf = Some (x, n) \<Longrightarrow> 0 < n \<and> n \<le> length buf"
begin

lemma enc_nonempty: "ok x \<Longrightarrow> enc x \<noteq> []"
  using dec_enc [of x "[]"] dec_length [of "enc x" x] by auto

lemma enc_inj: "ok x \<Longrightarrow> ok y \<Longrightarrow> enc x @ r = enc y @ r' \<Longrightarrow> x = y \<and> r = r'"
  using dec_enc [of x r] dec_enc [of y r'] by auto

text \<open>A sequence of encoded values, read one after the other with the rest dropped.\<close>

lemma enc_concat_inj:
  "\<forall>x \<in> set xs. ok x \<Longrightarrow> \<forall>y \<in> set ys. ok y \<Longrightarrow> concat (map enc xs) = concat (map enc ys) \<Longrightarrow> xs = ys"
proof (induction xs arbitrary: ys)
  case Nil
  then show ?case using enc_nonempty by (cases ys) auto
next
  case IH: (Cons x xs)
  have x: "ok x" using IH.prems(1) by simp
  show ?case
  proof (cases ys)
    case Nil
    with IH.prems(3) enc_nonempty [OF x] show ?thesis by simp
  next
    case (Cons y ys')
    have y: "ok y" using Cons IH.prems(2) by simp
    have "enc x @ concat (map enc xs) = enc y @ concat (map enc ys')"
      using Cons IH.prems(3) by simp
    from enc_inj [OF x y this] have xy: "x = y" and tl: "concat (map enc xs) = concat (map enc ys')"
      by simp_all
    have "xs = ys'"
      using IH.prems(1,2) Cons by (intro IH.IH [OF _ _ tl]) simp_all
    with xy Cons show ?thesis by simp
  qed
qed

end

section \<open>Lemmas: bytes\<close>

lemma unat_word_less: "unat (w :: 'a::len word) < 2 ^ LENGTH('a)"
  by (rule unsigned_less)

text \<open>Or-ing bits above those of a small byte is adding.\<close>

lemma byte_or_high:
  assumes "unat (b :: byte) < 64"
  shows "b OR push_bit 6 c = b + push_bit 6 c"
proof (rule disjunctive_add [symmetric])
  fix n
  have "take_bit 6 (unat b) = unat b"
    using assms by (simp add: take_bit_nat_eq_self)
  then have "take_bit 6 b = b"
    by (simp add: word_eq_iff_unsigned [where ?'a = nat] unsigned_take_bit_eq)
  then have "bit b n \<Longrightarrow> n < 6"
    by (metis bit_take_bit_iff)
  then show "\<not> bit b n \<or> \<not> bit (push_bit 6 c) n"
    by (auto simp: bit_push_bit_iff)
qed

lemma byte_or_tag:
  assumes "unat (b :: byte) < 64"
  shows "b OR 0x40 = word_of_nat (unat b + 64)" "b OR 0x80 = word_of_nat (unat b + 128)"
    "b OR 0xC0 = word_of_nat (unat b + 192)"
  using byte_or_high [OF assms, of 1] byte_or_high [OF assms, of 2] byte_or_high [OF assms, of 3]
  by (simp_all add: push_bit_eq_mult)

lemma byte_and_3F: "unat (b AND 0x3F :: byte) = unat b mod 64"
proof -
  have "b AND 0x3F = take_bit 6 b"
    by (simp add: take_bit_eq_mask mask_eq_exp_minus_1)
  moreover have "unat (take_bit 6 b) = take_bit 6 (unat b)"
    by (simp only: unsigned_take_bit_eq)
  ultimately show ?thesis
    by (simp only: take_bit_nat_def) simp
qed

lemma byte_drop_6: "unat (drop_bit 6 b :: byte) = unat b div 64"
  by (simp only: unat_drop_bit_eq drop_bit_nat_def) simp

text \<open>Shifting a byte in is multiplying and adding, as long as the value fits.\<close>

lemma shift_in_byte:
  assumes "unat (v :: u64) < 2 ^ 56"
  shows "unat (push_bit 8 v OR ucast (b :: byte)) = unat v * 256 + unat b"
proof -
  have "push_bit 8 v OR ucast b = push_bit 8 v + ucast b"
    by (rule disjunctive_add [symmetric]) (auto simp: bit_push_bit_iff bit_unsigned_iff dest: bit_imp_le_length)
  also have "\<dots> = word_of_nat (unat v * 256 + unat b)"
    by (simp add: push_bit_eq_mult)
  finally have "unat (push_bit 8 v OR ucast b) = take_bit 64 (unat v * 256 + unat b)"
    by (simp only: unsigned_of_nat) simp
  moreover have "unat v * 256 + unat b < 2 ^ 64"
    using assms unat_word_less [of b] by simp
  ultimately show ?thesis
    by (simp only: take_bit_nat_eq_self)
qed

lemma foldl_shift_in:
  "unat v * 256 ^ length bs + nat_of_be bs < 2 ^ 64 \<Longrightarrow>
   unat (foldl (\<lambda>v b. push_bit 8 v OR ucast b) (v :: u64) (bs :: bytes)) = unat v * 256 ^ length bs + nat_of_be bs"
proof (induction bs rule: rev_induct)
  case (snoc b bs)
  let ?w = "unat v * 256 ^ length bs + nat_of_be bs"
  have w: "?w * 256 + unat b < 2 ^ 64"
    using snoc.prems by (simp add: algebra_simps)
  then have "?w < 2 ^ 56" "?w < 2 ^ 64" by auto
  with snoc.IH have "unat (foldl (\<lambda>v b. push_bit 8 v OR ucast b) v bs) = ?w" by simp
  with shift_in_byte [of "foldl (\<lambda>v b. push_bit 8 v OR ucast b) v bs" b] \<open>?w < 2 ^ 56\<close> show ?case
    by (simp add: algebra_simps)
qed simp

lemma word_of_nat_add_256: "(word_of_nat (a * 256 + n) :: byte) = word_of_nat n"
proof -
  have "word_of_nat 256 = (0 :: byte)"
    by code_simp
  then show ?thesis
    by (simp only: of_nat_add of_nat_mult mult_zero_right add_0)
qed

lemma word_of_unat: "unat w = n \<Longrightarrow> w = word_of_nat n"
  by (auto simp: of_nat_unat)

lemma unat_ucast_byte: "unat (ucast (b :: byte) :: u64) = unat b"
  using unat_word_less [of b] by (simp add: unsigned_ucast_eq take_bit_nat_eq_self)

section \<open>Lemmas: varints\<close>

lemma be_nat_Cons: "be_nat (Suc k) n = word_of_nat (n div 256 ^ k) # be_nat k n"
  by (induction k arbitrary: n) (simp_all add: div_mult2_eq)

lemma be_nat_add_mult: "be_nat k (a * 256 ^ k + n) = be_nat k n"
proof (induction k arbitrary: n)
  case (Suc k)
  have "(a * 256 ^ Suc k + n) div 256 = a * 256 ^ k + n div 256"
    using div_mult_self3 [of 256 "a * 256 ^ k" n] by (simp add: mult.left_commute)
  moreover have "(word_of_nat (a * 256 ^ Suc k + n) :: byte) = word_of_nat n"
    using word_of_nat_add_256 [of "a * 256 ^ k" n] by (simp add: mult_ac)
  ultimately show ?case using Suc by simp
qed simp

text \<open>\<open>varint_at c k\<close>: \<open>Suc k\<close> bytes, of class \<open>c\<close>.\<close>

definition varint_at :: "nat \<Rightarrow> nat \<Rightarrow> nat \<Rightarrow> bytes" where
  "varint_at c k n = word_of_nat (c * 64 + n div 256 ^ k) # be_nat k n"

lemma length_varint_at [simp]: "length (varint_at c k n) = Suc k"
  by (simp add: varint_at_def)

lemma varint_at_be_nat: "be_nat (Suc k) (c * 2 ^ (8 * Suc k - 2) + n) = varint_at c k n"
proof -
  have "(2 :: nat) ^ (8 * Suc k - 2) = 64 * 256 ^ k"
  proof -
    have "8 * Suc k - 2 = 6 + 8 * k" by simp
    then show ?thesis by (simp add: power_add power_mult)
  qed
  then have "c * 2 ^ (8 * Suc k - 2) + n = c * 64 * 256 ^ k + n" by simp
  then show ?thesis
    by (simp only: be_nat_Cons be_nat_add_mult varint_at_def) simp
qed

lemma varint_at_or:
  assumes "n < 64 * 256 ^ k" "(t, c) \<in> {(0x40, 1), (0x80, 2), (0xC0, 3)}"
  shows "(word_of_nat (n div 256 ^ k) OR t) # be_nat k n = varint_at c k n"
proof -
  have "n div 256 ^ k < 64"
    using assms(1) by (simp add: div_less_iff_less_mult mult.commute)
  then have b: "unat (word_of_nat (n div 256 ^ k) :: byte) = n div 256 ^ k"
    by (simp add: unat_of_nat)
  then have "unat (word_of_nat (n div 256 ^ k) :: byte) < 64"
    using \<open>n div 256 ^ k < 64\<close> by simp
  from byte_or_tag [OF this] show ?thesis
    using assms(2) by (auto simp: varint_at_def b add.commute)
qed

lemma decode_varint_Cons:
  assumes "unat (drop_bit 6 b) = c" "Suc k = 2 ^ c" "length bs = k"
  shows "decode_varint (b # bs @ rest) = Some (foldl (\<lambda>v b. push_bit 8 v OR ucast b) (ucast (b AND 0x3F)) bs, Suc k)"
  by (simp add: decode_varint_def assms(1,3) Let_def flip: assms(2))

lemma decode_varint_at:
  assumes "n < 64 * 256 ^ k" "Suc k = 2 ^ c" "c < 4"
  shows "decode_varint (varint_at c k n @ rest) = Some (word_of_nat n, Suc k)"
proof -
  let ?h = "n div 256 ^ k"
  let ?f = "word_of_nat (c * 64 + ?h) :: byte"
  have h: "?h < 64"
    using assms(1) by (simp add: div_less_iff_less_mult mult.commute)
  then have f: "unat ?f = c * 64 + ?h"
    using assms(3) by (intro unat_byte_of_nat) simp
  have c: "unat (drop_bit 6 ?f) = c" and m: "unat (?f AND 0x3F) = ?h"
    using h by (simp_all only: byte_drop_6 byte_and_3F f) simp_all
  have k: "k \<le> 7"
  proof -
    have "(2 :: nat) ^ c \<le> 2 ^ 3" using assms(3) by (intro power_increasing) auto
    with assms(2) show ?thesis by simp
  qed
  have n: "?h * 256 ^ k + nat_of_be (be_nat k n) = n"
    by (simp only: nat_of_be_be_nat div_mult_mod_eq)
  have "n < 2 ^ 64"
  proof -
    have "(256 :: nat) ^ k \<le> 256 ^ 7" using k by (intro power_increasing) auto
    with assms(1) show ?thesis by simp
  qed
  then have "unat (foldl (\<lambda>v b. push_bit 8 v OR ucast b) (ucast (?f AND 0x3F) :: u64) (be_nat k n)) = n"
    by (subst foldl_shift_in) (simp_all only: unat_ucast_byte m n length_be_nat)
  then have "foldl (\<lambda>v b. push_bit 8 v OR ucast b) (ucast (?f AND 0x3F) :: u64) (be_nat k n) = word_of_nat n"
    by (rule word_of_unat)
  then show ?thesis
    by (simp only: varint_at_def append_Cons decode_varint_Cons [OF c assms(2) length_be_nat])
qed

text \<open>The class and the width of a number, and its bytes.\<close>

lemma varint_cases:
  assumes "n < 2 ^ 62"
  obtains c k where "varint_class n = c" "varint_len n = Suc k" "Suc k = 2 ^ c" "c < 4" "n < 64 * 256 ^ k"
proof -
  consider "n < 2 ^ 6" | "2 ^ 6 \<le> n" "n < 2 ^ 14" | "2 ^ 14 \<le> n" "n < 2 ^ 30" | "2 ^ 30 \<le> n"
    by linarith
  then show ?thesis
  proof cases
    case 1
    then show ?thesis by (intro that [of 0 0]) (simp_all add: varint_class_def varint_len_def)
  next
    case 2
    then show ?thesis by (intro that [of 1 1]) (simp_all add: varint_class_def varint_len_def)
  next
    case 3
    then show ?thesis by (intro that [of 2 3]) (simp_all add: varint_class_def varint_len_def)
  next
    case 4
    with assms show ?thesis by (intro that [of 3 7]) (simp_all add: varint_class_def varint_len_def)
  qed
qed

lemma varint_bytes_at:
  "varint_len n = Suc k \<Longrightarrow> varint_bytes n = varint_at (varint_class n) k n"
  by (simp only: varint_bytes_def varint_at_be_nat)

lemma length_varint_bytes [simp]: "length (varint_bytes n) = varint_len n"
  by (simp add: varint_bytes_def)

lemma varint_bounds:
  "(v :: u64) < push_bit 6 1 \<longleftrightarrow> unat v < 2 ^ 6" "v < push_bit 14 1 \<longleftrightarrow> unat v < 2 ^ 14"
  "v < push_bit 30 1 \<longleftrightarrow> unat v < 2 ^ 30" "v < push_bit 62 1 \<longleftrightarrow> unat v < 2 ^ 62"
  by (simp_all add: word_less_nat_alt)

lemma tl_nth2: "length xs = 2 \<Longrightarrow> [xs ! 1] = tl xs"
  and tl_nth4: "length xs = 4 \<Longrightarrow> [xs ! 1, xs ! 2, xs ! 3] = tl xs"
  by (auto simp: numeral_eq_Suc length_Suc_conv)

lemma to_be_bytes_at:
  assumes "LENGTH('a::len) = 8 * Suc k" "unat (v :: u64) < 2 ^ LENGTH('a)"
  shows "to_be_bytes (ucast v :: 'a word) = word_of_nat (unat v div 256 ^ k) # be_nat k (unat v)"
proof -
  have "unat (ucast v :: 'a word) = unat v"
    using assms(2) by (simp add: unsigned_ucast_eq take_bit_nat_eq_self)
  then show ?thesis
    by (simp only: to_be_bytes_def assms(1) be_nat_Cons nonzero_mult_div_cancel_left)
qed

lemma encode_varint_bytes:
  assumes "unat v < 2 ^ 62"
  shows "encode_varint v out = Ret (out @ varint_bytes (unat v))"
proof -
  let ?n = "unat v"
  consider "?n < 2 ^ 6" | "\<not> ?n < 2 ^ 6" "?n < 2 ^ 14" | "\<not> ?n < 2 ^ 6" "\<not> ?n < 2 ^ 14" "?n < 2 ^ 30"
    | "\<not> ?n < 2 ^ 6" "\<not> ?n < 2 ^ 14" "\<not> ?n < 2 ^ 30"
    by linarith
  then show ?thesis
  proof cases
    case 1
    then have "varint_bytes ?n = [word_of_nat ?n]"
      by (simp add: varint_bytes_def varint_len_def varint_class_def)
    with 1 show ?thesis by (simp only: encode_varint_def varint_bounds if_True) (simp add: of_nat_unat)
  next
    case 2
    let ?b = "to_be_bytes (ucast v :: u16)"
    have b: "?b = word_of_nat (?n div 256 ^ 1) # be_nat 1 ?n"
      using 2 by (intro to_be_bytes_at) simp_all
    have "varint_bytes ?n = varint_at 1 1 ?n"
      using 2 by (simp add: varint_bytes_at varint_len_def varint_class_def)
    also have "\<dots> = (?b ! 0 OR 0x40) # tl ?b"
      using 2 by (subst varint_at_or [of _ _ "0x40", symmetric]) (simp_all add: b)
    also have "tl ?b = [?b ! 1]" by (rule tl_nth2 [symmetric]) simp
    finally show ?thesis
      using 2 by (simp only: encode_varint_def varint_bounds if_True if_False Let_def)
  next
    case 3
    let ?b = "to_be_bytes (ucast v :: u32)"
    have b: "?b = word_of_nat (?n div 256 ^ 3) # be_nat 3 ?n"
      using 3 by (intro to_be_bytes_at) simp_all
    have "varint_bytes ?n = varint_at 2 3 ?n"
      using 3 by (simp add: varint_bytes_at varint_len_def varint_class_def)
    also have "\<dots> = (?b ! 0 OR 0x80) # tl ?b"
      using 3 by (subst varint_at_or [of _ _ "0x80", symmetric]) (simp_all add: b)
    also have "tl ?b = [?b ! 1, ?b ! 2, ?b ! 3]" by (rule tl_nth4 [symmetric]) simp
    finally show ?thesis
      using 3 by (simp only: encode_varint_def varint_bounds if_True if_False Let_def)
  next
    case 4
    let ?b = "to_be_bytes v"
    have b: "?b = word_of_nat (?n div 256 ^ 7) # be_nat 7 ?n"
      using to_be_bytes_at [of 7 v, where ?'a = 64] assms by simp
    have "varint_bytes ?n = varint_at 3 7 ?n"
      using 4 by (simp add: varint_bytes_at varint_len_def varint_class_def)
    also have "\<dots> = (?b ! 0 OR 0xC0) # drop 1 ?b"
      using assms by (subst varint_at_or [of _ _ "0xC0", symmetric]) (simp_all add: b)
    finally show ?thesis
      using 4 assms by (simp only: encode_varint_def varint_bounds if_True if_False Let_def) simp
  qed
qed

lemma encode_varint_panics: "encode_varint v out = Panic \<longleftrightarrow> \<not> unat v < 2 ^ 62"
proof (cases "unat v < 2 ^ 62")
  case False
  then have "\<not> unat v < 2 ^ 6" "\<not> unat v < 2 ^ 14" "\<not> unat v < 2 ^ 30" by simp_all
  with False show ?thesis
    by (simp only: encode_varint_def varint_bounds if_False) simp
qed (simp add: encode_varint_bytes)

lemma varint_width_len: "unat v < 2 ^ 62 \<Longrightarrow> varint_width v = varint_len (unat v)"
  by (simp only: varint_width_def varint_len_def varint_bounds)

lemma decode_varint_bytes:
  assumes "n < 2 ^ 62"
  shows "decode_varint (varint_bytes n @ rest) = Some (word_of_nat n, varint_len n)"
  using assms
proof (rule varint_cases)
  fix c k
  assume c: "varint_class n = c" and k: "varint_len n = Suc k" and "Suc k = 2 ^ c" "c < 4" "n < 64 * 256 ^ k"
  then have "decode_varint (varint_at c k n @ rest) = Some (word_of_nat n, Suc k)"
    by (intro decode_varint_at)
  then show ?thesis
    by (simp only: varint_bytes_at [OF k] c k)
qed

lemma decode_varint_length: "decode_varint buf = Some (v, n) \<Longrightarrow> 0 < n \<and> n \<le> length buf"
  by (auto simp: decode_varint_def Let_def split: list.splits if_splits)

lemma decode_varint_bound:
  assumes "decode_varint buf = Some (v, n)"
  shows "unat v < 2 ^ (8 * n - 2) \<and> n \<in> {1, 2, 4, 8}"
proof -
  obtain b bs where buf: "buf = b # bs"
    using assms by (cases buf) (auto simp: decode_varint_def)
  let ?c = "unat (drop_bit 6 b)"
  let ?t = "take (2 ^ ?c - 1) bs"
  have "?c < 4"
    using unat_word_less [of b] by (simp only: byte_drop_6) simp
  then have "?c = 0 \<or> ?c = 1 \<or> ?c = 2 \<or> ?c = 3" by linarith
  have n: "n = 2 ^ ?c" and len: "length ?t = n - 1"
    and v: "v = foldl (\<lambda>v b. push_bit 8 v OR ucast b) (ucast (b AND 0x3F)) ?t"
    using assms buf by (auto simp: decode_varint_def Let_def take_Cons' split: if_splits)
  have n4: "n \<in> {1, 2, 4, 8}"
    using \<open>?c = 0 \<or> ?c = 1 \<or> ?c = 2 \<or> ?c = 3\<close> n by auto
  have "unat b mod 64 * 256 ^ (n - 1) + nat_of_be ?t < (unat b mod 64 + 1) * 256 ^ (n - 1)"
    using nat_of_be_less [of ?t] by (simp only: len add_mult_distrib)
  also have "\<dots> \<le> 64 * 256 ^ (n - 1)"
    by (intro mult_right_mono) (simp_all add: Suc_leI)
  finally have le: "unat b mod 64 * 256 ^ (n - 1) + nat_of_be ?t < 64 * 256 ^ (n - 1)" .
  have "(64 :: nat) * 256 ^ (n - 1) = 2 ^ (8 * n - 2)" "(64 :: nat) * 256 ^ (n - 1) \<le> 2 ^ 64"
    using n4 by auto
  moreover have "unat v = unat b mod 64 * 256 ^ (n - 1) + nat_of_be ?t"
    unfolding v using le calculation(2)
    by (subst foldl_shift_in) (simp_all only: unat_ucast_byte byte_and_3F len)
  ultimately show ?thesis
    using le n4 by simp
qed

lemma varint_len_least: "n \<in> {1, 2, 4, 8} \<Longrightarrow> m < 2 ^ (8 * n - 2) \<Longrightarrow> varint_len m \<le> n"
  by (auto simp: varint_len_def)

section \<open>The varint code\<close>

definition varint :: "u64 \<Rightarrow> bytes" where
  "varint v = (case encode_varint v [] of Ret bs \<Rightarrow> bs | _ \<Rightarrow> [])"

lemma varint_eq: "unat v < 2 ^ 62 \<Longrightarrow> varint v = varint_bytes (unat v)"
  by (simp add: varint_def encode_varint_bytes)

lemma encode_varint_varint: "unat v < 2 ^ 62 \<Longrightarrow> encode_varint v out = Ret (out @ varint v)"
  by (simp add: encode_varint_bytes varint_eq)

interpretation vi: prefix_code "\<lambda>v. unat v < 2 ^ 62" varint decode_varint
proof unfold_locales
  fix v rest
  assume "unat (v :: u64) < 2 ^ 62"
  then show "decode_varint (varint v @ rest) = Some (v, length (varint v))"
    by (simp only: varint_eq decode_varint_bytes length_varint_bytes) (simp add: of_nat_unat)
qed (rule decode_varint_length)

text \<open>
  C27. A number below 2^62 is appended as \<open>varint_width\<close> bytes, from which the decoder reads
  the number and that width back whatever bytes follow, and nothing the decoder accepts
  for the same number is shorter; a larger number panics.
\<close>

theorem varint_roundtrip:
  "if unat v < 2 ^ 62
   then \<exists>bs. encode_varint v out = Ret (out @ bs) \<and> length bs = varint_width v
          \<and> decode_varint (bs @ rest) = Some (v, varint_width v)
          \<and> (\<forall>buf n. decode_varint buf = Some (v, n) \<longrightarrow> varint_width v \<le> n)
   else encode_varint v out = Panic"
proof (cases "unat v < 2 ^ 62")
  case True
  have "length (varint v) = varint_width v"
    using True by (simp add: varint_eq varint_width_len)
  moreover have "varint_width v \<le> n" if "decode_varint buf = Some (v, n)" for buf n
    using decode_varint_bound [OF that] varint_len_least [of n "unat v"] varint_width_len [OF True] by simp
  ultimately show ?thesis
    using True vi.dec_enc [of v rest] encode_varint_varint [of v out] by auto
next
  case False
  then show ?thesis using encode_varint_panics [of v out] by simp
qed

theorem varint_roundtrip_witness:
  "\<exists>bs. encode_varint 16384 [7] = Ret ([7] @ bs) \<and> length bs = varint_width 16384
      \<and> decode_varint (bs @ [1, 2]) = Some (16384, varint_width 16384)
      \<and> (\<forall>buf n. decode_varint buf = Some (16384, n) \<longrightarrow> varint_width 16384 \<le> n)"
  using varint_roundtrip [of 16384 "[7]" "[1, 2]"] by simp

end
