(* ===== verification/Quic_Packet.thy ===== *)
theory Quic_Packet
  imports Quic_Keys Wire_Codec
begin

text \<open>
  The packet layer of the conformance harness
  (\<open>conformance/tls-conformance/src/quic_packet.rs\<close>): the wrappers around the keys
  operations of \<open>librustls-mojo\<close>, the packet builder, and the header and
  CONNECTION_CLOSE parsers. The state of the shim is threaded through every wrapper; a
  slice passed to it is the region its pointer designates.
\<close>

section \<open>Types\<close>

datatype Role = Client | Server

record FfiError =
  fe_code :: i32

text \<open>\<open>KeysHandle(pub i32)\<close>.\<close>

type_synonym KeysHandle = i32

record LongHeader =
  lh_version :: u32
  lh_packet_type :: byte
  lh_dcid :: bytes
  lh_scid :: bytes
  lh_token :: bytes
  lh_payload_offset :: nat
  lh_length :: nat

record ShortHeader =
  sh_dcid :: bytes
  sh_packet_number_offset :: nat

record ConnectionClose =
  cc_error_code :: u64
  cc_frame_type :: byte
  cc_reason :: string

definition QUIC_VERSION_V1 :: i32 where
  "QUIC_VERSION_V1 = 1"

definition MAX_CID_LEN :: nat where
  "MAX_CID_LEN = 20"

definition INITIAL_MIN_BYTES :: nat where
  "INITIAL_MIN_BYTES = 1200"

record PacketBuilder =
  pb_dcid :: bytes
  pb_scid :: bytes
  pb_packet_number :: u64

section \<open>Keys\<close>

definition err :: FfiError where
  "err = \<lparr>fe_code = -1\<rparr>"

definition role_to_int :: "Role \<Rightarrow> i32" where
  "role_to_int role = (case role of Client \<Rightarrow> 1 | Server \<Rightarrow> 0)"

definition KeysHandle_drop :: "KeysHandle \<Rightarrow> 'z keys_shim_scheme \<Rightarrow> 'z keys_shim_scheme outcome" where
  "KeysHandle_drop keys s = (if 0 < sint keys then omap snd (rlsm_keys_free keys s) else Ret s)"

definition initial_keys ::
  "suite_api \<Rightarrow> Role \<Rightarrow> bytes \<Rightarrow> 'z keys_shim_scheme \<Rightarrow> ((FfiError + KeysHandle) \<times> 'z keys_shim_scheme) outcome" where
  "initial_keys suite role dcid s =
     (case i32_try_from (length dcid) of
        None \<Rightarrow> Ret (Inl err, s)
      | Some dcid_len \<Rightarrow>
          obind (rlsm_initial_keys suite QUIC_VERSION_V1 (Ptr dcid) dcid_len (role_to_int role) s) (\<lambda>(h, s).
          Ret (if sint h \<le> 0 then Inl \<lparr>fe_code = h\<rparr> else Inr h, s)))"

definition keys_tag_len :: "KeysHandle \<Rightarrow> 'z keys_shim_scheme \<Rightarrow> ((FfiError + nat) \<times> 'z keys_shim_scheme) outcome" where
  "keys_tag_len keys s =
     obind (rlsm_keys_tag_len keys s) (\<lambda>(n, s).
     Ret (if sint n < 0 then Inl \<lparr>fe_code = n\<rparr> else Inr (usize_of_i32 n), s))"

text \<open>The content of a slice after a call that was given its pointer.\<close>

fun region :: "bytes ptr \<Rightarrow> bytes" where
  "region Null = []"
| "region (Ptr mem) = mem"

definition local_encrypt ::
  "KeysHandle \<Rightarrow> u64 \<Rightarrow> bytes \<Rightarrow> bytes \<Rightarrow> nat \<Rightarrow> 'z keys_shim_scheme \<Rightarrow>
   (((FfiError + nat) \<times> bytes) \<times> 'z keys_shim_scheme) outcome" where
  "local_encrypt keys pn header payload plaintext_len s =
     (case (i32_try_from (length header), i32_try_from (length payload), i32_try_from plaintext_len) of
        (Some hl, Some cap, Some pt) \<Rightarrow>
          obind (rlsm_keys_local_encrypt keys pn (Ptr header) hl (Ptr payload) pt cap s) (\<lambda>((rc, payload), s).
          Ret ((if sint rc < 0 then Inl \<lparr>fe_code = rc\<rparr> else Inr (usize_of_i32 rc), region payload), s))
      | _ \<Rightarrow> Ret ((Inl err, payload), s))"

definition local_header_protect ::
  "KeysHandle \<Rightarrow> bytes \<Rightarrow> byte \<Rightarrow> bytes \<Rightarrow> 'z keys_shim_scheme \<Rightarrow>
   (((FfiError + unit) \<times> byte \<times> bytes) \<times> 'z keys_shim_scheme) outcome" where
  "local_header_protect keys sample first_byte pn_bytes s =
     (case (i32_try_from (length sample), i32_try_from (length pn_bytes)) of
        (Some sl, Some pl) \<Rightarrow>
          obind (rlsm_keys_local_header_protect keys (Ptr sample) sl (Ptr first_byte) (Ptr pn_bytes) pl s)
            (\<lambda>((rc, first_byte, pn_bytes), s).
          obind (deref first_byte) (\<lambda>first_byte.
          Ret ((if rc = 0 then Inr () else Inl \<lparr>fe_code = rc\<rparr>, first_byte, region pn_bytes), s)))
      | _ \<Rightarrow> Ret ((Inl err, first_byte, pn_bytes), s))"

definition remote_decrypt ::
  "KeysHandle \<Rightarrow> u64 \<Rightarrow> bytes \<Rightarrow> bytes \<Rightarrow> 'z keys_shim_scheme \<Rightarrow>
   (((FfiError + nat) \<times> bytes) \<times> 'z keys_shim_scheme) outcome" where
  "remote_decrypt keys pn header payload s =
     (case (i32_try_from (length header), i32_try_from (length payload)) of
        (Some hl, Some pl) \<Rightarrow>
          obind (rlsm_keys_remote_decrypt keys pn (Ptr header) hl (Ptr payload) pl s) (\<lambda>((rc, payload), s).
          Ret ((if sint rc < 0 then Inl \<lparr>fe_code = rc\<rparr> else Inr (usize_of_i32 rc), region payload), s))
      | _ \<Rightarrow> Ret ((Inl err, payload), s))"

definition remote_header_unprotect ::
  "KeysHandle \<Rightarrow> bytes \<Rightarrow> byte \<Rightarrow> bytes \<Rightarrow> 'z keys_shim_scheme \<Rightarrow>
   (((FfiError + unit) \<times> byte \<times> bytes) \<times> 'z keys_shim_scheme) outcome" where
  "remote_header_unprotect keys sample first_byte pn_bytes s =
     (case (i32_try_from (length sample), i32_try_from (length pn_bytes)) of
        (Some sl, Some pl) \<Rightarrow>
          obind (rlsm_keys_remote_header_unprotect keys (Ptr sample) sl (Ptr first_byte) (Ptr pn_bytes) pl s)
            (\<lambda>((rc, first_byte, pn_bytes), s).
          obind (deref first_byte) (\<lambda>first_byte.
          Ret ((if rc = 0 then Inr () else Inl \<lparr>fe_code = rc\<rparr>, first_byte, region pn_bytes), s)))
      | _ \<Rightarrow> Ret ((Inl err, first_byte, pn_bytes), s))"

section \<open>Building packets\<close>

definition PacketBuilder_new :: "bytes \<Rightarrow> bytes \<Rightarrow> PacketBuilder outcome" where
  "PacketBuilder_new dcid scid =
     (if length dcid \<le> MAX_CID_LEN \<and> length scid \<le> MAX_CID_LEN
      then Ret \<lparr>pb_dcid = dcid, pb_scid = scid, pb_packet_number = 0\<rparr> else Panic)"

text \<open>
  Masks the packet in place: the sample is read first, then \<open>split_at_mut\<close> gives the first
  byte and the packet-number bytes.
\<close>

definition protect_header_in_place ::
  "bytes \<Rightarrow> nat \<Rightarrow> nat \<Rightarrow> KeysHandle \<Rightarrow> 'z keys_shim_scheme \<Rightarrow> (bytes \<times> 'z keys_shim_scheme) outcome" where
  "protect_header_in_place pkt pn_offset pn_length keys s =
     (let so = pn_offset + 4 in
      obind (slice_range so (so + 16) pkt) (\<lambda>sample.
      obind (split_at pn_offset pkt) (\<lambda>(head, rest).
      obind (index head 0) (\<lambda>first_byte.
      obind (slice_range 0 pn_length rest) (\<lambda>pn_bytes.
      obind (local_header_protect keys sample first_byte pn_bytes s) (\<lambda>((r, first_byte, pn_bytes), s).
      obind (expect r) (\<lambda>_.
      Ret (head[0 := first_byte] @ pn_bytes @ drop pn_length rest, s))))))))"

text \<open>
  The assertions are those of a build with debug assertions; \<open>self\<close> is the builder, returned
  updated with the packet.
\<close>

definition encode_long ::
  "byte \<Rightarrow> bytes \<Rightarrow> KeysHandle \<Rightarrow> bool \<Rightarrow> PacketBuilder \<Rightarrow> 'z keys_shim_scheme \<Rightarrow>
   (bytes \<times> PacketBuilder \<times> 'z keys_shim_scheme) outcome" where
  "encode_long packet_type crypto_payload keys is_initial self s =
     (let pn = pb_packet_number self; pn_length = 4 in
      obind (keys_tag_len keys s) (\<lambda>(r, s).
      obind (expect r) (\<lambda>tag_len.
      obind (encode_varint 0 [0x06]) (\<lambda>qp.
      obind (encode_varint (word_of_nat (length crypto_payload)) qp) (\<lambda>qp.
      let qp = qp @ crypto_payload;
          h = [0xC0 OR push_bit 4 packet_type OR (word_of_nat pn_length - 1)] @ to_be_bytes (1 :: u32)
            @ [word_of_nat (length (pb_dcid self))] @ pb_dcid self
            @ [word_of_nat (length (pb_scid self))] @ pb_scid self in
      obind (if is_initial then encode_varint 0 h else Ret h) (\<lambda>h.
      let unpadded = pn_length + length qp + tag_len;
          lvw = (if is_initial then 2 else varint_width (word_of_nat unpadded));
          qp = (if is_initial then
                  let tot = length h + lvw + unpadded in
                  if tot < INITIAL_MIN_BYTES then qp @ replicate (INITIAL_MIN_BYTES - tot) 0 else qp
                else qp);
          len = pn_length + length qp + tag_len in
      obind (if is_initial then
               if len < 2 ^ 14 then
                 let b = to_be_bytes (word_of_nat len :: u16) in Ret (h @ [b ! 0 OR 0x40, b ! 1])
               else Panic
             else encode_varint (word_of_nat len) h) (\<lambda>h.
      let pn_offset = length h;
          h = h @ to_be_bytes (ucast pn :: u32);
          header_len = length h;
          pkt = h @ qp @ replicate tag_len 0;
          plaintext_len = length qp in
      obind (slice_range 0 header_len pkt) (\<lambda>header_bytes.
      obind (slice_from header_len pkt) (\<lambda>payload.
      obind (local_encrypt keys pn header_bytes payload plaintext_len s) (\<lambda>((r, payload), s).
      obind (expect r) (\<lambda>ct.
      if ct \<noteq> plaintext_len + tag_len then Panic
      else
        obind (protect_header_in_place (header_bytes @ payload) pn_offset pn_length keys s) (\<lambda>(pkt, s).
        Ret (pkt, self\<lparr>pb_packet_number := pb_packet_number self + 1\<rparr>, s)))))))))))))"

definition encode_initial ::
  "bytes \<Rightarrow> KeysHandle \<Rightarrow> PacketBuilder \<Rightarrow> 'z keys_shim_scheme \<Rightarrow>
   (bytes \<times> PacketBuilder \<times> 'z keys_shim_scheme) outcome" where
  "encode_initial crypto_payload keys self s = encode_long 0 crypto_payload keys True self s"

definition encode_handshake ::
  "bytes \<Rightarrow> KeysHandle \<Rightarrow> PacketBuilder \<Rightarrow> 'z keys_shim_scheme \<Rightarrow>
   (bytes \<times> PacketBuilder \<times> 'z keys_shim_scheme) outcome" where
  "encode_handshake crypto_payload keys self s = encode_long 2 crypto_payload keys False self s"

definition encode_1rtt ::
  "bytes \<Rightarrow> KeysHandle \<Rightarrow> PacketBuilder \<Rightarrow> 'z keys_shim_scheme \<Rightarrow>
   (bytes \<times> PacketBuilder \<times> 'z keys_shim_scheme) outcome" where
  "encode_1rtt payload keys self s =
     (let pn = pb_packet_number self; pn_length = 4 in
      obind (keys_tag_len keys s) (\<lambda>(r, s).
      obind (expect r) (\<lambda>tag_len.
      let pkt = [0x40 OR (word_of_nat pn_length - 1)] @ pb_dcid self;
          pn_offset = length pkt;
          pkt = pkt @ to_be_bytes (ucast pn :: u32);
          header_len = pn_offset + pn_length;
          plaintext_len = length payload;
          pkt = pkt @ payload @ replicate tag_len 0 in
      obind (slice_range 0 header_len pkt) (\<lambda>header_bytes.
      obind (slice_from header_len pkt) (\<lambda>buf.
      obind (local_encrypt keys pn header_bytes buf plaintext_len s) (\<lambda>((r, buf), s).
      obind (expect r) (\<lambda>ct.
      if ct \<noteq> plaintext_len + tag_len then Panic
      else
        obind (protect_header_in_place (header_bytes @ buf) pn_offset pn_length keys s) (\<lambda>(pkt, s).
        Ret (pkt, self\<lparr>pb_packet_number := pb_packet_number self + 1\<rparr>, s)))))))))"

section \<open>Parsing\<close>

text \<open>Every slice is one that could panic, every \<open>?\<close> an early \<open>None\<close>.\<close>

definition parse_token :: "byte \<Rightarrow> nat \<Rightarrow> bytes \<Rightarrow> (bytes \<times> nat) option outcome" where
  "parse_token packet_type i buf =
     (if packet_type = 0 then
        obind (slice_from i buf) (\<lambda>t.
        case decode_varint t of
          None \<Rightarrow> Ret None
        | Some (tlen, c) \<Rightarrow>
            let i = i + c; tlen = unat tlen in
            if length buf < i + tlen then Ret None
            else omap (\<lambda>t. Some (t, i + tlen)) (slice_range i (i + tlen) buf))
      else Ret (Some ([], i)))"

definition parse_long_header :: "bytes \<Rightarrow> LongHeader option outcome" where
  "parse_long_header buf =
     (if length buf < 7 \<or> buf ! 0 AND 0x80 = 0 then Ret None
      else
        let packet_type = drop_bit 4 (buf ! 0) AND 0x03;
            version = from_be_bytes [buf ! 1, buf ! 2, buf ! 3, buf ! 4];
            i = 5 in
        case get buf i of
          None \<Rightarrow> Ret None
        | Some dcil \<Rightarrow>
            let dcil = unat dcil; i = i + 1 in
            if dcil > MAX_CID_LEN \<or> length buf < i + dcil then Ret None
            else
              obind (slice_range i (i + dcil) buf) (\<lambda>dcid.
              let i = i + dcil in
              case get buf i of
                None \<Rightarrow> Ret None
              | Some scil \<Rightarrow>
                  let scil = unat scil; i = i + 1 in
                  if scil > MAX_CID_LEN \<or> length buf < i + scil then Ret None
                  else
                    obind (slice_range i (i + scil) buf) (\<lambda>scid.
                    let i = i + scil in
                    obind (parse_token packet_type i buf) (\<lambda>r.
                    case r of
                      None \<Rightarrow> Ret None
                    | Some (token, i) \<Rightarrow>
                        obind (slice_from i buf) (\<lambda>t.
                        case decode_varint t of
                          None \<Rightarrow> Ret None
                        | Some (len, c) \<Rightarrow>
                            let i = i + c; len = unat len in
                            if length buf < i + len then Ret None
                            else Ret (Some \<lparr>lh_version = version, lh_packet_type = packet_type, lh_dcid = dcid,
                              lh_scid = scid, lh_token = token, lh_payload_offset = i, lh_length = len\<rparr>))))))"

definition parse_short_header :: "bytes \<Rightarrow> nat \<Rightarrow> ShortHeader option outcome" where
  "parse_short_header buf dcid_len =
     (if buf = [] \<or> buf ! 0 AND 0x80 \<noteq> 0 \<or> length buf < 1 + dcid_len then Ret None
      else obind (slice_range 1 (1 + dcid_len) buf) (\<lambda>dcid.
        Ret (Some \<lparr>sh_dcid = dcid, sh_packet_number_offset = 1 + dcid_len\<rparr>)))"

definition parse_connection_close :: "bytes \<Rightarrow> ConnectionClose option outcome" where
  "parse_connection_close payload =
     (case get payload 0 of
        None \<Rightarrow> Ret None
      | Some frame_type \<Rightarrow>
          if frame_type \<noteq> 0x1c \<and> frame_type \<noteq> 0x1d then Ret None
          else
            let i = 1 in
            obind (slice_from i payload) (\<lambda>t.
            case decode_varint t of
              None \<Rightarrow> Ret None
            | Some (error_code, c) \<Rightarrow>
                let i = i + c in
                obind (if frame_type = 0x1c then
                         omap (\<lambda>t. map_option (\<lambda>(_, c). i + c) (decode_varint t)) (slice_from i payload)
                       else Ret (Some i)) (\<lambda>r.
                case r of
                  None \<Rightarrow> Ret None
                | Some i \<Rightarrow>
                    obind (slice_from i payload) (\<lambda>t.
                    case decode_varint t of
                      None \<Rightarrow> Ret None
                    | Some (rl, c) \<Rightarrow>
                        let i = i + c; rl = unat rl in
                        if length payload < i + rl then Ret None
                        else
                          obind (slice_range i (i + rl) payload) (\<lambda>reason.
                          Ret (Some \<lparr>cc_error_code = error_code, cc_frame_type = frame_type,
                            cc_reason = from_utf8_lossy reason\<rparr>))))))"

section \<open>What the code relies on about packet keys\<close>

text \<open>The AEAD seals any payload, header protection masks under a 16-byte sample.\<close>

definition seals :: "packet_key \<Rightarrow> bool" where
  "seals k \<longleftrightarrow> (\<forall>pn h p. length p < 2 ^ 31 \<longrightarrow> (\<exists>tag c. pk_encrypt_in_place k pn h p = (Inr tag, c)))"

definition masks :: "header_key \<Rightarrow> bool" where
  "masks k \<longleftrightarrow> (\<forall>sample b pn. length sample = 16 \<longrightarrow> length pn \<le> 4 \<longrightarrow>
     (\<exists>b' pn'. hk_encrypt_in_place k sample b pn = (Inr (), b', pn')))"

text \<open>One endpoint's sending keys and the peer's receiving keys for them.\<close>

definition paired :: "directional_keys \<Rightarrow> directional_keys \<Rightarrow> bool" where
  "paired tx rx \<longleftrightarrow>
     wf_packet_key (dk_packet tx) \<and> wf_header_key (dk_header tx) \<and> pk_tag_len (dk_packet tx) = 16
   \<and> seals (dk_packet tx) \<and> masks (dk_header tx) \<and> keeps_form (dk_header tx)
   \<and> opens (dk_packet tx) (dk_packet rx) \<and> unmasks (dk_header tx) (dk_header rx)"

text \<open>
  A protected packet with a four-byte packet number: first byte \<open>b\<close>, header bytes \<open>hs\<close>
  after it, packet-number bytes \<open>pnb\<close>, payload \<open>qp\<close>.
\<close>

definition protected :: "directional_keys \<Rightarrow> u64 \<Rightarrow> byte \<Rightarrow> bytes \<Rightarrow> bytes \<Rightarrow> bytes \<Rightarrow> bytes \<Rightarrow> bool" where
  "protected tx pn b hs pnb qp pkt \<longleftrightarrow> (\<exists>tag c b' pn'.
     pk_encrypt_in_place (dk_packet tx) pn (b # hs @ pnb) qp = (Inr tag, c)
   \<and> hk_encrypt_in_place (dk_header tx) (take 16 (c @ tag)) b pnb = (Inr (), b', pn')
   \<and> pkt = b' # hs @ pn' @ c @ tag)"

text \<open>The frame and the header the builder writes.\<close>

definition crypto_frame :: "u64 \<Rightarrow> bytes \<Rightarrow> bytes" where
  "crypto_frame off d = 0x06 # varint off @ varint (word_of_nat (length d)) @ d"

definition long_prefix :: "bytes \<Rightarrow> bytes \<Rightarrow> bytes \<Rightarrow> bytes" where
  "long_prefix dcid scid tok =
     to_be_bytes (1 :: u32) @ [word_of_nat (length dcid)] @ dcid @ [word_of_nat (length scid)] @ scid @ tok"

section \<open>Lemmas: parsing\<close>

text \<open>Returns, with a value that satisfies \<open>P\<close>.\<close>

definition ensures :: "'a outcome \<Rightarrow> ('a \<Rightarrow> bool) \<Rightarrow> bool" where
  "ensures m P = (case m of Ret x \<Rightarrow> P x | _ \<Rightarrow> False)"

lemma ensures_simps [simp]: "ensures (Ret x) P = P x" "\<not> ensures Panic P" "\<not> ensures Undef P"
  by (simp_all add: ensures_def)

lemma ensures_iff: "ensures m P \<longleftrightarrow> (\<exists>x. m = Ret x \<and> P x)"
  by (cases m) auto

lemma ensures_obind: "ensures m Q \<Longrightarrow> (\<And>x. Q x \<Longrightarrow> ensures (f x) P) \<Longrightarrow> ensures (obind m f) P"
  by (cases m) auto

lemma decode_varint_drop:
  "decode_varint (drop i buf) = Some (v, n) \<Longrightarrow> i \<le> length buf \<Longrightarrow> i + n \<le> length buf"
  using decode_varint_length [of "drop i buf" v n] by auto

lemma parse_token_ensures:
  "i \<le> length buf \<Longrightarrow>
   ensures (parse_token ty i buf) (\<lambda>r. \<forall>t j. r = Some (t, j) \<longrightarrow> i \<le> j \<and> j \<le> length buf)"
  by (auto simp: parse_token_def Let_def split: option.splits)

definition fits :: "bytes \<Rightarrow> LongHeader \<Rightarrow> bool" where
  "fits buf h \<longleftrightarrow> length (lh_dcid h) \<le> 20 \<and> length (lh_scid h) \<le> 20 \<and> 7 \<le> lh_payload_offset h
     \<and> lh_payload_offset h + lh_length h \<le> length buf"

lemma parse_long_header_ensures:
  "ensures (parse_long_header buf) (\<lambda>r. \<forall>h. r = Some h \<longrightarrow> fits buf h)"
  by (auto simp: parse_long_header_def get_def Let_def fits_def MAX_CID_LEN_def
      intro!: ensures_obind [OF parse_token_ensures] split: option.split prod.split)

lemma parse_short_header_ensures:
  "ensures (parse_short_header buf n)
     (\<lambda>r. \<forall>h. r = Some h \<longrightarrow> sh_packet_number_offset h \<le> length buf \<and> length (sh_dcid h) = n)"
  by (auto simp: parse_short_header_def)

lemma ensures_decode:
  "i \<le> length buf \<Longrightarrow> ensures a P \<Longrightarrow> (\<And>v n. i + n \<le> length buf \<Longrightarrow> ensures (f v n) P) \<Longrightarrow>
   ensures (obind (slice_from i buf) (\<lambda>t. case decode_varint t of None \<Rightarrow> a | Some (v, n) \<Rightarrow> f v n)) P"
  using decode_varint_drop by (auto split: option.split)

lemma skip_varint_ensures:
  "i \<le> length buf \<Longrightarrow>
   ensures (omap (\<lambda>t. map_option (\<lambda>(_, c). i + c) (decode_varint t)) (slice_from i buf))
     (\<lambda>r. \<forall>j. r = Some j \<longrightarrow> j \<le> length buf)"
  using decode_varint_drop by auto

lemma parse_connection_close_ensures: "ensures (parse_connection_close payload) (\<lambda>_. True)"
proof (cases "payload = []")
  case False
  then have "1 \<le> length payload" by (simp add: Suc_le_eq)
  then show ?thesis
    unfolding parse_connection_close_def get_def Let_def
    by (auto simp del: slice_from_in One_nat_def intro!: ensures_decode ensures_obind [OF skip_varint_ensures]
        split: option.split)
qed (simp add: parse_connection_close_def get_def)

section \<open>Lemmas: sealing a packet\<close>

lemma slice_range_prefix: "n = length xs \<Longrightarrow> slice_range 0 n (xs @ ys) = Ret xs"
  and slice_from_prefix: "n = length xs \<Longrightarrow> slice_from n (xs @ ys) = Ret ys"
  by simp_all

lemma keys_tag_len_16:
  "KEYS_TABLE s h = Some e \<Longrightarrow> pk_tag_len (dk_packet (ke_local e)) = 16 \<Longrightarrow>
   keys_tag_len h s = Ret (Inr 16, clear_last_error s)"
  by (simp add: keys_tag_len_def rlsm_keys_tag_len_def HandleTable_with_def Let_def sint_i32_of_usize)

lemma pairedD:
  assumes "paired tx rx"
  shows "wf_packet_key (dk_packet tx)" "wf_header_key (dk_header tx)" "pk_tag_len (dk_packet tx) = 16"
    "seals (dk_packet tx)" "masks (dk_header tx)" "keeps_form (dk_header tx)"
    "opens (dk_packet tx) (dk_packet rx)" "unmasks (dk_header tx) (dk_header rx)"
  using assms by (simp_all add: paired_def)

lemma protected_exists:
  assumes "paired tx rx" "length pnb = 4" "length qp < 2 ^ 31"
  obtains tag c b' pn' where "pk_encrypt_in_place (dk_packet tx) pn (b # hs @ pnb) qp = (Inr tag, c)"
    "hk_encrypt_in_place (dk_header tx) (take 16 (c @ tag)) b pnb = (Inr (), b', pn')"
    "length tag = 16" "length c = length qp" "length pn' = 4"
proof -
  note k = pairedD [OF assms(1)]
  obtain tag c where 1: "pk_encrypt_in_place (dk_packet tx) pn (b # hs @ pnb) qp = (Inr tag, c)"
    using k(4) assms(3) unfolding seals_def by metis
  have len: "length tag = 16" "length c = length qp"
    using wf_packet_keyD(1,2) [OF k(1) 1] k(3) by simp_all
  then have "length (take 16 (c @ tag)) = 16" by simp
  then obtain b' pn' where 2: "hk_encrypt_in_place (dk_header tx) (take 16 (c @ tag)) b pnb = (Inr (), b', pn')"
    using k(5) assms(2) unfolding masks_def by (metis order_refl)
  have "length pn' = 4"
    using wf_header_keyD(1) [OF k(2) 2] assms(2) by simp
  with 1 2 len show ?thesis by (rule that)
qed

lemma local_encrypt_seals:
  assumes "KEYS_TABLE s h = Some e" "\<not> reuses pn e" "length hdr < 2 ^ 31" "length qp + 16 < 2 ^ 31"
    and "pk_encrypt_in_place (dk_packet (ke_local e)) pn hdr qp = (Inr tag, c)" "length tag = 16" "length c = length qp"
  shows "local_encrypt h pn hdr (qp @ replicate 16 0) (length qp) s =
    Ret ((Inr (length qp + 16), c @ tag), (clear_last_error s)\<lparr>KEYS_TABLE := (KEYS_TABLE s)(h \<mapsto> e\<lparr>last_local_pn := Some pn\<rparr>)\<rparr>)"
proof -
  have "local_encrypt_entry pn hdr (length qp) (qp @ replicate 16 0) e =
      (Inr (length qp + 16), c @ tag, e\<lparr>last_local_pn := Some pn\<rparr>)"
    using assms(2,5,6) by (simp add: local_encrypt_entry_def reuses_def)
  then show ?thesis
    using local_encrypt_valid [of "length hdr" hdr "length qp" "length qp + 16" "qp @ replicate 16 0" s h e pn] assms
    by (simp add: local_encrypt_def sint_i32_of_usize)
qed

lemma protect_header_masks:
  assumes "KEYS_TABLE s h = Some e" "length pnb = 4" "length pn' = 4" "16 \<le> length ct"
    and "hk_encrypt_in_place (dk_header (ke_local e)) (take 16 ct) b pnb = (Inr (), b', pn')"
    and o: "off = Suc (length hs)"
  shows "protect_header_in_place ((b # hs @ pnb) @ ct) off 4 h s = Ret (b' # hs @ pn' @ ct, clear_last_error s)"
proof -
  have "local_header_protect h (take 16 ct) b pnb s = Ret ((Inr (), b', pn'), clear_last_error s)"
    using header_protect_valid [of 16 "take 16 ct" 4 pnb s h e b b' pn'] assms
    by (simp add: local_header_protect_def deref_Ptr)
  moreover have "drop (5 + length hs) (b # hs @ pnb @ ct) = ct"
    using assms(2) append_eq_conv_conj [of "b # hs @ pnb" ct "b # hs @ pnb @ ct"] by simp
  ultimately show ?thesis
    using assms(2-4) by (simp add: protect_header_in_place_def Let_def o)
qed

text \<open>Sealing and masking in a row, as the builders do.\<close>

lemma seal_packet:
  assumes "KEYS_TABLE s h = Some e" "paired (ke_local e) rx" "\<not> reuses pn e"
    and "length pnb = 4" "length (b # hs @ pnb) < 2 ^ 31" "length qp + 16 < 2 ^ 31"
  obtains ct s' pkt where
    "local_encrypt h pn (b # hs @ pnb) (qp @ replicate 16 0) (length qp) s = Ret ((Inr (length qp + 16), ct), s')"
    "protect_header_in_place ((b # hs @ pnb) @ ct) (Suc (length hs)) 4 h s' = Ret (pkt, clear_last_error s')"
    "protected (ke_local e) pn b hs pnb qp pkt"
    "KEYS_TABLE s' = (KEYS_TABLE s)(h \<mapsto> e\<lparr>last_local_pn := Some pn\<rparr>)"
proof -
  have "length qp < 2 ^ 31" using assms(6) by simp
  from protected_exists [OF assms(2,4) this] obtain tag c b' pn' where
    x: "pk_encrypt_in_place (dk_packet (ke_local e)) pn (b # hs @ pnb) qp = (Inr tag, c)"
      "hk_encrypt_in_place (dk_header (ke_local e)) (take 16 (c @ tag)) b pnb = (Inr (), b', pn')"
      "length tag = 16" "length c = length qp" "length pn' = 4"
    by metis
  let ?s = "(clear_last_error s)\<lparr>KEYS_TABLE := (KEYS_TABLE s)(h \<mapsto> e\<lparr>last_local_pn := Some pn\<rparr>)\<rparr>"
  have "protect_header_in_place ((b # hs @ pnb) @ c @ tag) (Suc (length hs)) 4 h ?s =
      Ret (b' # hs @ pn' @ c @ tag, clear_last_error ?s)"
    using x assms(4) by (intro protect_header_masks [of _ _ "e\<lparr>last_local_pn := Some pn\<rparr>"]) simp_all
  moreover have "protected (ke_local e) pn b hs pnb qp (b' # hs @ pn' @ c @ tag)"
    using x by (auto simp: protected_def)
  ultimately show ?thesis
    using local_encrypt_seals [OF assms(1,3,5,6) x(1,3,4)] that by simp
qed

section \<open>Lemmas: the builder\<close>

text \<open>What \<open>encode_long\<close> seals: the header after its first byte, and the padded payload.\<close>

definition long_payload :: "bytes \<Rightarrow> nat \<Rightarrow> bytes" where
  "long_payload crypto_payload pad = crypto_frame 0 crypto_payload @ replicate pad 0"

definition long_body :: "PacketBuilder \<Rightarrow> bool \<Rightarrow> bytes \<Rightarrow> bytes" where
  "long_body self is_initial len_field =
     long_prefix (pb_dcid self) (pb_scid self) (if is_initial then [0] else []) @ len_field"

definition initial_padding :: "PacketBuilder \<Rightarrow> bytes \<Rightarrow> nat" where
  "initial_padding self crypto_payload =
     1200 - (length (long_body self True []) + 23 + length (crypto_frame 0 crypto_payload))"

lemma varint_0 [simp]: "varint 0 = [0]"
  by (simp add: varint_def encode_varint_def)

lemma encode_varint_0 [simp]: "encode_varint 0 out = Ret (out @ [0])"
  by (simp add: encode_varint_def)

lemma unat_u64_of_nat: "n < 2 ^ 64 \<Longrightarrow> unat (word_of_nat n :: u64) = n"
  by (simp add: unat_of_nat)

lemma encode_varint_nat: "n < 2 ^ 62 \<Longrightarrow> encode_varint (word_of_nat n) out = Ret (out @ varint (word_of_nat n))"
  by (rule encode_varint_varint) (simp add: unat_of_nat)

lemma length_varint: "unat v < 2 ^ 62 \<Longrightarrow> length (varint v) = varint_len (unat v)"
  by (simp add: varint_eq)

definition long_pad :: "PacketBuilder \<Rightarrow> bool \<Rightarrow> bytes \<Rightarrow> nat" where
  "long_pad self is_initial crypto_payload = (if is_initial then initial_padding self crypto_payload else 0)"

definition length_field :: "bool \<Rightarrow> nat \<Rightarrow> bytes" where
  "length_field is_initial len = (if is_initial then varint_at 1 1 len else varint (word_of_nat len))"

lemma length_field_2:
  assumes "len < 2 ^ 14"
  shows "(let b = to_be_bytes (word_of_nat len :: u16) in [b ! 0 OR 0x40, b ! 1]) = length_field True len"
proof -
  let ?b = "to_be_bytes (word_of_nat len :: u16)"
  have "unat (word_of_nat len :: u16) = len"
    using assms by (simp add: unat_of_nat)
  then have b: "?b = be_nat (Suc 1) len"
    by (simp only: to_be_bytes_def) (simp add: numeral_2_eq_2)
  have "[?b ! 0 OR 0x40, ?b ! 1] = (word_of_nat (len div 256 ^ 1) OR 0x40) # be_nat 1 len"
    by (simp only: b be_nat_Cons nth_Cons_0) simp
  also have "\<dots> = varint_at 1 1 len"
    using assms by (intro varint_at_or) simp_all
  finally show ?thesis by (simp add: length_field_def)
qed

lemma long_body_length [simp]:
  "length (long_body self ini f) = 6 + length (pb_dcid self) + length (pb_scid self) + (if ini then 1 else 0) + length f"
  by (simp add: long_body_def long_prefix_def)

lemma crypto_frame_length:
  "length d < 2 ^ 62 \<Longrightarrow> length (crypto_frame 0 d) = 2 + varint_len (length d) + length d"
  by (simp add: crypto_frame_def length_varint unat_of_nat)

definition long_first :: "byte \<Rightarrow> byte" where
  "long_first ty = (0xC0 OR push_bit 4 ty OR 3)"

lemma long_header_eq:
  "[0xC0 OR push_bit 4 ty OR (word_of_nat 4 - 1)] @ to_be_bytes (1 :: u32)
     @ [word_of_nat (length (pb_dcid self))] @ pb_dcid self
     @ [word_of_nat (length (pb_scid self))] @ pb_scid self = long_first ty # long_body self False []"
  by (simp add: long_first_def long_body_def long_prefix_def)

lemma long_header_token: "(if ini then encode_varint 0 (b # long_body self False []) else Ret (b # long_body self False [])) =
    Ret (b # long_body self ini [])"
  by (simp add: long_body_def long_prefix_def)

lemma long_body_append: "(b # long_body self ini []) @ f = b # long_body self ini f"
  by (simp add: long_body_def)

lemma crypto_frame_encode:
  "length cp < 2 ^ 62 \<Longrightarrow>
   obind (encode_varint 0 [0x06]) (\<lambda>qp. obind (encode_varint (word_of_nat (length cp)) qp) f) = f ([6] @ [0] @ varint (word_of_nat (length cp)))"
  by (simp add: encode_varint_nat)

lemma crypto_frame_0: "([6] @ [0] @ varint (word_of_nat (length cp))) @ cp = crypto_frame 0 cp"
  by (simp add: crypto_frame_def)

lemma long_padding_eq:
  "(if ini then
      let tot = length (b # long_body self ini []) + (if ini then 2 else w) + (4 + length (crypto_frame 0 cp) + 16) in
      if tot < INITIAL_MIN_BYTES then crypto_frame 0 cp @ replicate (INITIAL_MIN_BYTES - tot) 0 else crypto_frame 0 cp
    else crypto_frame 0 cp) = long_payload cp (long_pad self ini cp)"
  by (simp add: long_payload_def long_pad_def initial_padding_def INITIAL_MIN_BYTES_def Let_def)

lemma long_length_eq:
  "len < 2 ^ 62 \<Longrightarrow> (ini \<longrightarrow> len < 2 ^ 14) \<Longrightarrow>
   (if ini then
      if len < 2 ^ 14 then let b = to_be_bytes (word_of_nat len :: u16) in Ret (h @ [b ! 0 OR 0x40, b ! 1])
      else Panic
    else encode_varint (word_of_nat len) h) = Ret (h @ length_field ini len)"
  using length_field_2 [of len] by (auto simp: encode_varint_nat length_field_def Let_def)

lemma encode_long_eq:
  fixes self cp ini ty
  defines "qp \<equiv> long_payload cp (long_pad self ini cp)"
  defines "hdr \<equiv> long_first ty # long_body self ini (length_field ini (4 + length qp + 16))"
  assumes "KEYS_TABLE s h = Some e" "pk_tag_len (dk_packet (ke_local e)) = 16"
    and "length cp < 2 ^ 62" "4 + length qp + 16 < 2 ^ 62" "ini \<longrightarrow> 4 + length qp + 16 < 2 ^ 14"
  shows "encode_long ty cp h ini self s =
    obind (local_encrypt h (pb_packet_number self) (hdr @ to_be_bytes (ucast (pb_packet_number self) :: u32))
        (qp @ replicate 16 0) (length qp) (clear_last_error s)) (\<lambda>((r, payload), s).
    obind (expect r) (\<lambda>ct.
    if ct \<noteq> length qp + 16 then Panic
    else
      obind (protect_header_in_place ((hdr @ to_be_bytes (ucast (pb_packet_number self) :: u32)) @ payload) (length hdr) 4 h s)
        (\<lambda>(pkt, s). Ret (pkt, self\<lparr>pb_packet_number := pb_packet_number self + 1\<rparr>, s))))"
proof -
  note rules = keys_tag_len_16 [OF assms(3,4)] crypto_frame_encode [OF assms(5)] crypto_frame_0 long_header_eq
    long_header_token long_padding_eq [unfolded Let_def] long_length_eq [OF assms(6,7), unfolded Let_def, unfolded qp_def]
  have sl: "slice_range 0 (length x) (x @ y @ z) = Ret x" "slice_from (length x) (x @ y @ z) = Ret (y @ z)"
    for x y z :: bytes
    by simp_all
  show ?thesis
    unfolding hdr_def qp_def
    by (simp only: encode_long_def Let_def obind.simps prod.case expect.simps rules sl) (simp only: long_body_append)
qed

lemma varint_len_le: "varint_len n \<le> 8" "0 < varint_len n"
  by (simp_all add: varint_len_def)

lemma length_field_le: "len < 2 ^ 62 \<Longrightarrow> length (length_field ini len) \<le> 8"
  using varint_len_le [of len] by (simp add: length_field_def length_varint unat_of_nat)

lemma decode_length_field:
  assumes "len < 2 ^ 62" "ini \<longrightarrow> len < 2 ^ 14"
  shows "decode_varint (length_field ini len @ rest) = Some (word_of_nat len, length (length_field ini len))"
proof (cases ini)
  case True
  with assms have "decode_varint (varint_at 1 1 len @ rest) = Some (word_of_nat len, Suc 1)"
    by (intro decode_varint_at) simp_all
  with True show ?thesis by (simp add: length_field_def)
next
  case False
  with assms vi.dec_enc [of "word_of_nat len" rest] show ?thesis
    by (simp add: length_field_def unat_of_nat)
qed

lemma encode_long_seals:
  assumes k: "KEYS_TABLE s h = Some e" "paired (ke_local e) rx" "\<not> reuses (pb_packet_number self) e"
    and l: "length (pb_dcid self) \<le> 20" "length (pb_scid self) \<le> 20" "length cp < 2 ^ 30"
    and q: "qp = long_payload cp (long_pad self ini cp)" "len = 4 + length qp + 16" "ini \<longrightarrow> len < 2 ^ 14"
  obtains pkt s' where
    "encode_long ty cp h ini self s = Ret (pkt, self\<lparr>pb_packet_number := pb_packet_number self + 1\<rparr>, s')"
    "protected (ke_local e) (pb_packet_number self) (long_first ty) (long_body self ini (length_field ini len))
       (to_be_bytes (ucast (pb_packet_number self) :: u32)) qp pkt"
    "KEYS_TABLE s' = (KEYS_TABLE s)(h \<mapsto> e\<lparr>last_local_pn := Some (pb_packet_number self)\<rparr>)"
proof -
  let ?pn = "pb_packet_number self" and ?f = "length_field ini len"
  let ?pnb = "to_be_bytes (ucast ?pn :: u32)"
  have "length qp < 2 ^ 30 + 1300"
    using l crypto_frame_length [of cp] varint_len_le [of "length cp"]
    by (auto simp: q(1) long_payload_def long_pad_def initial_padding_def)
  then have len: "len < 2 ^ 31" using q(2) by simp
  have "length ?f \<le> 8" using len by (intro length_field_le) simp
  then have hdr: "length (long_first ty # long_body self ini ?f @ ?pnb) < 2 ^ 31"
    using l by (cases ini) simp_all
  have pnb: "length ?pnb = 4" by simp
  have k': "KEYS_TABLE (clear_last_error s) h = Some e" using k(1) by simp
  have "length qp + 16 < 2 ^ 31" using len q(2) by simp
  from seal_packet [OF k' k(2,3) pnb hdr this] obtain ct s' pkt where
    1: "local_encrypt h ?pn (long_first ty # long_body self ini ?f @ ?pnb) (qp @ replicate 16 0) (length qp) (clear_last_error s)
        = Ret ((Inr (length qp + 16), ct), s')"
      "protect_header_in_place ((long_first ty # long_body self ini ?f @ ?pnb) @ ct) (Suc (length (long_body self ini ?f))) 4 h s'
        = Ret (pkt, clear_last_error s')"
    and 2: "protected (ke_local e) ?pn (long_first ty) (long_body self ini ?f) ?pnb qp pkt"
    and 3: "KEYS_TABLE s' = (KEYS_TABLE (clear_last_error s))(h \<mapsto> e\<lparr>last_local_pn := Some ?pn\<rparr>)"
    by metis
  have "encode_long ty cp h ini self s =
      Ret (pkt, self\<lparr>pb_packet_number := ?pn + 1\<rparr>, clear_last_error s')"
    using encode_long_eq [OF k(1) pairedD(3) [OF k(2)], where cp = cp and ini = ini and self = self and ty = ty] l(3) len q 1
    by simp
  then show ?thesis
    using 2 3 that by simp
qed

section \<open>Lemmas: parsing what was built\<close>

lemma to_be_bytes_1: "to_be_bytes (1 :: u32) = [0, 0, 0, 1]"
  by code_simp

lemma cid_len: "length c \<le> 20 \<Longrightarrow> unat (word_of_nat (length c) :: byte) = length c"
  by (rule unat_byte_of_nat) simp

lemma long_prefix_parts:
  fixes b x y :: byte and d c r
  defines "buf \<equiv> b # 0 # 0 # 0 # 1 # x # d @ y # c @ r"
  shows "length buf = 7 + length d + length c + length r" "buf ! 5 = x" "take (length d) (drop 6 buf) = d"
    "buf ! (6 + length d) = y" "take (length c) (drop (7 + length d) buf) = c"
    "drop (7 + length d + length c) buf = r"
proof -
  let ?p = "b # 0 # 0 # 0 # 1 # x # d"
  have l: "6 + length d = length ?p" "7 + length d = length (?p @ [y])"
    "7 + length d + length c = length (?p @ y # c)"
    by simp_all
  have e: "buf = ?p @ y # c @ r" "buf = (?p @ [y]) @ c @ r" "buf = (?p @ y # c) @ r"
    by (simp_all add: buf_def)
  show "length buf = 7 + length d + length c + length r" "buf ! 5 = x" "take (length d) (drop 6 buf) = d"
    by (simp_all add: buf_def)
  show "buf ! (6 + length d) = y"
    by (simp only: l(1) e(1) nth_append_length)
  show "take (length c) (drop (7 + length d) buf) = c"
    by (simp only: l(2) e(2) append_eq_conv_conj [THEN iffD1, OF refl, THEN conjunct2, symmetric]) simp
  show "drop (7 + length d + length c) buf = r"
    by (simp only: l(3) e(3)) simp
qed

lemma parse_long_encoded:
  assumes b: "b AND 0x80 \<noteq> 0" "drop_bit 4 b AND 3 = ty"
    and c: "length d \<le> 20" "length c \<le> 20"
    and f: "decode_varint (f @ rest) = Some (word_of_nat len, length f)" "len \<le> length rest" "len < 2 ^ 62"
  shows "parse_long_header (b # long_prefix d c (if ty = 0 then [0] else []) @ f @ rest) =
    Ret (Some \<lparr>lh_version = 1, lh_packet_type = ty, lh_dcid = d, lh_scid = c, lh_token = [],
      lh_payload_offset = Suc (length (long_prefix d c (if ty = 0 then [0] else []) @ f)), lh_length = len\<rparr>)"
proof -
  define t :: bytes where "t = (if ty = 0 then [0] else [])"
  define buf where "buf = b # 0 # 0 # 0 # 1 # word_of_nat (length d) # d @ word_of_nat (length c) # c @ t @ f @ rest"
  note parts = long_prefix_parts [where b = b and x = "word_of_nat (length d)" and d = d and y = "word_of_nat (length c)"
      and c = c and r = "t @ f @ rest", folded buf_def]
  let ?j = "7 + length d + length c"
  have 1: "parse_token ty ?j buf = Ret (Some ([], ?j + length t))"
  proof (cases "ty = 0")
    case True
    then have t: "t = [0]" by (simp add: t_def)
    have "decode_varint (0 # f @ rest) = Some (0, 1)"
      using vi.dec_enc [of 0 "f @ rest"] by simp
    then show ?thesis
      using parts(1,6) True by (simp add: parse_token_def t)
  qed (simp add: parse_token_def t_def)
  have 2: "drop (?j + length t) buf = f @ rest"
    using parts(6) by (metis append_eq_conv_conj drop_drop add.commute)
  have "from_be_bytes [buf ! 1, buf ! 2, buf ! 3, buf ! 4] = (1 :: u32)"
    by (simp add: buf_def from_be_bytes_def nat_of_be_def)
  moreover have "b # long_prefix d c t @ f @ rest = buf"
    by (simp add: buf_def long_prefix_def to_be_bytes_1)
  moreover have "buf ! 0 = b" by (simp add: buf_def)
  ultimately show ?thesis
    unfolding t_def [symmetric] using parts 1 2 b c f
    by (simp add: parse_long_header_def get_def cid_len MAX_CID_LEN_def unat_of_nat Let_def long_prefix_def)
qed

text \<open>What the peer's keys make of a protected packet.\<close>

lemma protected_open:
  assumes "paired tx rx" "protected tx pn b hs pnb qp pkt" "length pnb = 4" "pn_length_of b = 4"
  obtains b' pn' ct rest where "pkt = b' # hs @ pn' @ ct" "length pn' = 4" "length ct = length qp + 16"
    "hk_decrypt_in_place (dk_header rx) (take 16 ct) b' pn' = (Inr (), b, pnb)"
    "pk_decrypt_in_place (dk_packet rx) pn (b # hs @ pnb) ct = (Inr (length qp), qp @ rest)"
    "if b AND 0x80 = 0 then b' AND 0xE0 = b AND 0xE0 else b' AND 0xF0 = b AND 0xF0"
proof -
  note k = pairedD [OF assms(1)]
  obtain tag c b' pn' where x: "pk_encrypt_in_place (dk_packet tx) pn (b # hs @ pnb) qp = (Inr tag, c)"
    "hk_encrypt_in_place (dk_header tx) (take 16 (c @ tag)) b pnb = (Inr (), b', pn')" "pkt = b' # hs @ pn' @ c @ tag"
    using assms(2) by (auto simp: protected_def)
  have 1: "length (c @ tag) = length qp + 16" "length pn' = 4"
    using wf_packet_keyD(1,2) [OF k(1) x(1)] wf_header_keyD(1) [OF k(2) x(2)] k(3) assms(3) by simp_all
  have "hk_decrypt_in_place (dk_header rx) (take 16 (c @ tag)) b' (pn' @ []) = (Inr (), b, pnb @ [])"
    by (rule k(8) [unfolded unmasks_def, rule_format, OF x(2)]) (simp_all add: assms(3,4))
  moreover obtain rest where "pk_decrypt_in_place (dk_packet rx) pn (b # hs @ pnb) (c @ tag) = (Inr (length qp), qp @ rest)"
    using k(7) x(1) unfolding opens_def by metis
  moreover have "if b AND 0x80 = 0 then b' AND 0xE0 = b AND 0xE0 else b' AND 0xF0 = b AND 0xF0"
    using k(6) [unfolded keeps_form_def, rule_format, OF x(2)] .
  ultimately show ?thesis
    using x(3) 1 that [of b' pn' "c @ tag" rest] by simp
qed

text \<open>The long-header form and the packet type survive masking.\<close>

lemma long_first_form:
  assumes "b' AND 0xF0 = long_first ty AND 0xF0" "ty = 0 \<or> ty = 2"
  shows "b' AND 0x80 \<noteq> 0" "drop_bit 4 b' AND 3 = ty"
proof -
  have "b' AND 0x80 = (b' AND 0xF0) AND 0x80" "drop_bit 4 b' AND 3 = drop_bit 4 (b' AND 0xF0) AND 3"
    by (simp_all add: and.assoc drop_bit_and)
  then show "b' AND 0x80 \<noteq> 0" "drop_bit 4 b' AND 3 = ty"
    using assms by (auto simp: long_first_def)
qed

lemma long_first_pn [simp]: "ty = 0 \<or> ty = 2 \<Longrightarrow> pn_length_of (long_first ty) = 4 \<and> long_first ty AND 0x80 \<noteq> 0"
  by (auto simp: long_first_def pn_length_of_def)

text \<open>Parsing a protected long-header packet, with whatever follows it in the datagram.\<close>

lemma parse_protected:
  assumes "paired tx rx" "ty = (if ini then 0 else 2)" "length (pb_dcid self) \<le> 20" "length (pb_scid self) \<le> 20"
    and len: "len = 4 + length qp + 16" "len < 2 ^ 62" "ini \<longrightarrow> len < 2 ^ 14" and pnb: "length pnb = 4"
    and "protected tx pn (long_first ty) (long_body self ini (length_field ini len)) pnb qp pkt"
  shows "parse_long_header (pkt @ after) =
    Ret (Some \<lparr>lh_version = 1, lh_packet_type = ty, lh_dcid = pb_dcid self, lh_scid = pb_scid self, lh_token = [],
      lh_payload_offset = Suc (length (long_body self ini (length_field ini len))), lh_length = len\<rparr>)"
    "length pkt = Suc (length (long_body self ini (length_field ini len))) + len"
proof -
  have ty: "ty = 0 \<or> ty = 2" "ty = 0 \<longleftrightarrow> ini" using assms(2) by auto
  obtain b' pn' ct rest where x: "pkt = b' # long_body self ini (length_field ini len) @ pn' @ ct"
    "length pn' = 4" "length ct = length qp + 16" "b' AND 0xF0 = long_first ty AND 0xF0"
    using protected_open [OF assms(1,9) pnb] long_first_pn [OF ty(1)] by metis
  show "length pkt = Suc (length (long_body self ini (length_field ini len))) + len"
    using x len(1) by simp
  have "parse_long_header (b' # long_prefix (pb_dcid self) (pb_scid self) (if ty = 0 then [0] else []) @ length_field ini len
        @ (pn' @ ct @ after)) =
    Ret (Some \<lparr>lh_version = 1, lh_packet_type = ty, lh_dcid = pb_dcid self, lh_scid = pb_scid self, lh_token = [],
      lh_payload_offset = Suc (length (long_prefix (pb_dcid self) (pb_scid self) (if ty = 0 then [0] else [])
        @ length_field ini len)), lh_length = len\<rparr>)"
    using long_first_form [OF x(4) ty(1)] assms(3,4) len x(2,3)
    by (intro parse_long_encoded decode_length_field) simp_all
  then show "parse_long_header (pkt @ after) =
    Ret (Some \<lparr>lh_version = 1, lh_packet_type = ty, lh_dcid = pb_dcid self, lh_scid = pb_scid self, lh_token = [],
      lh_payload_offset = Suc (length (long_body self ini (length_field ini len))), lh_length = len\<rparr>)"
    by (simp only: x(1) ty(2) long_body_def append_assoc append_Cons)
qed

lemma encode_1rtt_seals:
  assumes k: "KEYS_TABLE s h = Some e" "paired (ke_local e) rx" "\<not> reuses (pb_packet_number self) e"
    and l: "length (pb_dcid self) \<le> 20" "length qp < 2 ^ 30"
  obtains pkt s' where
    "encode_1rtt qp h self s = Ret (pkt, self\<lparr>pb_packet_number := pb_packet_number self + 1\<rparr>, s')"
    "protected (ke_local e) (pb_packet_number self) 0x43 (pb_dcid self)
       (to_be_bytes (ucast (pb_packet_number self) :: u32)) qp pkt"
    "KEYS_TABLE s' = (KEYS_TABLE s)(h \<mapsto> e\<lparr>last_local_pn := Some (pb_packet_number self)\<rparr>)"
proof -
  let ?pn = "pb_packet_number self" and ?hdr = "0x43 # pb_dcid self"
  let ?pnb = "to_be_bytes (ucast ?pn :: u32)"
  have hdr: "length (?hdr @ ?pnb) < 2 ^ 31" "length qp + 16 < 2 ^ 31" using l by simp_all
  have k': "KEYS_TABLE (clear_last_error s) h = Some e" and pnb: "length ?pnb = 4" using k(1) by simp_all
  from seal_packet [OF k' k(2,3) pnb hdr [unfolded append_Cons]] obtain ct s' pkt where
    1: "local_encrypt h ?pn (?hdr @ ?pnb) (qp @ replicate 16 0) (length qp) (clear_last_error s)
        = Ret ((Inr (length qp + 16), ct), s')"
      "protect_header_in_place ((?hdr @ ?pnb) @ ct) (length ?hdr) 4 h s' = Ret (pkt, clear_last_error s')"
    and 2: "protected (ke_local e) ?pn 0x43 (pb_dcid self) ?pnb qp pkt"
    and 3: "KEYS_TABLE s' = (KEYS_TABLE (clear_last_error s))(h \<mapsto> e\<lparr>last_local_pn := Some ?pn\<rparr>)"
    unfolding append_Cons list.size by (metis add_Suc_right add.right_neutral)
  have sl: "slice_range 0 (length ?hdr + 4) ((?hdr @ ?pnb) @ y @ z) = Ret (?hdr @ ?pnb)"
    "slice_from (length ?hdr + 4) ((?hdr @ ?pnb) @ y @ z) = Ret (y @ z)" for y z
    by (rule slice_range_prefix slice_from_prefix; simp)+
  have b: "[0x40 OR (word_of_nat 4 - 1)] @ pb_dcid self = ?hdr" by simp
  have "encode_1rtt qp h self s = Ret (pkt, self\<lparr>pb_packet_number := ?pn + 1\<rparr>, clear_last_error s')"
    by (simp only: encode_1rtt_def Let_def keys_tag_len_16 [OF k(1) pairedD(3) [OF k(2)]] obind.simps prod.case
        expect.simps b sl 1) simp
  then show ?thesis
    using 2 3 that by simp
qed

lemma short_first_form:
  assumes "b' AND 0xE0 = (0x43 :: byte) AND 0xE0"
  shows "b' AND 0x80 = 0"
proof -
  have "b' AND 0x80 = (b' AND 0xE0) AND 0x80" by (simp add: and.assoc)
  with assms show ?thesis by simp
qed

section \<open>Properties\<close>




end
