(* ===== verification/Packet_Crypto.thy ===== *)
theory Packet_Crypto
  imports Quic_Packet
begin

text \<open>
  Sealing and opening whole packets in the conformance client
  (\<open>conformance/tls-conformance/src/lib.rs\<close>): Handshake and 1-RTT packets with the keys
  rustls hands out, and the server's Initial packets with the shim's keys. \<open>debug\<close> is the
  \<open>{e:?}\<close> rendering of a rustls error, given its \<open>{e}\<close> rendering.
\<close>

section \<open>Building\<close>

definition encode_crypto_frame :: "u64 \<Rightarrow> bytes \<Rightarrow> bytes outcome" where
  "encode_crypto_frame offset data =
     (let out = [0x06] in
      obind (encode_varint offset out) (\<lambda>out.
      obind (encode_varint (word_of_nat (length data)) out) (\<lambda>out.
      Ret (out @ data))))"

definition build_handshake_packet ::
  "(string \<Rightarrow> string) \<Rightarrow> bytes \<Rightarrow> bytes \<Rightarrow> u64 \<Rightarrow> bytes \<Rightarrow> directional_keys \<Rightarrow> (string + bytes) outcome" where
  "build_handshake_packet debug dcid scid pn crypto_payload local_keys =
     (let pn_length = 4; tag_len = pk_tag_len (dk_packet local_keys) in
      obind (encode_varint 0 [0x06]) (\<lambda>qp.
      obind (encode_varint (word_of_nat (length crypto_payload)) qp) (\<lambda>qp.
      let qp = qp @ crypto_payload;
          hdr = [0xC0 OR push_bit 4 2 OR (word_of_nat pn_length - 1)] @ to_be_bytes (1 :: u32)
            @ [word_of_nat (length dcid)] @ dcid @ [word_of_nat (length scid)] @ scid;
          len = pn_length + length qp + tag_len in
      obind (encode_varint (word_of_nat len) hdr) (\<lambda>hdr.
      let pn_offset = length hdr;
          hdr = hdr @ to_be_bytes (ucast pn :: u32);
          header_len = length hdr;
          pkt = hdr @ qp;
          plaintext_end = header_len + length qp in
      obind (slice_range 0 header_len pkt) (\<lambda>header_bytes.
      obind (slice_range header_len plaintext_end pkt) (\<lambda>payload.
      case pk_encrypt_in_place (dk_packet local_keys) pn header_bytes payload of
        (Inl e, _) \<Rightarrow> Ret (Inl (''rustls encrypt_in_place (Handshake): '' @ debug e))
      | (Inr tag, payload) \<Rightarrow>
          let pkt = header_bytes @ payload @ tag;
              so = pn_offset + 4 in
          if length pkt < so + 16 then Ret (Inl ''Handshake packet too short for HP sample'')
          else
            obind (slice_range so (so + 16) pkt) (\<lambda>sample.
            obind (split_at pn_offset pkt) (\<lambda>(head, rest).
            obind (index head 0) (\<lambda>first_byte.
            obind (slice_range 0 pn_length rest) (\<lambda>pn_bytes.
            case hk_encrypt_in_place (dk_header local_keys) sample first_byte pn_bytes of
              (Inl e, _) \<Rightarrow> Ret (Inl (''rustls HP encrypt (Handshake): '' @ debug e))
            | (Inr _, first_byte, pn_bytes) \<Rightarrow>
                Ret (Inr (head[0 := first_byte] @ pn_bytes @ drop pn_length rest))))))))))))"

definition build_short_header_crypto_packet ::
  "(string \<Rightarrow> string) \<Rightarrow> bytes \<Rightarrow> u64 \<Rightarrow> bytes \<Rightarrow> directional_keys \<Rightarrow> (string + bytes) outcome" where
  "build_short_header_crypto_packet debug dcid pn crypto_frame_bytes one_rtt_local =
     (let pn_length = 4;
          first_byte = 0x40 OR (word_of_nat pn_length - 1);
          hdr = [first_byte] @ dcid;
          pn_offset = length hdr;
          hdr = hdr @ to_be_bytes (ucast pn :: u32);
          header_len = length hdr;
          pkt = hdr @ crypto_frame_bytes;
          plaintext_end = header_len + length crypto_frame_bytes in
      obind (slice_range 0 header_len pkt) (\<lambda>header_bytes.
      obind (slice_range header_len plaintext_end pkt) (\<lambda>payload.
      case pk_encrypt_in_place (dk_packet one_rtt_local) pn header_bytes payload of
        (Inl e, _) \<Rightarrow> Ret (Inl (''rustls encrypt_in_place (1-RTT): '' @ debug e))
      | (Inr tag, payload) \<Rightarrow>
          let pkt = header_bytes @ payload @ tag;
              so = pn_offset + 4 in
          if length pkt < so + 16 then Ret (Inl ''1-RTT packet too short for HP sample'')
          else
            obind (slice_range so (so + 16) pkt) (\<lambda>sample.
            obind (split_at pn_offset pkt) (\<lambda>(head, rest).
            obind (index head 0) (\<lambda>first_byte.
            obind (slice_range 0 pn_length rest) (\<lambda>pn_bytes.
            case hk_encrypt_in_place (dk_header one_rtt_local) sample first_byte pn_bytes of
              (Inl e, _) \<Rightarrow> Ret (Inl (''rustls HP encrypt_in_place (1-RTT): '' @ debug e))
            | (Inr _, first_byte, pn_bytes) \<Rightarrow>
                Ret (Inr (head[0 := first_byte] @ pn_bytes @ drop pn_length rest)))))))))"

section \<open>Opening\<close>

text \<open>The loop \<open>for i in 0..pn_length\<close> that reads the packet number.\<close>

definition read_pn :: "bytes \<Rightarrow> u64" where
  "read_pn bs = foldl (\<lambda>pn b. push_bit 8 pn OR ucast b) 0 bs"

definition decrypt_long_with_rustls ::
  "(string \<Rightarrow> string) \<Rightarrow> bytes \<Rightarrow> LongHeader \<Rightarrow> directional_keys \<Rightarrow> (string + bytes) outcome" where
  "decrypt_long_with_rustls debug pkt header remote_keys =
     (let buf = pkt;
          pn_offset = lh_payload_offset header;
          so = pn_offset + 4 in
      if length buf < so + 16 then
        Ret (Inl (''packet too short for HP sample: need '' @ dec_nat (so + 16) @ '', got '' @ dec_nat (length buf)))
      else
        obind (slice_range so (so + 16) buf) (\<lambda>sample.
        obind (split_at pn_offset buf) (\<lambda>(head, rest).
        obind (index head 0) (\<lambda>first_byte.
        obind (slice_range 0 4 rest) (\<lambda>pn_bytes.
        case hk_decrypt_in_place (dk_header remote_keys) sample first_byte pn_bytes of
          (Inl e, _) \<Rightarrow> Ret (Inl (''rustls HP decrypt: '' @ debug e))
        | (Inr _, first_byte, pn_bytes) \<Rightarrow>
            let buf = head[0 := first_byte] @ pn_bytes @ drop 4 rest;
                pn_length = unat ((first_byte AND 0x03) + 1);
                header_len = pn_offset + pn_length in
            obind (slice_range pn_offset header_len buf) (\<lambda>pn_bytes.
            let pn = read_pn pn_bytes in
            obind (slice_range 0 header_len buf) (\<lambda>header_bytes.
            let fin = pn_offset + lh_length header in
            if length buf < fin then
              Ret (Inl (''packet truncated: payload end '' @ dec_nat fin @ '' > buf len '' @ dec_nat (length buf)))
            else
              obind (slice_range header_len fin buf) (\<lambda>payload.
              case pk_decrypt_in_place (dk_packet remote_keys) pn header_bytes payload of
                (Inl e, _) \<Rightarrow> Ret (Inl (''rustls AEAD decrypt: '' @ debug e))
              | (Inr n, payload) \<Rightarrow> Ret (Inr (take n payload))))))))))"

definition decrypt_short_with_rustls ::
  "(string \<Rightarrow> string) \<Rightarrow> bytes \<Rightarrow> nat \<Rightarrow> directional_keys \<Rightarrow> (string + bytes) outcome" where
  "decrypt_short_with_rustls debug pkt dcid_len remote_keys =
     (if pkt = [] \<or> pkt ! 0 AND 0x80 \<noteq> 0 then Ret (Inl ''not a short-header packet'')
      else
        let pn_offset = 1 + dcid_len;
            so = pn_offset + 4 in
        if length pkt < so + 16 then
          Ret (Inl (''1-RTT packet too short for HP sample: need '' @ dec_nat (so + 16)
            @ '', got '' @ dec_nat (length pkt)))
        else
          let buf = pkt in
          obind (slice_range so (so + 16) buf) (\<lambda>sample.
          obind (split_at pn_offset buf) (\<lambda>(head, rest).
          obind (index head 0) (\<lambda>first_byte.
          obind (slice_range 0 4 rest) (\<lambda>pn_bytes.
          case hk_decrypt_in_place (dk_header remote_keys) sample first_byte pn_bytes of
            (Inl e, _) \<Rightarrow> Ret (Inl (''rustls HP decrypt (1-RTT): '' @ debug e))
          | (Inr _, first_byte, pn_bytes) \<Rightarrow>
              let buf = head[0 := first_byte] @ pn_bytes @ drop 4 rest;
                  pn_length = unat ((first_byte AND 0x03) + 1);
                  header_len = pn_offset + pn_length in
              obind (slice_range pn_offset header_len buf) (\<lambda>pn_bytes.
              let pn = read_pn pn_bytes in
              obind (slice_range 0 header_len buf) (\<lambda>header_bytes.
              obind (slice_from header_len buf) (\<lambda>payload.
              case pk_decrypt_in_place (dk_packet remote_keys) pn header_bytes payload of
                (Inl e, _) \<Rightarrow> Ret (Inl (''rustls AEAD decrypt (1-RTT): '' @ debug e))
              | (Inr n, payload) \<Rightarrow> Ret (Inr (take n payload))))))))))"

definition decrypt_initial_inplace ::
  "bytes \<Rightarrow> LongHeader \<Rightarrow> KeysHandle \<Rightarrow> 'z keys_shim_scheme \<Rightarrow> ((string + bytes) \<times> 'z keys_shim_scheme) outcome" where
  "decrypt_initial_inplace pkt header keys s =
     (let reply = pkt;
          pn_offset = lh_payload_offset header;
          sample_off = pn_offset + 4 in
      if length reply < sample_off + 16 then
        Ret (Inl (''Initial reply too short for HP sample: need '' @ dec_nat (sample_off + 16)
          @ '', got '' @ dec_nat (length reply)), s)
      else
        obind (slice_range sample_off (sample_off + 16) reply) (\<lambda>sample.
        obind (split_at pn_offset reply) (\<lambda>(head, rest).
        obind (index head 0) (\<lambda>first_byte.
        obind (slice_range 0 4 rest) (\<lambda>pn_bytes.
        obind (remote_header_unprotect keys sample first_byte pn_bytes s) (\<lambda>((r, first_byte, pn_bytes), s).
        case r of
          Inl e \<Rightarrow> Ret (Inl (''Initial HP unprotect failed: rc='' @ dec_i32 (fe_code e)), s)
        | Inr _ \<Rightarrow>
            let rest = pn_bytes @ drop 4 rest;
                pn_length = unat ((first_byte AND 0x03) + 1) in
            obind (slice_range 0 pn_length rest) (\<lambda>pn_bytes.
            let pn = read_pn pn_bytes;
                reply = head[0 := first_byte] @ rest;
                header_len = pn_offset + pn_length in
            obind (slice_range 0 header_len reply) (\<lambda>header_bytes.
            let fin = pn_offset + lh_length header in
            if length reply < fin then
              Ret (Inl (''Initial reply truncated: payload end '' @ dec_nat fin @ '' > len ''
                @ dec_nat (length reply)), s)
            else
              obind (slice_range header_len fin reply) (\<lambda>payload.
              obind (remote_decrypt keys pn header_bytes payload s) (\<lambda>((r, payload), s).
              case r of
                Inl e \<Rightarrow> Ret (Inl (''Initial AEAD decrypt failed: rc='' @ dec_i32 (fe_code e)), s)
              | Inr pt_len \<Rightarrow>
                  let reply = take header_len reply @ payload @ drop fin reply in
                  obind (slice_range header_len (header_len + pt_len) reply) (\<lambda>plaintext.
                  Ret (Inr plaintext, s))))))))))))"

section \<open>Lemmas\<close>

lemma read_pn_wire:
  assumes "unat pn < 2 ^ 32"
  shows "read_pn (to_be_bytes (ucast pn :: u32)) = pn"
proof -
  have u: "unat (ucast pn :: u32) = unat pn"
    using assms by (simp add: unsigned_ucast_eq take_bit_nat_eq_self)
  have n: "nat_of_be (to_be_bytes (ucast pn :: u32)) = unat pn"
    using nat_of_be_to_be_bytes [of 4, where ?'a = 32 and w = "ucast pn"] u by simp
  have "unat (foldl (\<lambda>v b. push_bit 8 v OR ucast b) (0 :: u64) (to_be_bytes (ucast pn :: u32))) = unat pn"
    using assms by (subst foldl_shift_in) (simp_all add: n)
  then show ?thesis
    unfolding read_pn_def by (rule unsigned_word_eqI)
qed

lemma pn_length_4: "pn_length_of b = 4 \<Longrightarrow> unat ((b AND 3) + 1) = 4"
proof -
  assume "pn_length_of b = 4"
  then have "unat (b AND 3) = unat (3 :: byte)" by (simp add: pn_length_of_def)
  then have "b AND 3 = 3" by (simp only: unsigned_word_eqI)
  then show ?thesis by simp
qed

text \<open>Every slice the builders and the openers take of a packet with a four-byte number.\<close>

lemma packet_slices:
  assumes "length n = 4" "o' = Suc (length hs)"
  shows "slice_range (o' + 4) (o' + 4 + 16) (b # hs @ n @ ct) = (if 16 \<le> length ct then Ret (take 16 ct) else Panic)"
    "split_at o' (b # hs @ n @ ct) = Ret (b # hs, n @ ct)" "index (b # hs) 0 = Ret b"
    "slice_range 0 4 (n @ ct) = Ret n" "slice_range o' (o' + 4) (b # hs @ n @ ct) = Ret n"
    "slice_range 0 (o' + 4) (b # hs @ n @ ct) = Ret (b # hs @ n)"
    "k = o' + (4 + length ct) \<Longrightarrow> slice_range (o' + 4) k (b # hs @ n @ ct) = Ret ct"
    "slice_from (o' + 4) (b # hs @ n @ ct) = Ret ct"
    "drop 4 (n @ ct) = ct" "(b # hs)[0 := b'] @ n @ ct = b' # hs @ n @ ct"
    "length (b # hs @ n @ ct) = o' + (4 + length ct)"
proof -
  have 4: "drop (o' + 4) (b # hs @ n @ ct) = ct" "take (o' + 4) (b # hs @ n @ ct) = b # hs @ n"
    using append_eq_conv_conj [of "b # hs @ n" ct "b # hs @ n @ ct"] assms by simp_all
  show "slice_range (o' + 4) (o' + 4 + 16) (b # hs @ n @ ct) = (if 16 \<le> length ct then Ret (take 16 ct) else Panic)"
    "k = o' + (4 + length ct) \<Longrightarrow> slice_range (o' + 4) k (b # hs @ n @ ct) = Ret ct"
    "slice_range 0 (o' + 4) (b # hs @ n @ ct) = Ret (b # hs @ n)"
    "slice_from (o' + 4) (b # hs @ n @ ct) = Ret ct"
    using assms 4 by (auto simp: slice_range_def)
  show "split_at o' (b # hs @ n @ ct) = Ret (b # hs, n @ ct)" "index (b # hs) 0 = Ret b"
    "slice_range 0 4 (n @ ct) = Ret n" "slice_range o' (o' + 4) (b # hs @ n @ ct) = Ret n"
    "drop 4 (n @ ct) = ct" "(b # hs)[0 := b'] @ n @ ct = b' # hs @ n @ ct"
    "length (b # hs @ n @ ct) = o' + (4 + length ct)"
    using assms by simp_all
qed

lemma slice_range_mid: "i = length xs \<Longrightarrow> slice_range i (i + length ys) (xs @ ys @ zs) = Ret ys"
  by simp

text \<open>A protected packet opens to its payload.\<close>

lemma decrypt_long_opens:
  assumes k: "paired tx rx" "protected tx pn b hs pnb qp pkt" and b: "pn_length_of b = 4"
    and pn: "pnb = to_be_bytes (ucast pn :: u32)" "unat pn < 2 ^ 32"
    and h: "lh_payload_offset header = Suc (length hs)" "lh_length header = 4 + length qp + 16"
  shows "decrypt_long_with_rustls debug pkt header rx = Ret (Inr qp)"
proof -
  have n: "length pnb = 4" by (simp add: pn(1))
  obtain b' pn' ct rest where x: "pkt = b' # hs @ pn' @ ct" "length pn' = 4" "length ct = length qp + 16"
    "hk_decrypt_in_place (dk_header rx) (take 16 ct) b' pn' = (Inr (), b, pnb)"
    "pk_decrypt_in_place (dk_packet rx) pn (b # hs @ pnb) ct = (Inr (length qp), qp @ rest)"
    using protected_open [OF k n b] by metis
  define off where "off = Suc (length hs)"
  note sl = packet_slices [OF x(2) off_def] packet_slices [OF n off_def]
  have "\<not> length pkt < off + 4 + 16" "(16 \<le> length ct) = True" "4 + length qp + 16 = 4 + length ct"
    using x(2,3) by (simp_all add: x(1) off_def)
  moreover have "read_pn pnb = pn" using read_pn_wire [OF pn(2)] pn(1) by simp
  ultimately show ?thesis
    unfolding decrypt_long_with_rustls_def Let_def h x(1) off_def [symmetric]
    by (simp only: sl x(4) if_True if_False obind.simps prod.case sum.case pn_length_4 [OF b])
      (simp add: sl x(5))
qed

lemma decrypt_short_opens:
  assumes k: "paired tx rx" "protected tx pn 0x43 hs pnb qp pkt"
    and pn: "pnb = to_be_bytes (ucast pn :: u32)" "unat pn < 2 ^ 32"
  shows "decrypt_short_with_rustls debug pkt (length hs) rx = Ret (Inr qp)"
proof -
  have n: "length pnb = 4" by (simp add: pn(1))
  have b: "pn_length_of 0x43 = 4" by (simp add: pn_length_of_def)
  obtain b' pn' ct rest where x: "pkt = b' # hs @ pn' @ ct" "length pn' = 4" "length ct = length qp + 16"
    "hk_decrypt_in_place (dk_header rx) (take 16 ct) b' pn' = (Inr (), 0x43, pnb)"
    "pk_decrypt_in_place (dk_packet rx) pn (0x43 # hs @ pnb) ct = (Inr (length qp), qp @ rest)"
    and form: "if (0x43 :: byte) AND 0x80 = 0 then b' AND 0xE0 = 0x43 AND 0xE0 else b' AND 0xF0 = 0x43 AND 0xF0"
    using protected_open [OF k n b] by metis
  have "b' AND 0x80 = 0" using form by (intro short_first_form) simp
  define off where "off = Suc (length hs)"
  note sl = packet_slices [OF x(2) off_def] packet_slices [OF n off_def]
  have "\<not> length pkt < off + 4 + 16" "(16 \<le> length ct) = True" "\<not> (pkt = [] \<or> pkt ! 0 AND 0x80 \<noteq> 0)" "1 + length hs = off"
    using x(2,3) \<open>b' AND 0x80 = 0\<close> by (simp_all add: x(1) off_def)
  moreover have "read_pn pnb = pn" using read_pn_wire [OF pn(2)] pn(1) by simp
  ultimately show ?thesis
    unfolding decrypt_short_with_rustls_def Let_def x(1)
    by (simp only: sl x(4) if_True if_False obind.simps prod.case sum.case pn_length_4 [OF b])
      (simp add: sl x(5))
qed

lemma decrypt_initial_opens:
  assumes t: "KEYS_TABLE r h = Some e"
    and k: "paired tx (ke_remote e)" "protected tx pn b hs pnb qp pkt" and b: "pn_length_of b = 4"
    and pn: "pnb = to_be_bytes (ucast pn :: u32)" "unat pn < 2 ^ 32"
    and h: "lh_payload_offset header = Suc (length hs)" "lh_length header = 4 + length qp + 16"
    and l: "length pkt < 2 ^ 31"
  shows "decrypt_initial_inplace pkt header h r = Ret (Inr qp, clear_last_error r)"
proof -
  have n: "length pnb = 4" by (simp add: pn(1))
  obtain b' pn' ct rest where x: "pkt = b' # hs @ pn' @ ct" "length pn' = 4" "length ct = length qp + 16"
    "hk_decrypt_in_place (dk_header (ke_remote e)) (take 16 ct) b' pn' = (Inr (), b, pnb)"
    "pk_decrypt_in_place (dk_packet (ke_remote e)) pn (b # hs @ pnb) ct = (Inr (length qp), qp @ rest)"
    using protected_open [OF k n b] by metis
  define off where "off = Suc (length hs)"
  note sl = packet_slices [OF x(2) off_def] packet_slices [OF n off_def]
  have "\<not> length pkt < off + 4 + 16" "(16 \<le> length ct) = True" "4 + length qp + 16 = 4 + length ct"
    using x(2,3) by (simp_all add: x(1) off_def)
  moreover have "read_pn pnb = pn" using read_pn_wire [OF pn(2)] pn(1) by simp
  moreover have "remote_header_unprotect h (take 16 ct) b' pn' r = Ret ((Inr (), b, pnb), clear_last_error r)"
    using header_unprotect_valid [of 16 "take 16 ct" 4 pn' r h e b' b pnb] t x n
    by (simp add: remote_header_unprotect_def deref_Ptr)
  moreover have "remote_decrypt h pn (b # hs @ pnb) ct (clear_last_error r) =
      Ret ((Inr (length qp), qp @ rest @ drop (length qp + length rest) ct), clear_last_error (clear_last_error r))"
    using remote_decrypt_valid [of "length (b # hs @ pnb)" "b # hs @ pnb" "length ct" ct "clear_last_error r" h e pn] t x n l
    by (simp add: remote_decrypt_def sint_i32_of_usize)
  moreover have mid: "slice_range (off + 4) (off + 4 + length qp) (take (off + 4) (b # hs @ pnb @ ct) @ qp @ y) = Ret qp" for y
    using n by (intro slice_range_mid) (simp add: off_def)
  moreover have "clear_last_error (clear_last_error r) = clear_last_error r"
    by (simp add: clear_last_error_def)
  ultimately show ?thesis
    unfolding decrypt_initial_inplace_def Let_def h x(1) off_def [symmetric]
    by (simp only: sl if_True if_False obind.simps prod.case sum.case pn_length_4 [OF b])
      (simp add: sl mid)
qed

text \<open>What the builders return is the protected packet, which is unique.\<close>

lemma protected_unique:
  "protected tx pn b hs pnb qp pkt \<Longrightarrow> protected tx pn b hs pnb qp pkt' \<Longrightarrow> pkt = pkt'"
  by (auto simp: protected_def)

lemma build_short_protected:
  assumes k: "paired tx rx" and l: "length frame < 2 ^ 31"
  obtains pkt where "build_short_header_crypto_packet debug d pn frame tx = Ret (Inr pkt)"
    "protected tx pn 0x43 d (to_be_bytes (ucast pn :: u32)) frame pkt"
proof -
  let ?pnb = "to_be_bytes (ucast pn :: u32)"
  have n: "length ?pnb = 4" by simp
  obtain tag c b' pn' where x: "pk_encrypt_in_place (dk_packet tx) pn (0x43 # d @ ?pnb) frame = (Inr tag, c)"
    "hk_encrypt_in_place (dk_header tx) (take 16 (c @ tag)) 0x43 ?pnb = (Inr (), b', pn')"
    "length tag = 16" "length c = length frame" "length pn' = 4"
    using protected_exists [OF k n l] by metis
  define off where "off = Suc (length d)"
  note sl = packet_slices [OF n off_def]
  have hd: "[0x40 OR (word_of_nat 4 - 1)] @ d = (0x43 :: byte) # d" by simp
  have len: "length ((0x43 :: byte) # d) = off" "length (0x43 # d @ ?pnb) = off + 4"
    "(0x43 # d) @ ?pnb = 0x43 # d @ ?pnb" "((0x43 # d) @ ?pnb) @ y = 0x43 # d @ ?pnb @ y"
    "(0x43 # d @ ?pnb) @ y = 0x43 # d @ ?pnb @ y" for y
    by (simp_all add: off_def)
  have pl: "slice_range (off + 4) (off + 4 + length frame) (0x43 # d @ ?pnb @ frame) = Ret frame"
    by (rule sl(7)) simp
  have "build_short_header_crypto_packet debug d pn frame tx = Ret (Inr (b' # d @ pn' @ c @ tag))"
    unfolding build_short_header_crypto_packet_def Let_def hd
    using x(2-5) by (simp only: len sl pl x(1) if_True if_False obind.simps prod.case sum.case) (simp add: sl)
  moreover have "protected tx pn 0x43 d ?pnb frame (b' # d @ pn' @ c @ tag)"
    using x(1,2) by (auto simp: protected_def)
  ultimately show ?thesis by (rule that)
qed

lemma build_handshake_protected:
  fixes d c pn cp
  defines "self \<equiv> \<lparr>pb_dcid = d, pb_scid = c, pb_packet_number = pn\<rparr>"
  defines "qp \<equiv> long_payload cp 0"
  defines "hs \<equiv> long_body self False (length_field False (4 + length qp + 16))"
  assumes k: "paired tx rx" and l: "length cp < 2 ^ 30"
  obtains pkt where "build_handshake_packet debug d c pn cp tx = Ret (Inr pkt)"
    "protected tx pn (long_first 2) hs (to_be_bytes (ucast pn :: u32)) qp pkt"
proof -
  let ?pnb = "to_be_bytes (ucast pn :: u32)" and ?b = "long_first 2"
  have n: "length ?pnb = 4" by simp
  have q: "length qp < 2 ^ 31" "4 + length qp + 16 < 2 ^ 62"
    using l crypto_frame_length [of cp] varint_len_le [of "length cp"] by (simp_all add: qp_def long_payload_def)
  obtain tag ct b' pn' where x: "pk_encrypt_in_place (dk_packet tx) pn (?b # hs @ ?pnb) qp = (Inr tag, ct)"
    "hk_encrypt_in_place (dk_header tx) (take 16 (ct @ tag)) ?b ?pnb = (Inr (), b', pn')"
    "length tag = 16" "length ct = length qp" "length pn' = 4"
    using protected_exists [OF k n q(1)] by metis
  define off where "off = Suc (length hs)"
  note sl = packet_slices [OF n off_def]
  have cf: "length cp < 2 ^ 62" using l by simp
  have hd: "[0xC0 OR push_bit 4 2 OR (word_of_nat 4 - 1)] @ to_be_bytes (1 :: u32)
      @ [word_of_nat (length d)] @ d @ [word_of_nat (length c)] @ c = ?b # long_body self False []"
    using long_header_eq [of 2 self] by (simp add: self_def)
  have qp': "crypto_frame 0 cp = qp" by (simp add: qp_def long_payload_def)
  have fld: "encode_varint (word_of_nat (4 + length qp + 16)) (?b # long_body self False []) = Ret (?b # hs)"
    using encode_varint_nat [OF q(2)] long_body_append [of ?b self False] by (simp add: hs_def length_field_def)
  have len: "length (?b # hs) = off" "length (?b # hs @ ?pnb) = off + 4"
    "(?b # hs) @ ?pnb = ?b # hs @ ?pnb" "((?b # hs) @ ?pnb) @ y = ?b # hs @ ?pnb @ y"
    "(?b # hs @ ?pnb) @ y = ?b # hs @ ?pnb @ y" for y
    by (simp_all add: off_def)
  have pl: "slice_range (off + 4) (off + 4 + length qp) (?b # hs @ ?pnb @ qp) = Ret qp"
    by (rule sl(7)) simp
  have "build_handshake_packet debug d c pn cp tx = Ret (Inr (b' # hs @ pn' @ ct @ tag))"
    unfolding build_handshake_packet_def Let_def pairedD(3) [OF k] hd crypto_frame_encode [OF cf] crypto_frame_0 qp'
    using x(2-5) by (simp only: fld len sl pl x(1) if_True if_False obind.simps prod.case sum.case) (simp add: sl)
  moreover have "protected tx pn ?b hs ?pnb qp (b' # hs @ pn' @ ct @ tag)"
    using x(1,2) by (auto simp: protected_def)
  ultimately show ?thesis by (rule that)
qed

section \<open>Sample keys\<close>

lemma sample_paired: "paired sample_keys sample_keys"
  using sample_wf sample_opens sample_unmasks sample_keeps_form
  by (auto simp: paired_def wf_entry_def sample_entry_def sample_keys_def seals_def masks_def
      sample_packet_key_def sample_header_key_def)

lemma sample_entry_keys [simp]:
  "ke_local sample_entry = sample_keys" "ke_remote sample_entry = sample_keys" "\<not> reuses pn sample_entry"
  "KEYS_TABLE sample_keys_shim 7 = Some sample_entry"
  by (simp_all add: sample_entry_def reuses_def sample_keys_shim_def)

section \<open>Properties\<close>

lemma initial_lengths:
  assumes "length cp \<le> 16000"
  shows "20 + length (long_payload cp (long_pad self True cp)) < 2 ^ 14"
    "1200 \<le> Suc (length (long_body self True (length_field True len))) + (20 + length (long_payload cp (long_pad self True cp)))"
proof -
  have c: "length (crypto_frame 0 cp) = 2 + varint_len (length cp) + length cp"
    using assms by (intro crypto_frame_length) simp
  have p: "length (long_payload cp (long_pad self True cp)) =
      length (crypto_frame 0 cp) + (1200 - (30 + length (pb_dcid self) + length (pb_scid self) + length (crypto_frame 0 cp)))"
    by (simp add: long_payload_def long_pad_def initial_padding_def)
  show "20 + length (long_payload cp (long_pad self True cp)) < 2 ^ 14"
    using assms c varint_len_le [of "length cp"] unfolding p by simp
  have "length (length_field True len) = 2" by (simp add: length_field_def)
  then have "Suc (length (long_body self True (length_field True len))) = 10 + length (pb_dcid self) + length (pb_scid self)"
    by simp
  then show "1200 \<le> Suc (length (long_body self True (length_field True len))) + (20 + length (long_payload cp (long_pad self True cp)))"
    unfolding p by linarith
qed

text \<open>
  C30. An Initial packet built by \<open>PacketBuilder::encode_initial\<close> reaches the peer: the
  builder returns (none of its expectations fails) a packet of at least 1200 bytes and
  advances its packet number, which the keys record; the peer's \<open>parse_long_header\<close> finds a
  version-1 Initial with the builder's connection IDs that ends where the packet ends, and
  \<open>decrypt_initial_inplace\<close> on the peer's keys returns the CRYPTO frame of the payload,
  followed by padding only.
\<close>

theorem initial_packet_opens:
  fixes s :: "'z keys_shim_scheme" and r :: "'y keys_shim_scheme"
  assumes keys: "KEYS_TABLE s h = Some e" "KEYS_TABLE r h' = Some e'" "paired (ke_local e) (ke_remote e')"
    and pn: "\<not> reuses (pb_packet_number self) e" "unat (pb_packet_number self) < 2 ^ 32"
    and len: "length (pb_dcid self) \<le> 20" "length (pb_scid self) \<le> 20" "length cp \<le> 16000"
  shows "\<exists>pkt s' hdr pad.
      encode_initial cp h self s = Ret (pkt, self\<lparr>pb_packet_number := pb_packet_number self + 1\<rparr>, s')
    \<and> 1200 \<le> length pkt
    \<and> KEYS_TABLE s' = (KEYS_TABLE s)(h \<mapsto> e\<lparr>last_local_pn := Some (pb_packet_number self)\<rparr>)
    \<and> parse_long_header pkt = Ret (Some hdr)
    \<and> lh_version hdr = 1 \<and> lh_packet_type hdr = 0 \<and> lh_dcid hdr = pb_dcid self \<and> lh_scid hdr = pb_scid self
    \<and> lh_token hdr = [] \<and> lh_payload_offset hdr + lh_length hdr = length pkt
    \<and> decrypt_initial_inplace pkt hdr h' r =
        Ret (Inr (crypto_frame 0 cp @ replicate pad 0), clear_last_error r)"
proof -
  define qp where "qp = long_payload cp (long_pad self True cp)"
  let ?len = "4 + length qp + 16" and ?pnb = "to_be_bytes (ucast (pb_packet_number self) :: u32)"
  have l: "?len < 2 ^ 14" "length cp < 2 ^ 30"
    using initial_lengths(1) [OF len(3), of self] len(3) by (simp_all add: qp_def)
  obtain pkt s' where 1: "encode_long 0 cp h True self s =
        Ret (pkt, self\<lparr>pb_packet_number := pb_packet_number self + 1\<rparr>, s')"
    and p: "protected (ke_local e) (pb_packet_number self) (long_first 0) (long_body self True (length_field True ?len)) ?pnb qp pkt"
    and t: "KEYS_TABLE s' = (KEYS_TABLE s)(h \<mapsto> e\<lparr>last_local_pn := Some (pb_packet_number self)\<rparr>)"
    using encode_long_seals [OF keys(1,3) pn(1) len(1,2) l(2) qp_def refl, of 0] l(1) by metis
  have n: "length ?pnb = 4" by simp
  have b: "pn_length_of (long_first 0) = 4" by simp
  let ?hdr = "\<lparr>lh_version = 1, lh_packet_type = 0, lh_dcid = pb_dcid self, lh_scid = pb_scid self, lh_token = [],
      lh_payload_offset = Suc (length (long_body self True (length_field True ?len))), lh_length = ?len\<rparr>"
  have parse: "parse_long_header (pkt @ []) = Ret (Some ?hdr)"
    "length pkt = Suc (length (long_body self True (length_field True ?len))) + ?len"
    using parse_protected(1) [OF keys(3) _ len(1,2) refl _ _ n p, where after = "[]"]
      parse_protected(2) [OF keys(3) _ len(1,2) refl _ _ n p] l(1) by simp_all
  have "1200 \<le> length pkt"
    using initial_lengths(2) [OF len(3), of self ?len] unfolding parse(2) qp_def by simp
  moreover have "length pkt < 2 ^ 31"
    using l(1) len(1,2) by (simp add: parse(2) length_field_def)
  then have "decrypt_initial_inplace pkt ?hdr h' r = Ret (Inr qp, clear_last_error r)"
    by (intro decrypt_initial_opens [OF keys(2,3) p b refl pn(2)]) simp_all
  ultimately show ?thesis
    using 1 t parse unfolding encode_initial_def
    by (intro exI [of _ pkt] exI [of _ s'] exI [of _ ?hdr] exI [of _ "long_pad self True cp"])
      (simp add: qp_def long_payload_def)
qed

theorem initial_packet_opens_witness:
  "\<exists>pkt s' hdr pad.
      encode_initial [1, 2, 3] 7 \<lparr>pb_dcid = [9, 9], pb_scid = [], pb_packet_number = 5\<rparr> sample_keys_shim =
        Ret (pkt, \<lparr>pb_dcid = [9, 9], pb_scid = [], pb_packet_number = 6\<rparr>, s')
    \<and> 1200 \<le> length pkt \<and> parse_long_header pkt = Ret (Some hdr) \<and> lh_dcid hdr = [9, 9]
    \<and> decrypt_initial_inplace pkt hdr 7 sample_keys_shim =
        Ret (Inr (crypto_frame 0 [1, 2, 3] @ replicate pad 0), clear_last_error sample_keys_shim)"
  using initial_packet_opens [of sample_keys_shim 7 sample_entry sample_keys_shim 7 sample_entry
      "\<lparr>pb_dcid = [9, 9], pb_scid = [], pb_packet_number = 5\<rparr>" "[1, 2, 3]"] sample_paired
  by fastforce

text \<open>
  C31. The two Handshake encoders agree and their packet opens: with the same keys, IDs and
  packet number, \<open>PacketBuilder::encode_handshake\<close> over a keys handle and
  \<open>build_handshake_packet\<close> over the rustls keys return the same bytes; the peer parses them as
  a Handshake packet of exactly that length, whatever is coalesced behind it, and
  \<open>decrypt_long_with_rustls\<close> returns the CRYPTO frame.
\<close>

theorem handshake_encoders_agree:
  fixes s :: "'z keys_shim_scheme"
  assumes keys: "KEYS_TABLE s h = Some e" "paired (ke_local e) rx"
    and pn: "\<not> reuses (pb_packet_number self) e" "unat (pb_packet_number self) < 2 ^ 32"
    and len: "length (pb_dcid self) \<le> 20" "length (pb_scid self) \<le> 20" "length cp < 2 ^ 30"
  shows "\<exists>pkt s' hdr.
      encode_handshake cp h self s = Ret (pkt, self\<lparr>pb_packet_number := pb_packet_number self + 1\<rparr>, s')
    \<and> build_handshake_packet debug (pb_dcid self) (pb_scid self) (pb_packet_number self) cp (ke_local e) = Ret (Inr pkt)
    \<and> parse_long_header (pkt @ after) = Ret (Some hdr) \<and> lh_packet_type hdr = 2
    \<and> lh_payload_offset hdr + lh_length hdr = length pkt
    \<and> decrypt_long_with_rustls debug pkt hdr rx = Ret (Inr (crypto_frame 0 cp))"
proof -
  let ?pn = "pb_packet_number self" and ?pnb = "to_be_bytes (ucast (pb_packet_number self) :: u32)"
  define qp where "qp = long_payload cp (long_pad self False cp)"
  let ?len = "4 + length qp + 16"
  let ?hs = "long_body self False (length_field False ?len)"
  have qp: "qp = long_payload cp 0" "qp = crypto_frame 0 cp"
    by (simp_all add: qp_def long_pad_def long_payload_def)
  have l: "?len < 2 ^ 62"
    using len(3) crypto_frame_length [of cp] varint_len_le [of "length cp"] by (simp add: qp(2))
  obtain pkt s' where 1: "encode_long 2 cp h False self s = Ret (pkt, self\<lparr>pb_packet_number := ?pn + 1\<rparr>, s')"
    and p: "protected (ke_local e) ?pn (long_first 2) ?hs ?pnb qp pkt"
    using encode_long_seals [OF keys pn(1) len qp_def refl, of 2] by metis
  have body: "long_body \<lparr>pb_dcid = pb_dcid self, pb_scid = pb_scid self, pb_packet_number = ?pn\<rparr> = long_body self"
    by (simp add: fun_eq_iff long_body_def)
  obtain pkt' where 2: "build_handshake_packet debug (pb_dcid self) (pb_scid self) ?pn cp (ke_local e) = Ret (Inr pkt')"
    and p': "protected (ke_local e) ?pn (long_first 2) ?hs ?pnb qp pkt'"
    using build_handshake_protected [OF keys(2) len(3), of debug "pb_dcid self" "pb_scid self" ?pn, unfolded body, folded qp(1)]
    by metis
  have n: "length ?pnb = 4" and b: "pn_length_of (long_first 2) = 4" by simp_all
  let ?hdr = "\<lparr>lh_version = 1, lh_packet_type = 2, lh_dcid = pb_dcid self, lh_scid = pb_scid self, lh_token = [],
      lh_payload_offset = Suc (length ?hs), lh_length = ?len\<rparr>"
  have "parse_long_header (pkt @ after) = Ret (Some ?hdr)" "length pkt = Suc (length ?hs) + ?len"
    using parse_protected(1) [OF keys(2) _ len(1,2) refl _ _ n p, where after = after]
      parse_protected(2) [OF keys(2) _ len(1,2) refl _ _ n p] l by simp_all
  moreover have "decrypt_long_with_rustls debug pkt ?hdr rx = Ret (Inr qp)"
    by (intro decrypt_long_opens [OF keys(2) p b refl pn(2)]) simp_all
  ultimately show ?thesis
    using 1 2 protected_unique [OF p p'] qp(2) unfolding encode_handshake_def
    by (intro exI [of _ pkt] exI [of _ s'] exI [of _ ?hdr]) simp
qed

theorem handshake_encoders_agree_witness:
  "\<exists>pkt s' hdr.
      encode_handshake [8] 7 \<lparr>pb_dcid = [9, 9], pb_scid = [], pb_packet_number = 5\<rparr> sample_keys_shim =
        Ret (pkt, \<lparr>pb_dcid = [9, 9], pb_scid = [], pb_packet_number = 6\<rparr>, s')
    \<and> build_handshake_packet id [9, 9] [] 5 [8] sample_keys = Ret (Inr pkt)
    \<and> parse_long_header (pkt @ [0x40]) = Ret (Some hdr)
    \<and> decrypt_long_with_rustls id pkt hdr sample_keys = Ret (Inr (crypto_frame 0 [8]))"
  using handshake_encoders_agree [of sample_keys_shim 7 sample_entry sample_keys
      "\<lparr>pb_dcid = [9, 9], pb_scid = [], pb_packet_number = 5\<rparr>" "[8]" id "[0x40]"] sample_paired
  by fastforce

text \<open>
  C32. The two 1-RTT encoders agree and their packet opens: \<open>PacketBuilder::encode_1rtt\<close> over a
  keys handle and \<open>build_short_header_crypto_packet\<close> over the rustls keys return the same
  bytes, in which \<open>parse_short_header\<close> finds the destination ID and
  \<open>decrypt_short_with_rustls\<close> the payload.
\<close>

theorem one_rtt_encoders_agree:
  fixes s :: "'z keys_shim_scheme"
  assumes keys: "KEYS_TABLE s h = Some e" "paired (ke_local e) rx"
    and pn: "\<not> reuses (pb_packet_number self) e" "unat (pb_packet_number self) < 2 ^ 32"
    and len: "length (pb_dcid self) \<le> 20" "length payload < 2 ^ 30"
  shows "\<exists>pkt s'.
      encode_1rtt payload h self s = Ret (pkt, self\<lparr>pb_packet_number := pb_packet_number self + 1\<rparr>, s')
    \<and> build_short_header_crypto_packet debug (pb_dcid self) (pb_packet_number self) payload (ke_local e) = Ret (Inr pkt)
    \<and> parse_short_header pkt (length (pb_dcid self)) =
        Ret (Some \<lparr>sh_dcid = pb_dcid self, sh_packet_number_offset = 1 + length (pb_dcid self)\<rparr>)
    \<and> decrypt_short_with_rustls debug pkt (length (pb_dcid self)) rx = Ret (Inr payload)"
proof -
  let ?pn = "pb_packet_number self" and ?pnb = "to_be_bytes (ucast (pb_packet_number self) :: u32)"
  obtain pkt s' where 1: "encode_1rtt payload h self s = Ret (pkt, self\<lparr>pb_packet_number := ?pn + 1\<rparr>, s')"
    and p: "protected (ke_local e) ?pn 0x43 (pb_dcid self) ?pnb payload pkt"
    using encode_1rtt_seals [OF keys pn(1) len] by metis
  have "length payload < 2 ^ 31" using len(2) by simp
  then obtain pkt' where 2: "build_short_header_crypto_packet debug (pb_dcid self) ?pn payload (ke_local e) = Ret (Inr pkt')"
    and p': "protected (ke_local e) ?pn 0x43 (pb_dcid self) ?pnb payload pkt'"
    using build_short_protected [OF keys(2), of payload debug "pb_dcid self" ?pn] by metis
  have n: "length ?pnb = 4" and b: "pn_length_of 0x43 = 4" by (simp_all add: pn_length_of_def)
  obtain b' rest where x: "pkt = b' # pb_dcid self @ rest"
    and form: "if (0x43 :: byte) AND 0x80 = 0 then b' AND 0xE0 = 0x43 AND 0xE0 else b' AND 0xF0 = 0x43 AND 0xF0"
    using protected_open [OF keys(2) p n b] by metis
  have "b' AND 0x80 = 0" using form by (intro short_first_form) simp
  then have "parse_short_header pkt (length (pb_dcid self)) =
      Ret (Some \<lparr>sh_dcid = pb_dcid self, sh_packet_number_offset = 1 + length (pb_dcid self)\<rparr>)"
    by (simp add: parse_short_header_def x)
  then show ?thesis
    using 1 2 protected_unique [OF p p'] decrypt_short_opens [OF keys(2) p refl pn(2)] by auto
qed

theorem one_rtt_encoders_agree_witness:
  "\<exists>pkt s'.
      encode_1rtt [8] 7 \<lparr>pb_dcid = [9], pb_scid = [], pb_packet_number = 5\<rparr> sample_keys_shim =
        Ret (pkt, \<lparr>pb_dcid = [9], pb_scid = [], pb_packet_number = 6\<rparr>, s')
    \<and> build_short_header_crypto_packet id [9] 5 [8] sample_keys = Ret (Inr pkt)
    \<and> decrypt_short_with_rustls id pkt 1 sample_keys = Ret (Inr [8])"
  using one_rtt_encoders_agree [of sample_keys_shim 7 sample_entry sample_keys
      "\<lparr>pb_dcid = [9], pb_scid = [], pb_packet_number = 5\<rparr>" "[8]" id] sample_paired
  by fastforce

lemma pn_length_le: "unat ((b AND 0x03) + 1 :: byte) \<le> 4"
  and pn_length_pos: "0 < unat ((b AND 0x03) + 1 :: byte)"
proof -
  have "b AND 0x03 = take_bit 2 b"
    by (simp add: take_bit_eq_mask mask_eq_exp_minus_1)
  then have 3: "unat (b AND 0x03) < 4"
    by (simp add: unsigned_take_bit_eq take_bit_nat_less_exp [of 2, simplified])
  have "(b AND 0x03) + 1 = word_of_nat (unat (b AND 0x03) + 1)"
    by (simp add: of_nat_unat)
  with 3 have "unat ((b AND 0x03) + 1) = unat (b AND 0x03) + 1"
    using unat_byte_of_nat [of "unat (b AND 0x03) + 1"] by (simp add: add.commute)
  with 3 show "unat ((b AND 0x03) + 1) \<le> 4" "0 < unat ((b AND 0x03) + 1)"
    by linarith+
qed

lemma decrypt_long_returns:
  assumes off: "0 < lh_payload_offset hdr" "length pkt = lh_payload_offset hdr + lh_length hdr"
    and wf: "wf_header_key (dk_header rx)"
  shows "returns (decrypt_long_with_rustls debug pkt hdr rx)"
proof (cases "length pkt < lh_payload_offset hdr + 4 + 16")
  case False
  let ?o = "lh_payload_offset hdr"
  obtain res b' pn' where hk: "hk_decrypt_in_place (dk_header rx) (take 16 (drop (?o + 4) pkt)) (pkt ! 0) (take 4 (drop ?o pkt)) = (res, b', pn')"
    by (metis surj_pair)
  have n: "length pn' = 4"
    using wf_header_keyD(2) [OF wf hk] False by simp
  define k where "k = unat ((b' AND 0x03) + 1)"
  have k: "k \<le> 4" by (simp add: k_def pn_length_le)
  show ?thesis
    using False off n k hk
    by (simp add: decrypt_long_with_rustls_def Let_def flip: k_def split: sum.split prod.split)
qed (simp add: decrypt_long_with_rustls_def Let_def)

lemma decrypt_short_returns:
  assumes wf: "wf_header_key (dk_header rx)"
  shows "returns (decrypt_short_with_rustls debug pkt m rx)"
proof (cases "pkt = [] \<or> pkt ! 0 AND 0x80 \<noteq> 0 \<or> length pkt < 1 + m + 4 + 16")
  case False
  let ?o = "1 + m"
  from False have l: "21 + m \<le> length pkt" "pkt \<noteq> []" "pkt ! 0 AND 0x80 = 0" by simp_all
  obtain res b' pn' where hk: "hk_decrypt_in_place (dk_header rx) (take 16 (drop (?o + 4) pkt)) (pkt ! 0) (take 4 (drop ?o pkt)) = (res, b', pn')"
    by (metis surj_pair)
  have n: "length pn' = 4"
    using wf_header_keyD(2) [OF wf hk] False by auto
  define k where "k = unat ((b' AND 0x03) + 1)"
  have k: "k \<le> 4" by (simp add: k_def pn_length_le)
  show ?thesis
    using l n k hk
    by (simp add: decrypt_short_with_rustls_def Let_def flip: k_def split: sum.split prod.split)
qed (auto simp: decrypt_short_with_rustls_def Let_def)

text \<open>The shim's wrappers return, and keep the length of what they were given.\<close>

lemma remote_header_unprotect_ensures:
  assumes "length sample = 16" "length pn = 4"
    and "\<forall>e. KEYS_TABLE r h = Some e \<longrightarrow> wf_header_key (dk_header (ke_remote e))"
  shows "ensures (remote_header_unprotect h sample b pn r) (\<lambda>((res, b', pn'), r'). length pn' = 4 \<and> KEYS_TABLE r' = KEYS_TABLE r)"
  using assms
  by (auto simp: remote_header_unprotect_def rlsm_keys_remote_header_unprotect_def Let_def sint_i32_of_usize from_raw_parts_Ptr deref_Ptr
      rlsm_err_def dest!: wf_header_keyD(2) split: option.split prod.split sum.split)

lemma returns_ensures: "returns m \<longleftrightarrow> ensures m (\<lambda>_. True)"
  by (cases m) simp_all

lemma remote_decrypt_ensures:
  assumes "\<forall>e. KEYS_TABLE r h = Some e \<longrightarrow> wf_packet_key (dk_packet (ke_remote e))"
  shows "ensures (remote_decrypt h pn hdr ct r)
    (\<lambda>((res, ct'), r'). length ct' = length ct \<and> (\<forall>n. res = Inr n \<longrightarrow> n \<le> length ct) \<and> KEYS_TABLE r' = KEYS_TABLE r)"
proof (cases "length hdr < 2 ^ 31 \<and> length ct < 2 ^ 31")
  case True
  show ?thesis
  proof (cases "KEYS_TABLE r h")
    case None
    with True show ?thesis
      by (simp add: remote_decrypt_def rlsm_keys_remote_decrypt_def Let_def sint_i32_of_usize from_raw_parts_Ptr rlsm_err_def)
  next
    case (Some e)
    obtain res ct' where dec: "pk_decrypt_in_place (dk_packet (ke_remote e)) pn hdr ct = (res, ct')"
      by (cases "pk_decrypt_in_place (dk_packet (ke_remote e)) pn hdr ct")
    have wf: "wf_packet_key (dk_packet (ke_remote e))" using assms Some by simp
    have l: "length ct' = length ct" "\<And>n. res = Inr n \<Longrightarrow> n \<le> length ct"
      using wf_packet_keyD(3) [OF wf dec] wf_packet_keyD(4) [OF wf] dec by blast+
    show ?thesis
      using remote_decrypt_valid [of "length hdr" hdr "length ct" ct r h e pn res ct'] True Some dec l
      by (cases res) (auto simp: remote_decrypt_def sint_i32_of_usize)
  qed
qed (auto simp: remote_decrypt_def i32_try_from_def)

lemma decrypt_initial_ensures:
  assumes off: "0 < lh_payload_offset hdr" "length pkt = lh_payload_offset hdr + lh_length hdr"
    and wf: "\<forall>e. KEYS_TABLE r h = Some e \<longrightarrow> wf_packet_key (dk_packet (ke_remote e)) \<and> wf_header_key (dk_header (ke_remote e))"
  shows "ensures (decrypt_initial_inplace pkt hdr h r) (\<lambda>(res, r'). KEYS_TABLE r' = KEYS_TABLE r)"
proof (cases "length pkt < lh_payload_offset hdr + 4 + 16")
  case False
  let ?o = "lh_payload_offset hdr"
  have "ensures (remote_header_unprotect h (take 16 (drop (?o + 4) pkt)) (pkt ! 0) (take 4 (drop ?o pkt)) r)
      (\<lambda>((res, b', pn'), r'). length pn' = 4 \<and> KEYS_TABLE r' = KEYS_TABLE r)"
    using False wf by (intro remote_header_unprotect_ensures) auto
  then obtain res b' pn' r' where hk: "remote_header_unprotect h (take 16 (drop (?o + 4) pkt)) (pkt ! 0) (take 4 (drop ?o pkt)) r
      = Ret ((res, b', pn'), r')" and n: "length pn' = 4" "KEYS_TABLE r' = KEYS_TABLE r"
    by (auto simp: ensures_iff)
  define k where "k = unat ((b' AND 0x03) + 1)"
  have k: "k \<le> 4" by (simp add: k_def pn_length_le)
  have dec: "ensures (remote_decrypt h pn hd ct r')
    (\<lambda>((res, ct'), r''). length ct' = length ct \<and> (\<forall>n. res = Inr n \<longrightarrow> n \<le> length ct) \<and> KEYS_TABLE r'' = KEYS_TABLE r')" for pn hd ct
    using wf n(2) by (intro remote_decrypt_ensures) simp
  show ?thesis
    using False off n k hk
    by (auto simp: decrypt_initial_inplace_def Let_def intro!: ensures_obind [OF dec] simp flip: k_def split: sum.split prod.split)
qed (simp add: decrypt_initial_inplace_def Let_def)

text \<open>
  C33. Opening a packet never panics, whatever the peer sent: for any bytes that
  \<open>parse_long_header\<close> accepts, cut at the end the header announces as the drivers do, and
  for any short-header datagram, the decrypters return a plaintext or an error.
\<close>

theorem opening_never_panics:
  fixes r :: "'z keys_shim_scheme"
  assumes "parse_long_header rest = Ret (Some hdr)" "pkt = take (lh_payload_offset hdr + lh_length hdr) rest"
    and "wf_packet_key (dk_packet rx)" "wf_header_key (dk_header rx)"
    and "\<forall>e. KEYS_TABLE r h = Some e \<longrightarrow> wf_packet_key (dk_packet (ke_remote e)) \<and> wf_header_key (dk_header (ke_remote e))"
  shows "returns (decrypt_long_with_rustls debug pkt hdr rx)
    \<and> returns (decrypt_initial_inplace pkt hdr h r)
    \<and> returns (decrypt_short_with_rustls debug dgram n rx)"
proof -
  have f: "fits rest hdr"
    using parse_long_header_ensures [of rest] assms(1) by simp
  then have "0 < lh_payload_offset hdr" "length pkt = lh_payload_offset hdr + lh_length hdr"
    using assms(2) by (simp_all add: fits_def)
  then show ?thesis
    using assms(3-5) decrypt_initial_ensures [of hdr pkt r h]
    by (intro conjI decrypt_long_returns decrypt_short_returns) (auto simp: returns_iff ensures_iff)
qed

theorem opening_never_panics_witness:
  "\<exists>hdr. parse_long_header [0xC0, 0, 0, 0, 1, 0, 0, 0, 0, 0] = Ret (Some hdr)
     \<and> returns (decrypt_long_with_rustls id (take (lh_payload_offset hdr + lh_length hdr) [0xC0, 0, 0, 0, 1, 0, 0, 0, 0, 0])
          hdr sample_keys)
     \<and> returns (decrypt_short_with_rustls id [0x40] 3 sample_keys)"
proof -
  let ?p = "[0xC0, 0, 0, 0, 1, 0, 0, 0, 0, 0] :: bytes"
  let ?h = "\<lparr>lh_version = 1, lh_packet_type = 0, lh_dcid = [], lh_scid = [], lh_token = [], lh_payload_offset = 9, lh_length = 0\<rparr>"
  have "parse_long_header ?p = Ret (Some ?h)" by code_simp
  moreover have "wf_packet_key (dk_packet sample_keys)" "wf_header_key (dk_header sample_keys)"
    using sample_wf by (simp_all add: wf_entry_def)
  ultimately show ?thesis
    using opening_never_panics [of ?p ?h "take 9 ?p" sample_keys sample_keys_shim 0 id "[0x40]" 3]
    by (auto simp: sample_keys_shim_def)
qed

end
