(* ===== verification/Frame_Scan.thy ===== *)
theory Frame_Scan
  imports Packet_Crypto Quic_Conn
begin

text \<open>
  The frame scanners of the conformance client (\<open>conformance/tls-conformance/src/lib.rs\<close>):
  the one inside \<open>drive_handshake_initial_inner\<close>, \<open>scan_initial_plaintext_for_cc\<close> and
  \<open>scan_plaintext_into_rustls\<close>. Each walks a decrypted payload frame by frame. The three share
  a contract, stated as a locale: a step makes progress inside the buffer, and the scan is
  the iteration of the step.
\<close>

section \<open>The \<open>?\<close> operator\<close>

text \<open>An early \<open>return Err(e)\<close> passes through.\<close>

definition try_bind :: "(string + 'a) outcome \<Rightarrow> ('a \<Rightarrow> (string + 'b) outcome) \<Rightarrow> (string + 'b) outcome" where
  "try_bind m f = obind m (\<lambda>r. case r of Inl e \<Rightarrow> Ret (Inl e) | Inr x \<Rightarrow> f x)"

text \<open>\<open>decode_varint(&plaintext[p..]).ok_or_else(..)?\<close>, then \<open>p += n\<close>.\<close>

definition read_varint :: "string \<Rightarrow> bytes \<Rightarrow> nat \<Rightarrow> (string + u64 \<times> nat) outcome" where
  "read_varint msg plaintext p =
     obind (slice_from p plaintext) (\<lambda>t.
     Ret (case decode_varint t of None \<Rightarrow> Inl msg | Some (v, n) \<Rightarrow> Inr (v, p + n)))"

section \<open>Frames\<close>

fun ack_ranges :: "nat \<Rightarrow> bytes \<Rightarrow> nat \<Rightarrow> (string + nat) outcome" where
  "ack_ranges 0 plaintext p = Ret (Inr p)"
| "ack_ranges (Suc n) plaintext p =
     try_bind (read_varint ''ACK: gap varint truncated'' plaintext p) (\<lambda>(_, p).
     try_bind (read_varint ''ACK: range_len varint truncated'' plaintext p) (\<lambda>(_, p).
     ack_ranges n plaintext p))"

fun ecn_counts :: "nat \<Rightarrow> bytes \<Rightarrow> nat \<Rightarrow> (string + nat) outcome" where
  "ecn_counts 0 plaintext p = Ret (Inr p)"
| "ecn_counts (Suc n) plaintext p =
     try_bind (read_varint ''ACK_ECN: count varint truncated'' plaintext p) (\<lambda>(_, p).
     ecn_counts n plaintext p)"

text \<open>The ACK arm, the same in the three scanners: the index after the frame.\<close>

definition walk_ack :: "bool \<Rightarrow> bytes \<Rightarrow> nat \<Rightarrow> (string + nat) outcome" where
  "walk_ack with_ecn plaintext i =
     (let p = i + 1 in
      try_bind (read_varint ''ACK: largest_acked varint truncated'' plaintext p) (\<lambda>(_, p).
      try_bind (read_varint ''ACK: ack_delay varint truncated'' plaintext p) (\<lambda>(_, p).
      try_bind (read_varint ''ACK: range_count varint truncated'' plaintext p) (\<lambda>(range_count, p).
      try_bind (read_varint ''ACK: first_range varint truncated'' plaintext p) (\<lambda>(_, p).
      try_bind (ack_ranges (unat range_count) plaintext p) (\<lambda>p.
      if with_ecn then ecn_counts 3 plaintext p else Ret (Inr p)))))))"

text \<open>The CRYPTO arm up to its data: the bounds of the data.\<close>

definition walk_crypto :: "bytes \<Rightarrow> nat \<Rightarrow> (string + nat \<times> nat) outcome" where
  "walk_crypto plaintext i =
     (let p = i + 1 in
      try_bind (read_varint ''CRYPTO: offset varint truncated'' plaintext p) (\<lambda>(_, p).
      try_bind (read_varint ''CRYPTO: length varint truncated'' plaintext p) (\<lambda>(len, p).
      let len = unat len in
      if length plaintext < p + len then Ret (Inl ''CRYPTO: data slice truncated'')
      else Ret (Inr (p, p + len)))))"

definition walk_ncid :: "bytes \<Rightarrow> nat \<Rightarrow> (string + nat) outcome" where
  "walk_ncid plaintext i =
     (let p = i + 1 in
      try_bind (read_varint ''NCID: seq truncated'' plaintext p) (\<lambda>(_, p).
      try_bind (read_varint ''NCID: retire_prior_to truncated'' plaintext p) (\<lambda>(_, p).
      case get plaintext p of
        None \<Rightarrow> Ret (Inl ''NCID: cid len byte missing'')
      | Some cid_len \<Rightarrow>
          let cid_len = unat cid_len; p = p + 1 in
          if length plaintext < p + cid_len + 16 then Ret (Inl ''NCID: cid+token tail truncated'')
          else Ret (Inr (p + cid_len + 16)))))"

definition walk_close :: "bytes \<Rightarrow> nat \<Rightarrow> (string + ConnectionClose) outcome" where
  "walk_close plaintext i =
     obind (slice_from i plaintext) (\<lambda>t.
     obind (parse_connection_close t) (\<lambda>r.
     Ret (case r of None \<Rightarrow> Inl ''CONNECTION_CLOSE parse failed'' | Some cc \<Rightarrow> Inr cc)))"

section \<open>Steps\<close>

text \<open>What one iteration of \<open>while i < plaintext.len()\<close> does.\<close>

datatype scan_step = Next nat | Close ConnectionClose | Stop

definition ret_step :: "('a \<Rightarrow> scan_step) \<Rightarrow> (string + 'a) outcome \<Rightarrow> (string + scan_step) outcome" where
  "ret_step f m = try_bind m (\<lambda>x. Ret (Inr (f x)))"

definition initial_step :: "bytes \<Rightarrow> nat \<Rightarrow> (string + scan_step) outcome" where
  "initial_step plaintext i =
     (let ft = plaintext ! i in
      if ft = 0x00 \<or> ft = 0x01 then Ret (Inr (Next (i + 1)))
      else if ft = 0x02 \<or> ft = 0x03 then ret_step Next (walk_ack (ft = 0x03) plaintext i)
      else if ft = 0x1c \<or> ft = 0x1d then ret_step Close (walk_close plaintext i)
      else Ret (Inr Stop))"

definition cc_step :: "bytes \<Rightarrow> nat \<Rightarrow> (string + scan_step) outcome" where
  "cc_step plaintext i =
     (let ft = plaintext ! i in
      if ft = 0x00 \<or> ft = 0x01 then Ret (Inr (Next (i + 1)))
      else if ft = 0x02 \<or> ft = 0x03 then ret_step Next (walk_ack (ft = 0x03) plaintext i)
      else if ft = 0x06 then ret_step (\<lambda>(_, j). Next j) (walk_crypto plaintext i)
      else if ft = 0x1c \<or> ft = 0x1d then ret_step Close (walk_close plaintext i)
      else Ret (Inr Stop))"

text \<open>
  A client connection of rustls: \<open>read_hs\<close> gives the \<open>{e:?}\<close> rendering of its error,
  \<open>write_hs\<close> the bytes appended and the key change.
\<close>

record ('c, 'sec) tls_client =
  tc_read_hs :: "bytes \<Rightarrow> 'c \<Rightarrow> string option \<times> 'c"
  tc_write_hs :: "'c \<Rightarrow> (bytes \<times> 'sec KeyChange option) \<times> 'c"
  tc_is_handshaking :: "'c \<Rightarrow> bool"

definition feed_crypto ::
  "('c, 'sec) tls_client \<Rightarrow> bytes \<Rightarrow> nat \<Rightarrow> 'c \<Rightarrow> (string + scan_step) outcome \<times> 'c" where
  "feed_crypto tls plaintext i conn =
     (case walk_crypto plaintext i of
        Ret (Inr (p, j)) \<Rightarrow>
          (case slice_range p j plaintext of
             Ret chunk \<Rightarrow>
               (case tc_read_hs tls chunk conn of
                  (Some e, conn) \<Rightarrow> (Ret (Inl (''rustls read_hs failed: '' @ e)), conn)
                | (None, conn) \<Rightarrow> (Ret (Inr (Next j)), conn))
           | Panic \<Rightarrow> (Panic, conn) | Undef \<Rightarrow> (Undef, conn))
      | Ret (Inl e) \<Rightarrow> (Ret (Inl e), conn)
      | Panic \<Rightarrow> (Panic, conn) | Undef \<Rightarrow> (Undef, conn))"

definition rustls_step ::
  "('c, 'sec) tls_client \<Rightarrow> bytes \<Rightarrow> nat \<Rightarrow> 'c \<Rightarrow> (string + scan_step) outcome \<times> 'c" where
  "rustls_step tls plaintext i conn =
     (let ft = plaintext ! i in
      if ft = 0x00 \<or> ft = 0x01 then (Ret (Inr (Next (i + 1))), conn)
      else if ft = 0x02 \<or> ft = 0x03 then (ret_step Next (walk_ack (ft = 0x03) plaintext i), conn)
      else if ft = 0x06 then feed_crypto tls plaintext i conn
      else if ft = 0x18 then (ret_step Next (walk_ncid plaintext i), conn)
      else if ft = 0x1c \<or> ft = 0x1d then (ret_step Close (walk_close plaintext i), conn)
      else if ft = 0x1e then (Ret (Inr (Next (i + 1))), conn)
      else (Ret (Inr Stop), conn))"

section \<open>Lemmas: steps return and advance\<close>

text \<open>Returns, and satisfies \<open>P\<close> unless it is an error.\<close>

definition tries :: "('e + 'a) outcome \<Rightarrow> ('a \<Rightarrow> bool) \<Rightarrow> bool" where
  "tries m P = ensures m (\<lambda>r. case r of Inl _ \<Rightarrow> True | Inr x \<Rightarrow> P x)"

lemma tries_simps [simp]:
  "tries (Ret (Inl e)) P" "tries (Ret (Inr x)) P = P x" "\<not> tries Panic P" "\<not> tries Undef P"
  by (simp_all add: tries_def)

lemma tries_bind: "tries m Q \<Longrightarrow> (\<And>x. Q x \<Longrightarrow> tries (f x) P) \<Longrightarrow> tries (try_bind m f) P"
  by (cases m) (auto simp: try_bind_def tries_def split: sum.splits)

lemma tries_mono: "tries m P \<Longrightarrow> (\<And>x. P x \<Longrightarrow> Q x) \<Longrightarrow> tries m Q"
  by (cases m) (auto simp: tries_def split: sum.splits)

lemma triesD: "tries m P \<Longrightarrow> m = Ret (Inr x) \<Longrightarrow> P x"
  by simp

lemma tries_returns: "tries m P \<Longrightarrow> returns m"
  by (cases m) simp_all

lemma read_varint_tries:
  "p \<le> length pt \<Longrightarrow> tries (read_varint msg pt p) (\<lambda>(v, q). p < q \<and> q \<le> length pt)"
  using decode_varint_length [of "drop p pt"] by (auto simp: read_varint_def split: option.split)

lemma ack_ranges_tries:
  "p \<le> length pt \<Longrightarrow> tries (ack_ranges n pt p) (\<lambda>q. p \<le> q \<and> q \<le> length pt)"
proof (induction n arbitrary: p)
  case (Suc n)
  then show ?case
    by (auto intro!: tries_bind [OF read_varint_tries] elim!: tries_mono [OF Suc.IH])
qed simp

lemma ecn_counts_tries:
  "p \<le> length pt \<Longrightarrow> tries (ecn_counts n pt p) (\<lambda>q. p \<le> q \<and> q \<le> length pt)"
proof (induction n arbitrary: p)
  case (Suc n)
  then show ?case
    by (auto intro!: tries_bind [OF read_varint_tries] elim!: tries_mono [OF Suc.IH])
qed simp

lemma walk_ack_tries:
  "i < length pt \<Longrightarrow> tries (walk_ack ecn pt i) (\<lambda>q. i < q \<and> q \<le> length pt)"
  by (auto simp: walk_ack_def Let_def intro!: tries_bind [OF read_varint_tries] tries_bind [OF ack_ranges_tries]
      elim!: tries_mono [OF ecn_counts_tries])

lemma walk_crypto_tries:
  "i < length pt \<Longrightarrow> tries (walk_crypto pt i) (\<lambda>(p, q). i < q \<and> p \<le> q \<and> q \<le> length pt)"
  by (auto simp: walk_crypto_def Let_def intro!: tries_bind [OF read_varint_tries])

lemma walk_ncid_tries:
  "i < length pt \<Longrightarrow> tries (walk_ncid pt i) (\<lambda>q. i < q \<and> q \<le> length pt)"
  by (auto simp: walk_ncid_def Let_def get_def intro!: tries_bind [OF read_varint_tries] split: option.split)

lemma walk_close_tries: "i < length pt \<Longrightarrow> tries (walk_close pt i) (\<lambda>_. True)"
  using parse_connection_close_ensures [of "drop i pt"]
  by (auto simp: walk_close_def ensures_iff split: option.split)

definition advances :: "bytes \<Rightarrow> nat \<Rightarrow> scan_step \<Rightarrow> bool" where
  "advances pt i st = (case st of Next j \<Rightarrow> i < j \<and> j \<le> length pt | _ \<Rightarrow> True)"

lemma ret_step_tries: "tries m P \<Longrightarrow> (\<And>x. P x \<Longrightarrow> advances pt i (f x)) \<Longrightarrow> tries (ret_step f m) (advances pt i)"
  by (auto simp: ret_step_def intro: tries_bind)

lemma initial_step_tries: "i < length pt \<Longrightarrow> tries (initial_step pt i) (advances pt i)"
  by (auto simp: initial_step_def Let_def advances_def intro: ret_step_tries [OF walk_ack_tries] ret_step_tries [OF walk_close_tries])

lemma cc_step_tries: "i < length pt \<Longrightarrow> tries (cc_step pt i) (advances pt i)"
  by (auto simp: cc_step_def Let_def advances_def intro!: ret_step_tries [OF walk_ack_tries] ret_step_tries [OF walk_close_tries]
      ret_step_tries [OF walk_crypto_tries])

lemma feed_crypto_tries: "i < length pt \<Longrightarrow> tries (fst (feed_crypto tls pt i conn)) (advances pt i)"
  using walk_crypto_tries [of i pt]
  by (auto simp: feed_crypto_def advances_def split: outcome.split sum.split option.split prod.split)

lemma rustls_step_tries: "i < length pt \<Longrightarrow> tries (fst (rustls_step tls pt i conn)) (advances pt i)"
  by (auto simp: rustls_step_def Let_def advances_def intro!: ret_step_tries [OF walk_ack_tries] ret_step_tries [OF walk_close_tries]
      ret_step_tries [OF walk_ncid_tries] feed_crypto_tries)

lemma initial_step_next: "initial_step pt i = Ret (Inr (Next j)) \<Longrightarrow> i < length pt \<Longrightarrow> i < j"
  using initial_step_tries [of i pt] by (simp add: advances_def)

lemma cc_step_next: "cc_step pt i = Ret (Inr (Next j)) \<Longrightarrow> i < length pt \<Longrightarrow> i < j"
  using cc_step_tries [of i pt] by (simp add: advances_def)

lemma rustls_step_next: "rustls_step tls pt i conn = (Ret (Inr (Next j)), conn') \<Longrightarrow> i < length pt \<Longrightarrow> i < j"
  using rustls_step_tries [of i pt tls conn] by (simp add: advances_def)

section \<open>The scanners\<close>

text \<open>The loop inside \<open>drive_handshake_initial_inner\<close>.\<close>

function initial_scan :: "bytes \<Rightarrow> nat \<Rightarrow> (string + ConnectionClose option) outcome" where
  "initial_scan plaintext i =
     (if i < length plaintext then
        (case initial_step plaintext i of
           Ret (Inr (Next j)) \<Rightarrow> initial_scan plaintext j
         | Ret (Inr (Close cc)) \<Rightarrow> Ret (Inr (Some cc))
         | Ret (Inr Stop) \<Rightarrow> Ret (Inr None)
         | Ret (Inl e) \<Rightarrow> Ret (Inl e)
         | Panic \<Rightarrow> Panic | Undef \<Rightarrow> Undef)
      else Ret (Inr None))"
  by pat_completeness auto
termination
  by (relation "measure (\<lambda>(pt, i). length pt - i)") (auto dest: initial_step_next)

function cc_scan :: "bytes \<Rightarrow> nat \<Rightarrow> (string + ConnectionClose option) outcome" where
  "cc_scan plaintext i =
     (if i < length plaintext then
        (case cc_step plaintext i of
           Ret (Inr (Next j)) \<Rightarrow> cc_scan plaintext j
         | Ret (Inr (Close cc)) \<Rightarrow> Ret (Inr (Some cc))
         | Ret (Inr Stop) \<Rightarrow> Ret (Inr None)
         | Ret (Inl e) \<Rightarrow> Ret (Inl e)
         | Panic \<Rightarrow> Panic | Undef \<Rightarrow> Undef)
      else Ret (Inr None))"
  by pat_completeness auto
termination
  by (relation "measure (\<lambda>(pt, i). length pt - i)") (auto dest: cc_step_next)

definition scan_initial_plaintext_for_cc :: "bytes \<Rightarrow> (string + ConnectionClose option) outcome" where
  "scan_initial_plaintext_for_cc plaintext = cc_scan plaintext 0"

record PlaintextScan =
  scan_cc :: "ConnectionClose option"

function rustls_scan ::
  "('c, 'sec) tls_client \<Rightarrow> bytes \<Rightarrow> nat \<Rightarrow> 'c \<Rightarrow> (string + ConnectionClose option) outcome \<times> 'c" where
  "rustls_scan tls plaintext i conn =
     (if i < length plaintext then
        (case rustls_step tls plaintext i conn of
           (Ret (Inr (Next j)), conn) \<Rightarrow> rustls_scan tls plaintext j conn
         | (Ret (Inr (Close cc)), conn) \<Rightarrow> (Ret (Inr (Some cc)), conn)
         | (Ret (Inr Stop), conn) \<Rightarrow> (Ret (Inr None), conn)
         | (Ret (Inl e), conn) \<Rightarrow> (Ret (Inl e), conn)
         | (Panic, conn) \<Rightarrow> (Panic, conn) | (Undef, conn) \<Rightarrow> (Undef, conn))
      else (Ret (Inr None), conn))"
  by pat_completeness auto
termination
  by (relation "measure (\<lambda>(tls, pt, i, conn). length pt - i)") (auto dest: rustls_step_next [OF sym])

definition scan_plaintext_into_rustls ::
  "('c, 'sec) tls_client \<Rightarrow> bytes \<Rightarrow> 'c \<Rightarrow> (string + PlaintextScan) outcome \<times> 'c" where
  "scan_plaintext_into_rustls tls plaintext conn =
     (case rustls_scan tls plaintext 0 conn of
        (r, conn) \<Rightarrow> (try_bind r (\<lambda>cc. Ret (Inr \<lparr>scan_cc = cc\<rparr>)), conn))"

declare initial_scan.simps [simp del] cc_scan.simps [simp del] rustls_scan.simps [simp del]

section \<open>The contract of a scanner\<close>

text \<open>A frame the step skips wherever it stands, from one state to another.\<close>

definition skips :: "(bytes \<Rightarrow> nat \<Rightarrow> 's \<Rightarrow> (string + scan_step) outcome \<times> 's) \<Rightarrow> bytes \<Rightarrow> 's \<Rightarrow> 's \<Rightarrow> bool" where
  "skips step f s s' \<longleftrightarrow> f \<noteq> [] \<and>
     (\<forall>pre post. step (pre @ f @ post) (length pre) s = (Ret (Inr (Next (length pre + length f))), s'))"

fun skips_all ::
  "(bytes \<Rightarrow> nat \<Rightarrow> 's \<Rightarrow> (string + scan_step) outcome \<times> 's) \<Rightarrow> bytes list \<Rightarrow> 's \<Rightarrow> 's \<Rightarrow> bool" where
  "skips_all step [] s s' \<longleftrightarrow> s = s'"
| "skips_all step (f # fs) s s' \<longleftrightarrow> (\<exists>t. skips step f s t \<and> skips_all step fs t s')"

locale frame_walk =
  fixes step :: "bytes \<Rightarrow> nat \<Rightarrow> 's \<Rightarrow> (string + scan_step) outcome \<times> 's"
    and scan :: "bytes \<Rightarrow> nat \<Rightarrow> 's \<Rightarrow> (string + ConnectionClose option) outcome \<times> 's"
  assumes step_tries: "i < length pt \<Longrightarrow> tries (fst (step pt i s)) (advances pt i)"
    and scan_step: "i < length pt \<Longrightarrow> scan pt i s =
      (case step pt i s of
         (Ret (Inr (Next j)), s) \<Rightarrow> scan pt j s
       | (Ret (Inr (Close cc)), s) \<Rightarrow> (Ret (Inr (Some cc)), s)
       | (Ret (Inr Stop), s) \<Rightarrow> (Ret (Inr None), s)
       | (Ret (Inl e), s) \<Rightarrow> (Ret (Inl e), s)
       | (Panic, s) \<Rightarrow> (Panic, s) | (Undef, s) \<Rightarrow> (Undef, s))"
    and scan_end: "length pt \<le> i \<Longrightarrow> scan pt i s = (Ret (Inr None), s)"
begin

lemma scan_returns: "returns (fst (scan pt i s))"
proof (induction "length pt - i" arbitrary: i s rule: less_induct)
  case less
  show ?case
  proof (cases "i < length pt")
    case True
    have IH: "returns (fst (scan pt j t))" if "i < j" for j t
      using less.hyps [of j t] that True by (cases "j < length pt") (auto simp: scan_end)
    from step_tries [OF True, of s] show ?thesis
      by (auto simp: scan_step [OF True] advances_def IH split: prod.split outcome.split sum.split scan_step.split)
  qed (simp add: scan_end)
qed

lemma scan_skips:
  "skips_all step fs s s' \<Longrightarrow>
   scan (pre @ concat fs @ post) (length pre) s = scan (pre @ concat fs @ post) (length (pre @ concat fs)) s'"
proof (induction fs arbitrary: pre s)
  case (Cons f fs)
  then obtain t where t: "skips step f s t" "skips_all step fs t s'" by auto
  have l: "length pre < length (pre @ f @ concat fs @ post)"
    using t(1) by (simp add: skips_def)
  have "scan (pre @ f @ concat fs @ post) (length pre) s = scan (pre @ f @ concat fs @ post) (length pre + length f) t"
    using t(1) by (subst scan_step [OF l]) (simp add: skips_def)
  with Cons.IH [OF t(2), of "pre @ f"] show ?case by simp
qed simp

lemma scan_finds:
  assumes "skips_all step fs s s'" "c \<noteq> []"
    and "\<And>pre. step (pre @ c) (length pre) s' = (Ret (Inr (Close cc)), s')"
  shows "scan (concat fs @ c) 0 s = (Ret (Inr (Some cc)), s')"
proof -
  have "length (concat fs) < length (concat fs @ c)" using assms(2) by simp
  then show ?thesis
    using scan_skips [OF assms(1), of "[]" c] assms(3) [of "concat fs"] by (simp add: scan_step)
qed

lemma scan_through: "skips_all step fs s s' \<Longrightarrow> scan (concat fs) 0 s = (Ret (Inr None), s')"
  using scan_skips [of fs s s' "[]" "[]"] by (simp add: scan_end)

end

interpretation ini: frame_walk "\<lambda>pt i u. (initial_step pt i, u)" "\<lambda>pt i (u :: unit). (initial_scan pt i, u)"
  by unfold_locales (auto simp: initial_step_tries initial_scan.simps split: outcome.split sum.split scan_step.split)

interpretation cs: frame_walk "\<lambda>pt i u. (cc_step pt i, u)" "\<lambda>pt i (u :: unit). (cc_scan pt i, u)"
  by unfold_locales (auto simp: cc_step_tries cc_scan.simps split: outcome.split sum.split scan_step.split)

interpretation rs: frame_walk "rustls_step tls" "rustls_scan tls"
  by unfold_locales (simp_all add: rustls_step_tries rustls_scan.simps)

section \<open>Frames on the wire\<close>

text \<open>The frames a scanner may meet before a CONNECTION_CLOSE, and their encoding (RFC 9000).\<close>

datatype frame = Padding | Ping
  | Ack u64 u64 u64 "(u64 \<times> u64) list" "(u64 \<times> u64 \<times> u64) option"
  | Crypto u64 bytes
  | New_connection_id u64 u64 bytes bytes
  | Handshake_done

definition range_bytes :: "(u64 \<times> u64) list \<Rightarrow> bytes" where
  "range_bytes rs = concat (map (\<lambda>(gap, n). varint gap @ varint n) rs)"

fun frame_bytes :: "frame \<Rightarrow> bytes" where
  "frame_bytes Padding = [0x00]"
| "frame_bytes Ping = [0x01]"
| "frame_bytes (Ack largest delay first rs ecn) =
     (if ecn = None then 0x02 else 0x03) # varint largest @ varint delay @ varint (word_of_nat (length rs)) @ varint first
     @ range_bytes rs
     @ (case ecn of None \<Rightarrow> [] | Some (ect0, ect1, ce) \<Rightarrow> varint ect0 @ varint ect1 @ varint ce)"
| "frame_bytes (Crypto off d) = crypto_frame off d"
| "frame_bytes (New_connection_id seq prior cid tok) =
     0x18 # varint seq @ varint prior @ [word_of_nat (length cid)] @ cid @ tok"
| "frame_bytes Handshake_done = [0x1e]"

definition vok :: "u64 \<Rightarrow> bool" where
  "vok v \<longleftrightarrow> unat v < 2 ^ 62"

fun frame_ok :: "frame \<Rightarrow> bool" where
  "frame_ok Padding = True"
| "frame_ok Ping = True"
| "frame_ok (Ack largest delay first rs ecn) \<longleftrightarrow>
     vok largest \<and> vok delay \<and> vok first \<and> length rs < 2 ^ 62 \<and> list_all (\<lambda>(gap, n). vok gap \<and> vok n) rs
   \<and> (case ecn of None \<Rightarrow> True | Some (ect0, ect1, ce) \<Rightarrow> vok ect0 \<and> vok ect1 \<and> vok ce)"
| "frame_ok (Crypto off d) \<longleftrightarrow> vok off \<and> length d < 2 ^ 62"
| "frame_ok (New_connection_id seq prior cid tok) \<longleftrightarrow> vok seq \<and> vok prior \<and> length cid < 256 \<and> length tok = 16"
| "frame_ok Handshake_done = True"

text \<open>Reading a varint known to be there.\<close>

lemma read_bind:
  assumes "drop p pt = varint v @ r" "vok v" "p \<le> length pt"
    and "drop (p + length (varint v)) pt = r \<Longrightarrow> p + length (varint v) \<le> length pt \<Longrightarrow> f (v, p + length (varint v)) = y"
  shows "try_bind (read_varint msg pt p) f = y"
proof -
  have "length (drop p pt) = length (varint v) + length r" by (simp add: assms(1))
  then have l: "p + length (varint v) \<le> length pt" using assms(3) by simp
  have "drop (p + length (varint v)) pt = drop (length (varint v)) (drop p pt)" by (simp add: add.commute)
  then have "drop (p + length (varint v)) pt = r" by (simp add: assms(1))
  with assms l vi.dec_enc [of v r] show ?thesis
    by (simp add: try_bind_def read_varint_def vok_def)
qed

lemma vok_length [simp]: "length xs < 2 ^ 62 \<Longrightarrow> vok (word_of_nat (length xs)) \<and> unat (word_of_nat (length xs) :: u64) = length xs"
  by (simp add: vok_def unat_of_nat)

lemma ack_ranges_skip:
  "drop p pt = range_bytes rs @ r \<Longrightarrow> p \<le> length pt \<Longrightarrow> list_all (\<lambda>(gap, n). vok gap \<and> vok n) rs \<Longrightarrow>
   ack_ranges (length rs) pt p = Ret (Inr (p + length (range_bytes rs)))"
proof (induction rs arbitrary: p)
  case (Cons x rs)
  obtain g n where x: "x = (g, n)" by (cases x)
  have d: "drop p pt = varint g @ varint n @ range_bytes rs @ r" "vok g" "vok n" "list_all (\<lambda>(gap, n). vok gap \<and> vok n) rs"
    using Cons.prems by (simp_all add: x range_bytes_def)
  have "try_bind (read_varint ''ACK: gap varint truncated'' pt p) (\<lambda>(_, p).
     try_bind (read_varint ''ACK: range_len varint truncated'' pt p) (\<lambda>(_, p).
     ack_ranges (length rs) pt p)) = Ret (Inr (p + length (range_bytes (x # rs))))"
    by (insert d Cons.prems(2), (rule read_bind, assumption, assumption, assumption, simp only: prod.case)+, simp add: Cons.IH x range_bytes_def)
  then show ?case by simp
qed (simp add: range_bytes_def)

lemma ecn_counts_skip:
  assumes "drop p pt = varint a @ varint b @ varint c @ r" "p \<le> length pt" "vok a" "vok b" "vok c"
  shows "ecn_counts 3 pt p = Ret (Inr (p + length (varint a @ varint b @ varint c)))"
  by (insert assms, unfold numeral_3_eq_3 ecn_counts.simps,
      (rule read_bind, assumption, assumption, assumption, simp only: prod.case)+, simp)

lemma try_bind_simps [simp]:
  "try_bind (Ret (Inr x)) f = f x" "try_bind (Ret (Inl e)) f = Ret (Inl e)"
  by (simp_all add: try_bind_def)

lemma drop_Suc_Cons: "drop i pt = b # r \<Longrightarrow> drop (i + 1) pt = r \<and> i + 1 \<le> length pt"
  by (metis Suc_eq_plus1 Suc_leI drop_Suc drop_eq_Nil linorder_not_less list.sel(3) list.simps(3) tl_drop)

lemma walk_ack_skip:
  assumes "drop i pt = frame_bytes (Ack l d f rs ecn) @ r" "frame_ok (Ack l d f rs ecn)"
  shows "walk_ack (ecn \<noteq> None) pt i = Ret (Inr (i + length (frame_bytes (Ack l d f rs ecn))))"
proof -
  let ?e = "case ecn of None \<Rightarrow> [] | Some (x, y, z) \<Rightarrow> varint x @ varint y @ varint z"
  have d: "drop (i + 1) pt = varint l @ varint d @ varint (word_of_nat (length rs)) @ varint f @ range_bytes rs @ ?e @ r"
    "i + 1 \<le> length pt"
    using drop_Suc_Cons [of i pt] assms(1) by simp_all
  have v: "vok l" "vok d" "vok f" "vok (word_of_nat (length rs))" "unat (word_of_nat (length rs) :: u64) = length rs"
    and rs: "list_all (\<lambda>(gap, n). vok gap \<and> vok n) rs"
    using assms(2) by simp_all
  have tail: "try_bind (ack_ranges (length rs) pt p) (\<lambda>p. if ecn \<noteq> None then ecn_counts 3 pt p else Ret (Inr p)) =
      Ret (Inr (p + length (range_bytes rs) + length ?e))"
    if "drop p pt = range_bytes rs @ ?e @ r" "p \<le> length pt" for p
  proof -
    have "drop (p + length (range_bytes rs)) pt = drop (length (range_bytes rs)) (drop p pt)"
      by (simp add: add.commute)
    then have "drop (p + length (range_bytes rs)) pt = ?e @ r" by (simp add: that(1))
    moreover have "length (drop p pt) = length (range_bytes rs) + length (?e @ r)"
      by (simp only: that(1) length_append)
    then have "p + length (range_bytes rs) \<le> length pt" using that(2) by simp
    ultimately show ?thesis
      using ack_ranges_skip [OF that rs] ecn_counts_skip assms(2)
      by (cases ecn) auto
  qed
  show ?thesis
    unfolding walk_ack_def Let_def
    by (insert d v, (rule read_bind, assumption, assumption, assumption, simp only: prod.case v(5))+,
        rule trans [OF tail], assumption, assumption) (simp (no_asm) add: algebra_simps)
qed

lemma walk_crypto_skip:
  assumes "drop i pt = crypto_frame off d @ r" "vok off" "length d < 2 ^ 62" and "j = i + length (crypto_frame off d)"
  shows "walk_crypto pt i = Ret (Inr (j - length d, j))" "slice_range (j - length d) j pt = Ret d"
proof -
  have e: "drop (i + 1) pt = varint off @ varint (word_of_nat (length d)) @ d @ r" "i + 1 \<le> length pt"
    using drop_Suc_Cons [of i pt] assms(1) by (simp_all add: crypto_frame_def)
  have v: "vok (word_of_nat (length d))" "unat (word_of_nat (length d) :: u64) = length d"
    using assms(3) by simp_all
  have j: "j - length d = i + 1 + length (varint off) + length (varint (word_of_nat (length d)))"
    "j = j - length d + length d"
    by (simp_all add: assms(4) crypto_frame_def)
  have "length (drop i pt) = length (crypto_frame off d @ r)" using assms(1) by simp
  then have l: "j \<le> length pt" using e(2) by (simp add: assms(4) crypto_frame_def)
  have "drop (j - length d) pt = drop (j - length d - i) (drop i pt)"
    using j(1) by (simp add: ac_simps)
  also have "\<dots> = d @ r"
    by (simp only: assms(1) j(1)) (simp add: crypto_frame_def)
  finally show "slice_range (j - length d) j pt = Ret d"
    using l j(2) by (simp add: slice_range_def)
  show "walk_crypto pt i = Ret (Inr (j - length d, j))"
    unfolding walk_crypto_def Let_def
    by (insert e v assms(2), (rule read_bind, assumption, assumption, assumption, simp only: prod.case)+)
      (use l j in \<open>simp add: not_less\<close>)
qed

lemma walk_ncid_skip:
  assumes "drop i pt = frame_bytes (New_connection_id seq prior cid tok) @ r" "frame_ok (New_connection_id seq prior cid tok)"
  shows "walk_ncid pt i = Ret (Inr (i + length (frame_bytes (New_connection_id seq prior cid tok))))"
proof -
  have e: "drop (i + 1) pt = varint seq @ varint prior @ word_of_nat (length cid) # cid @ tok @ r" "i + 1 \<le> length pt"
    using drop_Suc_Cons [of i pt] assms(1) by simp_all
  have v: "vok seq" "vok prior" "unat (word_of_nat (length cid) :: byte) = length cid" "length tok = 16"
    using assms(2) by (simp_all add: unat_byte_of_nat)
  have tail: "(case get pt p of None \<Rightarrow> Ret (Inl ''NCID: cid len byte missing'')
      | Some cid_len \<Rightarrow> if length pt < p + 1 + unat cid_len + 16 then Ret (Inl ''NCID: cid+token tail truncated'')
          else Ret (Inr (p + 1 + unat cid_len + 16))) = Ret (Inr (p + 1 + length cid + 16))"
    if "drop p pt = word_of_nat (length cid) # cid @ tok @ r" "p \<le> length pt" for p
  proof -
    have "length (drop p pt) = 1 + length cid + 16 + length r" using that(1) v(4) by simp
    then have l: "p < length pt" "p + 1 + length cid + 16 \<le> length pt" using that(2) by simp_all
    then have "pt ! p = word_of_nat (length cid)"
      using that(1) by (metis hd_drop_conv_nth list.sel(1))
    with l v(3) show ?thesis by (simp add: get_def)
  qed
  show ?thesis
    unfolding walk_ncid_def Let_def
    by (insert e v(1,2), (rule read_bind, assumption, assumption, assumption, simp only: prod.case)+,
        rule trans [OF tail], assumption, assumption) (simp (no_asm) add: v(4))
qed

section \<open>Frames are skipped\<close>

text \<open>The CRYPTO payloads of a packet, and \<open>read_hs\<close> on each of them in order.\<close>

definition crypto_data :: "frame list \<Rightarrow> bytes list" where
  "crypto_data fs = concat (map (\<lambda>f. case f of Crypto _ d \<Rightarrow> [d] | _ \<Rightarrow> []) fs)"

fun feed_all :: "('c, 'sec) tls_client \<Rightarrow> bytes list \<Rightarrow> 'c \<Rightarrow> 'c option" where
  "feed_all tls [] conn = Some conn"
| "feed_all tls (d # ds) conn =
     (case tc_read_hs tls d conn of (None, conn) \<Rightarrow> feed_all tls ds conn | (Some _, _) \<Rightarrow> None)"

lemma frame_bytes_nonempty [simp]: "frame_bytes f \<noteq> []"
  by (cases f) (simp_all add: crypto_frame_def)

lemma first_at [simp]: "f \<noteq> [] \<Longrightarrow> (pre @ f @ post) ! length pre = hd f"
  by (simp add: nth_append hd_conv_nth)

lemma ret_step_simps [simp]:
  "ret_step g (Ret (Inr x)) = Ret (Inr (g x))" "ret_step g (Ret (Inl e)) = Ret (Inl e)"
  by (simp_all add: ret_step_def)

lemma walk_ack_at:
  "frame_ok (Ack l d f rs ecn) \<Longrightarrow>
   walk_ack (ecn \<noteq> None) (pre @ frame_bytes (Ack l d f rs ecn) @ post) (length pre) =
   Ret (Inr (length pre + length (frame_bytes (Ack l d f rs ecn))))"
  by (rule walk_ack_skip) simp_all

lemma walk_ncid_at:
  "frame_ok (New_connection_id seq prior cid tok) \<Longrightarrow>
   walk_ncid (pre @ frame_bytes (New_connection_id seq prior cid tok) @ post) (length pre) =
   Ret (Inr (length pre + length (frame_bytes (New_connection_id seq prior cid tok))))"
  by (rule walk_ncid_skip) simp_all

lemma feed_crypto_at:
  assumes "frame_ok (Crypto off d)" "tc_read_hs tls d conn = (None, conn')"
  shows "feed_crypto tls (pre @ crypto_frame off d @ post) (length pre) conn =
    (Ret (Inr (Next (length pre + length (crypto_frame off d)))), conn')"
  using walk_crypto_skip [of "length pre" "pre @ crypto_frame off d @ post" off d post] assms
  by (simp add: feed_crypto_def)

lemma hd_frame:
  "hd (frame_bytes (Ack l d f rs ecn)) = (if ecn = None then 0x02 else 0x03)"
  "hd (crypto_frame off d') = 0x06" "crypto_frame off d' \<noteq> []"
  "hd (frame_bytes (New_connection_id seq prior cid tok)) = 0x18"
  by (simp_all add: crypto_frame_def)

lemma rustls_step_ack:
  "frame_ok (Ack l d f rs ecn) \<Longrightarrow> skips (rustls_step tls) (frame_bytes (Ack l d f rs ecn)) conn conn"
  using walk_ack_at [of l d f rs ecn]
  by (simp add: skips_def rustls_step_def Let_def hd_frame del: frame_bytes.simps frame_ok.simps) auto

lemma rustls_step_ncid:
  "frame_ok (New_connection_id seq prior cid tok) \<Longrightarrow>
   skips (rustls_step tls) (frame_bytes (New_connection_id seq prior cid tok)) conn conn"
  using walk_ncid_at [of seq prior cid tok]
  by (simp add: skips_def rustls_step_def Let_def hd_frame del: frame_bytes.simps frame_ok.simps)

lemma rustls_step_crypto:
  "frame_ok (Crypto off d) \<Longrightarrow> tc_read_hs tls d conn = (None, conn') \<Longrightarrow>
   skips (rustls_step tls) (crypto_frame off d) conn conn'"
  by (simp add: skips_def rustls_step_def Let_def hd_frame feed_crypto_at)

lemma rustls_step_bytes:
  "skips (rustls_step tls) [0x00] conn conn" "skips (rustls_step tls) [0x01] conn conn"
  "skips (rustls_step tls) [0x1e] conn conn"
  by (simp_all add: skips_def rustls_step_def Let_def)

definition is_crypto :: "frame \<Rightarrow> bool" where
  "is_crypto f = (case f of Crypto _ _ \<Rightarrow> True | _ \<Rightarrow> False)"

lemma crypto_data_simps [simp]:
  "crypto_data [] = []" "crypto_data (Crypto off d # fs) = d # crypto_data fs"
  "\<not> is_crypto f \<Longrightarrow> crypto_data (f # fs) = crypto_data fs"
  by (auto simp: crypto_data_def is_crypto_def split: frame.splits)

lemma rustls_step_plain:
  "frame_ok f \<Longrightarrow> \<not> is_crypto f \<Longrightarrow> skips (rustls_step tls) (frame_bytes f) conn conn"
  using rustls_step_bytes [of tls conn]
  by (cases f) (simp_all add: is_crypto_def rustls_step_ack rustls_step_ncid del: frame_bytes.simps(3,5) frame_ok.simps)

lemma rustls_skips_all:
  "list_all frame_ok fs \<Longrightarrow> feed_all tls (crypto_data fs) conn = Some conn' \<Longrightarrow>
   skips_all (rustls_step tls) (map frame_bytes fs) conn conn'"
proof (induction fs arbitrary: conn)
  case (Cons f fs)
  show ?case
  proof (cases "is_crypto f")
    case True
    then obtain off d where f: "f = Crypto off d" by (auto simp: is_crypto_def split: frame.splits)
    with Cons.prems obtain c where "tc_read_hs tls d conn = (None, c)" "feed_all tls (crypto_data fs) c = Some conn'"
      by (auto split: prod.splits option.splits)
    then show ?thesis
      using Cons.IH [of c] Cons.prems(1) rustls_step_crypto [of off d tls conn c] f by auto
  next
    case False
    then have "skips (rustls_step tls) (frame_bytes f) conn conn"
      using Cons.prems(1) by (intro rustls_step_plain) simp_all
    then show ?thesis
      using Cons.IH [of conn] Cons.prems False by auto
  qed
qed simp

text \<open>The frames the Initial scanner of the raw ClientHello driver knows.\<close>

definition in_initial :: "frame \<Rightarrow> bool" where
  "in_initial f = (case f of New_connection_id _ _ _ _ \<Rightarrow> False | Handshake_done \<Rightarrow> False | _ \<Rightarrow> True)"

lemma cc_step_frame:
  "frame_ok f \<Longrightarrow> in_initial f \<Longrightarrow> skips (\<lambda>pt i u. (cc_step pt i, u)) (frame_bytes f) u u"
proof (cases f)
  case (Ack l d g rs ecn)
  then show "frame_ok f \<Longrightarrow> ?thesis"
    using walk_ack_at [of l d g rs ecn]
    by (simp add: skips_def cc_step_def Let_def hd_frame del: frame_bytes.simps frame_ok.simps) auto
next
  case (Crypto off d)
  then show "frame_ok f \<Longrightarrow> ?thesis"
    using walk_crypto_skip(1) [of "length pre" "pre @ crypto_frame off d @ post" off d post for pre post]
    by (simp add: skips_def cc_step_def Let_def hd_frame)
qed (simp_all add: skips_def cc_step_def Let_def in_initial_def)

lemma cc_skips_all:
  "list_all frame_ok fs \<Longrightarrow> list_all in_initial fs \<Longrightarrow>
   skips_all (\<lambda>pt i u. (cc_step pt i, u)) (map frame_bytes fs) u u"
  by (induction fs) (auto intro: cc_step_frame)

lemma close_at:
  assumes "parse_connection_close c = Ret (Some cc)"
  shows "c \<noteq> []" "hd c = 0x1c \<or> hd c = 0x1d" "walk_close (pre @ c) (length pre) = Ret (Inr cc)"
proof -
  show "walk_close (pre @ c) (length pre) = Ret (Inr cc)"
    using assms by (simp add: walk_close_def)
  show c: "c \<noteq> []" using assms by (auto simp: parse_connection_close_def get_def)
  show "hd c = 0x1c \<or> hd c = 0x1d"
  proof (rule ccontr)
    assume "\<not> ?thesis"
    with c have "parse_connection_close c = Ret None"
      by (simp add: parse_connection_close_def get_def hd_conv_nth)
    with assms show False by simp
  qed
qed

lemma close_steps:
  assumes "parse_connection_close c = Ret (Some cc)"
  shows "initial_step (pre @ c) (length pre) = Ret (Inr (Close cc))"
    and "cc_step (pre @ c) (length pre) = Ret (Inr (Close cc))"
    and "rustls_step tls (pre @ c) (length pre) conn = (Ret (Inr (Close cc)), conn)"
proof -
  have "(pre @ c) ! length pre = hd c" using first_at [of c pre "[]"] close_at(1) [OF assms] by simp
  with close_at(2,3) [OF assms] show "initial_step (pre @ c) (length pre) = Ret (Inr (Close cc))"
    "cc_step (pre @ c) (length pre) = Ret (Inr (Close cc))"
    "rustls_step tls (pre @ c) (length pre) conn = (Ret (Inr (Close cc)), conn)"
    by (auto simp: initial_step_def cc_step_def rustls_step_def)
qed

lemma cc_scan_finds:
  assumes "list_all frame_ok fs" "list_all in_initial fs" "parse_connection_close c = Ret (Some cc)"
  shows "scan_initial_plaintext_for_cc (concat (map frame_bytes fs) @ c) = Ret (Inr (Some cc))"
  using cs.scan_finds [OF cc_skips_all [OF assms(1,2), of "()"] close_at(1) [OF assms(3)], of cc]
  by (simp add: close_steps(2) [OF assms(3)] scan_initial_plaintext_for_cc_def)

section \<open>Properties\<close>

text \<open>
  C34. The three frame scanners return on every decrypted payload, whatever the server put in it:
  no slice is out of bounds, every loop ends, and a truncated frame is an error value.
\<close>

theorem scanners_return:
  shows "(\<exists>r. initial_scan plaintext 0 = Ret r)
    \<and> (\<exists>r. scan_initial_plaintext_for_cc plaintext = Ret r)
    \<and> (\<exists>r conn'. scan_plaintext_into_rustls tls plaintext conn = (Ret r, conn'))"
proof (intro conjI)
  show "\<exists>r. initial_scan plaintext 0 = Ret r" using ini.scan_returns [of plaintext 0 "()"] by (simp add: returns_iff)
  show "\<exists>r. scan_initial_plaintext_for_cc plaintext = Ret r"
    using cs.scan_returns [of plaintext 0 "()"] by (simp add: scan_initial_plaintext_for_cc_def returns_iff)
  obtain r conn' where "rustls_scan tls plaintext 0 conn = (Ret r, conn')"
    using rs.scan_returns [of tls plaintext 0 conn] by (cases "rustls_scan tls plaintext 0 conn") (auto simp: returns_iff)
  then show "\<exists>r conn'. scan_plaintext_into_rustls tls plaintext conn = (Ret r, conn')"
    by (cases r) (simp_all add: scan_plaintext_into_rustls_def)
qed

text \<open>
  C35. What the scanners do on well-formed frames: the payload of every CRYPTO frame goes to
  \<open>read_hs\<close>, in order and nothing else, and a CONNECTION_CLOSE behind any such frames is the one
  reported; the scanner that only looks for a CONNECTION_CLOSE finds it too.
\<close>

theorem scan_feeds_and_finds:
  assumes "list_all frame_ok fs" "feed_all tls (crypto_data fs) conn = Some conn'"
    and "parse_connection_close c = Ret (Some cc)"
  shows "scan_plaintext_into_rustls tls (concat (map frame_bytes fs)) conn = (Ret (Inr \<lparr>scan_cc = None\<rparr>), conn')
    \<and> scan_plaintext_into_rustls tls (concat (map frame_bytes fs) @ c) conn = (Ret (Inr \<lparr>scan_cc = Some cc\<rparr>), conn')
    \<and> (list_all in_initial fs \<longrightarrow>
        scan_initial_plaintext_for_cc (concat (map frame_bytes fs) @ c) = Ret (Inr (Some cc)))"
proof (intro conjI impI)
  note sk = rustls_skips_all [OF assms(1,2)] and ne = close_at(1) [OF assms(3)]
  show "scan_plaintext_into_rustls tls (concat (map frame_bytes fs)) conn = (Ret (Inr \<lparr>scan_cc = None\<rparr>), conn')"
    using rs.scan_through [OF sk] by (simp add: scan_plaintext_into_rustls_def)
  show "scan_plaintext_into_rustls tls (concat (map frame_bytes fs) @ c) conn = (Ret (Inr \<lparr>scan_cc = Some cc\<rparr>), conn')"
    using rs.scan_finds [OF sk ne close_steps(3) [OF assms(3)]] by (simp add: scan_plaintext_into_rustls_def)
  assume "list_all in_initial fs"
  then show "scan_initial_plaintext_for_cc (concat (map frame_bytes fs) @ c) = Ret (Inr (Some cc))"
    by (rule cc_scan_finds [OF assms(1) _ assms(3)])
qed

text \<open>A client that records the chunks it is given.\<close>

definition recording_client :: "(bytes list, unit) tls_client" where
  "recording_client = \<lparr>tc_read_hs = (\<lambda>d seen. (None, seen @ [d])), tc_write_hs = (\<lambda>seen. (([], None), seen)),
     tc_is_handshaking = (\<lambda>_. True)\<rparr>"

theorem scan_feeds_and_finds_witness:
  "scan_plaintext_into_rustls recording_client
     (concat (map frame_bytes [Ack 5 0 0 [(1, 2)] None, Crypto 0 [1, 2], Padding, Crypto 2 [3], Handshake_done])
      @ 0x1c # varint 0x150 @ varint 6 @ varint (word_of_nat (length [0x61 :: byte])) @ [0x61] @ []) [] =
   (Ret (Inr \<lparr>scan_cc = Some \<lparr>cc_error_code = 0x150, cc_frame_type = 0x1c, cc_reason = string_of_bytes [0x61]\<rparr>\<rparr>), [[1, 2], [3]])"
proof -
  have p: "parse_connection_close (0x1c # varint 0x150 @ varint 6 @ varint (word_of_nat (length [0x61 :: byte])) @ [0x61] @ []) =
      Ret (Some \<lparr>cc_error_code = 0x150, cc_frame_type = 0x1c, cc_reason = string_of_bytes [0x61]\<rparr>)"
    by code_simp
  have ok: "list_all frame_ok [Ack 5 0 0 [(1, 2)] None, Crypto 0 [1, 2], Padding, Crypto 2 [3], Handshake_done]"
    by (simp add: vok_def)
  have fd: "feed_all recording_client (crypto_data [Ack 5 0 0 [(1, 2)] None, Crypto 0 [1, 2], Padding, Crypto 2 [3], Handshake_done]) [] =
      Some [[1, 2], [3]]"
    by (simp add: recording_client_def is_crypto_def)
  show ?thesis
    by (rule scan_feeds_and_finds [OF ok fd p, THEN conjunct2, THEN conjunct1])
qed

end
