(* ===== verification/Client_Hello.thy ===== *)
theory Client_Hello
  imports Quic_Protocol Wire_Codec
begin

text \<open>
  The hand-assembled TLS 1.3 ClientHello without \<open>quic_transport_parameters\<close>
  (\<open>conformance/tls-conformance/src/raw_client_hello.rs\<close>), with a reference reading of
  ClientHello messages (RFC 8446) to check it against. Every \<open>as u16\<close> and \<open>as u8\<close> keeps the
  low bits; the random bytes \<open>thread_rng\<close> produces are an argument.
\<close>

section \<open>Serialisation\<close>

definition SERVER_NAME :: u16 where "SERVER_NAME = 0x0000"

definition SUPPORTED_GROUPS :: u16 where "SUPPORTED_GROUPS = 0x000a"

definition APPLICATION_LAYER_PROTO_NEG :: u16 where "APPLICATION_LAYER_PROTO_NEG = 0x0010"

definition SIGNATURE_ALGORITHMS :: u16 where "SIGNATURE_ALGORITHMS = 0x000d"

definition SUPPORTED_VERSIONS :: u16 where "SUPPORTED_VERSIONS = 0x002b"

definition KEY_SHARE :: u16 where "KEY_SHARE = 0x0033"

definition QUIC_TRANSPORT_PARAMETERS :: u16 where "QUIC_TRANSPORT_PARAMETERS = 0x0039"

record ClientHelloOmittingQuicTp =
  ch_server_name :: string
  ch_alpn :: bytes

definition ClientHello_default :: ClientHelloOmittingQuicTp where
  "ClientHello_default = \<lparr>ch_server_name = ''localhost'', ch_alpn = ascii ''h3''\<rparr>"

definition put_u16 :: "bytes \<Rightarrow> u16 \<Rightarrow> bytes" where
  "put_u16 out v = out @ to_be_bytes v"

definition put_u24 :: "bytes \<Rightarrow> u32 \<Rightarrow> bytes outcome" where
  "put_u24 out v =
     (if v < push_bit 24 1 then
        Ret (out @ [ucast (drop_bit 16 v AND 0xff), ucast (drop_bit 8 v AND 0xff), ucast (v AND 0xff)])
      else Panic)"

definition push_extension :: "bytes \<Rightarrow> u16 \<Rightarrow> bytes \<Rightarrow> bytes" where
  "push_extension out ext_type body = put_u16 (put_u16 out ext_type) (word_of_nat (length body)) @ body"

definition build_sni_body :: "string \<Rightarrow> bytes" where
  "build_sni_body server_name =
     (let name = ascii server_name;
          entry_len = 1 + 2 + length name;
          body = put_u16 [] (word_of_nat entry_len);
          body = body @ [0x00];
          body = put_u16 body (word_of_nat (length name)) in
      body @ name)"

definition build_alpn_body :: "bytes \<Rightarrow> bytes" where
  "build_alpn_body alpn =
     (let entry_len = 1 + length alpn;
          body = put_u16 [] (word_of_nat entry_len);
          body = body @ [word_of_nat (length alpn)] in
      body @ alpn)"

definition build_supported_versions_body :: bytes where
  "build_supported_versions_body = put_u16 [2] 0x0304"

definition build_supported_groups_body :: bytes where
  "build_supported_groups_body = put_u16 (put_u16 [] 2) 0x001d"

definition build_signature_algorithms_body :: bytes where
  "build_signature_algorithms_body =
     (let schemes = [0x0403, 0x0804, 0x0805, 0x0806, 0x0401];
          bytes_len = length schemes * 2 in
      foldl put_u16 (put_u16 [] (word_of_nat bytes_len)) schemes)"

definition build_key_share_body :: bytes where
  "build_key_share_body =
     (let key_exchange = replicate 32 0;
          entry_len = 2 + 2 + length key_exchange;
          body = put_u16 [] (word_of_nat entry_len);
          body = put_u16 body 0x001d;
          body = put_u16 body (word_of_nat (length key_exchange)) in
      body @ key_exchange)"

definition build :: "bytes \<Rightarrow> ClientHelloOmittingQuicTp \<Rightarrow> (string + bytes) outcome" where
  "build random self =
     (if ch_server_name self = [] then Ret (Inl ''server_name must be non-empty'')
      else if ch_alpn self = [] then Ret (Inl ''alpn must be non-empty'')
      else
        let body = put_u16 [] 0x0303;
            body = body @ random;
            body = body @ [0];
            body = put_u16 body 2;
            body = put_u16 body 0x1301;
            body = body @ [1];
            body = body @ [0x00];
            exts = push_extension [] SERVER_NAME (build_sni_body (ch_server_name self));
            exts = push_extension exts SUPPORTED_VERSIONS build_supported_versions_body;
            exts = push_extension exts SUPPORTED_GROUPS build_supported_groups_body;
            exts = push_extension exts SIGNATURE_ALGORITHMS build_signature_algorithms_body;
            exts = push_extension exts KEY_SHARE build_key_share_body;
            exts = push_extension exts APPLICATION_LAYER_PROTO_NEG (build_alpn_body (ch_alpn self));
            body = put_u16 body (word_of_nat (length exts));
            body = body @ exts in
        obind (put_u24 [0x01] (word_of_nat (length body))) (\<lambda>hs.
        Ret (Inr (hs @ body))))"

section \<open>A reference reading of ClientHello messages\<close>

definition take_n :: "nat \<Rightarrow> bytes \<Rightarrow> (bytes \<times> bytes) option" where
  "take_n n bs = (if n \<le> length bs then Some (take n bs, drop n bs) else None)"

text \<open>A vector with a \<open>k\<close>-byte length.\<close>

definition vec :: "nat \<Rightarrow> bytes \<Rightarrow> (bytes \<times> bytes) option" where
  "vec k bs = Option.bind (take_n k bs) (\<lambda>(l, r). take_n (nat_of_be l) r)"

lemma vec_shorter: "vec k bs = Some (v, r) \<Longrightarrow> length r + length v + k \<le> length bs"
  by (auto simp: vec_def take_n_def bind_eq_Some_conv split: if_splits)

function parse_exts :: "bytes \<Rightarrow> (nat \<times> bytes) list option" where
  "parse_exts bs =
     (if bs = [] then Some []
      else case take_n 2 bs of
        None \<Rightarrow> None
      | Some (ty, r) \<Rightarrow>
          (case vec 2 r of
             None \<Rightarrow> None
           | Some (body, r') \<Rightarrow> map_option (\<lambda>es. (nat_of_be ty, body) # es) (parse_exts r')))"
  by pat_completeness auto
termination
  by (relation "measure length") (auto simp: take_n_def dest!: vec_shorter split: if_splits)

declare parse_exts.simps [simp del]

record client_hello =
  hello_version :: nat
  hello_rand :: bytes
  hello_session_id :: bytes
  hello_suites :: bytes
  hello_compression :: bytes
  hello_exts :: "(nat \<times> bytes) list"

definition parse_hello_body :: "bytes \<Rightarrow> client_hello option" where
  "parse_hello_body m =
     Option.bind (take_n 2 m) (\<lambda>(ver, m).
     Option.bind (take_n 32 m) (\<lambda>(rand, m).
     Option.bind (vec 1 m) (\<lambda>(sid, m).
     Option.bind (vec 2 m) (\<lambda>(suites, m).
     Option.bind (vec 1 m) (\<lambda>(comp, m).
     Option.bind (vec 2 m) (\<lambda>(es, m).
     if m \<noteq> [] then None
     else map_option (\<lambda>es. \<lparr>hello_version = nat_of_be ver, hello_rand = rand, hello_session_id = sid,
            hello_suites = suites, hello_compression = comp, hello_exts = es\<rparr>) (parse_exts es)))))))"

definition parse_hello :: "bytes \<Rightarrow> client_hello option" where
  "parse_hello hs =
     Option.bind (take_n 1 hs) (\<lambda>(ty, r).
     Option.bind (vec 3 r) (\<lambda>(body, r).
     if ty \<noteq> [1] \<or> r \<noteq> [] then None else parse_hello_body body))"

section \<open>Lemmas\<close>

lemma take_n_append [simp]: "n = length xs \<Longrightarrow> take_n n (xs @ ys) = Some (xs, ys)"
  by (simp add: take_n_def)

lemma vec_append:
  assumes "length xs < 256 ^ k"
  shows "vec k (be_nat k (length xs) @ xs @ ys) = Some (xs, ys)"
proof -
  have "nat_of_be (be_nat k (length xs)) = length xs"
    using assms by (simp add: nat_of_be_be_nat)
  then show ?thesis by (simp add: vec_def)
qed

lemma be_nat_2: "n < 2 ^ 16 \<Longrightarrow> to_be_bytes (word_of_nat n :: u16) = be_nat 2 n"
  by (simp add: to_be_bytes_def unat_of_nat)

lemma be_nat_1: "be_nat 1 n = [word_of_nat n]"
  by simp

lemma low_byte: "(ucast (v AND 0xff :: u32) :: byte) = word_of_nat (unat v)"
proof -
  have "v AND 0xff = take_bit 8 v"
    by (simp add: take_bit_eq_mask mask_eq_exp_minus_1)
  then have "(ucast (v AND 0xff) :: byte) = ucast v"
    by (simp add: bit_eq_iff bit_unsigned_iff bit_take_bit_iff)
  then show ?thesis by (simp add: of_nat_unat)
qed

lemma put_u24_be_nat:
  assumes "n < 2 ^ 24"
  shows "put_u24 out (word_of_nat n) = Ret (out @ be_nat 3 n)"
proof -
  have u: "unat (word_of_nat n :: u32) = n"
    using assms by (simp add: unat_of_nat)
  have 3: "be_nat 3 n = [word_of_nat (n div 65536), word_of_nat (n div 256), word_of_nat n]"
    by (simp add: numeral_3_eq_3 flip: div_mult2_eq)
  have d: "unat (drop_bit 16 (word_of_nat n :: u32)) = n div 65536" "unat (drop_bit 8 (word_of_nat n :: u32)) = n div 256"
    by (simp_all only: unat_drop_bit_eq drop_bit_nat_def u) simp_all
  have "(word_of_nat n :: u32) < push_bit 24 1"
    using assms u by (simp add: word_less_nat_alt)
  then show ?thesis
    by (simp only: put_u24_def low_byte d u 3 if_True)
qed

lemma parse_exts_push:
  assumes "length body < 2 ^ 16" "parse_exts rest = Some es"
  shows "parse_exts (to_be_bytes ty @ to_be_bytes (word_of_nat (length body) :: u16) @ body @ rest) =
    Some ((unat (ty :: u16), body) # es)"
proof -
  have "vec 2 (to_be_bytes (word_of_nat (length body) :: u16) @ body @ rest) = Some (body, rest)"
    using assms(1) by (simp add: be_nat_2 vec_append)
  moreover have "nat_of_be (to_be_bytes ty) = unat ty"
    using nat_of_be_to_be_bytes [of 2, where ?'a = 16] by simp
  ultimately show ?thesis
    using assms(2) length_to_be_bytes [of ty] by (subst parse_exts.simps) (auto simp del: length_to_be_bytes)
qed

definition hello_ext_list :: "ClientHelloOmittingQuicTp \<Rightarrow> (u16 \<times> bytes) list" where
  "hello_ext_list self =
     [(SERVER_NAME, build_sni_body (ch_server_name self)), (SUPPORTED_VERSIONS, build_supported_versions_body),
      (SUPPORTED_GROUPS, build_supported_groups_body), (SIGNATURE_ALGORITHMS, build_signature_algorithms_body),
      (KEY_SHARE, build_key_share_body), (APPLICATION_LAYER_PROTO_NEG, build_alpn_body (ch_alpn self))]"

definition ext_wire :: "u16 \<times> bytes \<Rightarrow> bytes" where
  "ext_wire e = to_be_bytes (fst e) @ to_be_bytes (word_of_nat (length (snd e)) :: u16) @ snd e"

lemma parse_exts_wire:
  "\<forall>e \<in> set es. length (snd e) < 2 ^ 16 \<Longrightarrow>
   parse_exts (concat (map ext_wire es)) = Some (map (\<lambda>(ty, body). (unat ty, body)) es)"
proof (induction es)
  case (Cons e es)
  then have "parse_exts (concat (map ext_wire es)) = Some (map (\<lambda>(ty, body). (unat ty, body)) es)"
    by simp
  from parse_exts_push [OF _ this, of "snd e" "fst e"] Cons.prems show ?case
    by (simp add: ext_wire_def [of e] split_beta)
qed (simp add: parse_exts.simps)

lemma body_lengths:
  "length (build_sni_body n) = 5 + length n" "length build_supported_versions_body = 3"
  "length build_supported_groups_body = 4" "length build_signature_algorithms_body = 12"
  "length build_key_share_body = 38" "length (build_alpn_body a) = 3 + length a"
  by (simp_all add: build_sni_body_def build_alpn_body_def build_supported_versions_body_def build_supported_groups_body_def
      build_signature_algorithms_body_def build_key_share_body_def put_u16_def Let_def)

lemma exts_length:
  "length (concat (map ext_wire (hello_ext_list self))) = 89 + length (ch_server_name self) + length (ch_alpn self)"
  by (simp add: hello_ext_list_def ext_wire_def body_lengths)

definition hello_body :: "bytes \<Rightarrow> bytes \<Rightarrow> bytes" where
  "hello_body random exts =
     to_be_bytes (0x0303 :: u16) @ random @ be_nat 1 (length ([] :: bytes)) @ [] @ be_nat 2 (length [0x13, 0x01 :: byte]) @ [0x13, 0x01]
     @ be_nat 1 (length [0 :: byte]) @ [0] @ be_nat 2 (length exts) @ exts @ []"

lemma hello_body_length: "length random = 32 \<Longrightarrow> length (hello_body random exts) = 43 + length exts"
  by (simp add: hello_body_def)

lemma parse_hello_body_eq:
  assumes "length random = 32" "length exts < 2 ^ 16" "parse_exts exts = Some es"
  shows "parse_hello_body (hello_body random exts) =
    Some \<lparr>hello_version = 0x0303, hello_rand = random, hello_session_id = [], hello_suites = [0x13, 0x01],
      hello_compression = [0], hello_exts = es\<rparr>"
proof -
  have v: "nat_of_be (to_be_bytes (0x0303 :: u16)) = 0x0303"
    by code_simp
  have "vec 1 (be_nat 1 (length ([] :: bytes)) @ [] @ r) = Some ([], r)"
    "vec 2 (be_nat 2 (length [0x13, 0x01 :: byte]) @ [0x13, 0x01] @ r) = Some ([0x13, 0x01], r)"
    "vec 1 (be_nat 1 (length [0 :: byte]) @ [0] @ r) = Some ([0], r)"
    "vec 2 (be_nat 2 (length exts) @ exts @ r) = Some (exts, r)" for r
    by (rule vec_append, simp add: assms(2) [simplified])+
  moreover have "take_n 2 (to_be_bytes (0x0303 :: u16) @ r) = Some (to_be_bytes (0x0303 :: u16), r)"
    "take_n 32 (random @ r) = Some (random, r)" for r
    using assms(1) by simp_all
  ultimately show ?thesis
    unfolding parse_hello_body_def hello_body_def
    by (simp only: bind.bind_lunit prod.case v assms(3) option.map simp_thms if_False)
qed

lemma build_eq:
  assumes "ch_server_name self \<noteq> []" "ch_alpn self \<noteq> []" "length random = 32"
    and "length (ch_server_name self) \<le> 60000" "length (ch_alpn self) \<le> 255"
  defines "body \<equiv> hello_body random (concat (map ext_wire (hello_ext_list self)))"
  shows "build random self = Ret (Inr (1 # be_nat 3 (length body) @ body))"
proof -
  let ?x = "concat (map ext_wire (hello_ext_list self))"
  have x: "push_extension (push_extension (push_extension (push_extension (push_extension (push_extension []
      SERVER_NAME (build_sni_body (ch_server_name self))) SUPPORTED_VERSIONS build_supported_versions_body)
      SUPPORTED_GROUPS build_supported_groups_body) SIGNATURE_ALGORITHMS build_signature_algorithms_body)
      KEY_SHARE build_key_share_body) APPLICATION_LAYER_PROTO_NEG (build_alpn_body (ch_alpn self)) = ?x"
    by (simp add: hello_ext_list_def ext_wire_def push_extension_def put_u16_def)
  have l: "length ?x < 2 ^ 16" using assms(4,5) by (simp add: exts_length)
  have u: "to_be_bytes (2 :: u16) = be_nat 2 (Suc (Suc 0))" "to_be_bytes (0x1301 :: u16) = [0x13, 0x01]"
    by code_simp+
  have b: "put_u16 (((put_u16 (put_u16 ((put_u16 [] 0x0303 @ random) @ [0]) 2) 0x1301) @ [1]) @ [0x00]) (word_of_nat (length ?x)) @ ?x = body"
    using l by (simp add: body_def hello_body_def put_u16_def be_nat_2 u)
  have "length body < 2 ^ 24" using l hello_body_length [OF assms(3)] by (simp add: body_def)
  from put_u24_be_nat [OF this, of "[1]"] show ?thesis
    using assms(1,2) by (simp only: build_def Let_def x b if_False obind.simps append_Cons append_Nil)
qed



end
