(* ===== verification/Transport_Params.thy ===== *)
theory Transport_Params
  imports Wire_Codec
begin

text \<open>
  The transport-parameter blocks of the conformance client
  (\<open>conformance/tls-conformance/src/lib.rs\<close>): the well-formed block and the adversarial
  blocks of scenarios F02 to F09, checked against a reference reading of RFC 9000 blocks and
  the rules for client parameters (sections 7.3, 7.4 and 18.2). A varint that does not fit
  would panic, so the builders return outcomes.
\<close>

section \<open>Building blocks\<close>

text \<open>The helper inside \<open>server_tp_bytes_well_formed\<close>.\<close>

definition append_varint_param :: "bytes \<Rightarrow> u64 \<Rightarrow> u64 \<Rightarrow> bytes outcome" where
  "append_varint_param out tp value =
     obind (encode_varint value []) (\<lambda>value_bytes.
     obind (encode_varint tp out) (\<lambda>out.
     obind (encode_varint (word_of_nat (length value_bytes)) out) (\<lambda>out.
     Ret (out @ value_bytes))))"

definition server_tp_bytes_well_formed :: "bytes outcome" where
  "server_tp_bytes_well_formed =
     obind (encode_varint 0x0f []) (\<lambda>out.
     obind (encode_varint 8 out) (\<lambda>out.
     let out = out @ replicate 8 0 in
     obind (append_varint_param out 0x01 30000) (\<lambda>out.
     obind (append_varint_param out 0x03 1452) (\<lambda>out.
     obind (append_varint_param out 0x04 1048576) (\<lambda>out.
     obind (append_varint_param out 0x05 65536) (\<lambda>out.
     obind (append_varint_param out 0x06 65536) (\<lambda>out.
     obind (append_varint_param out 0x07 65536) (\<lambda>out.
     obind (append_varint_param out 0x08 100) (\<lambda>out.
     append_varint_param out 0x09 100)))))))))"

definition push_tp :: "bytes \<Rightarrow> u64 \<Rightarrow> bytes \<Rightarrow> bytes outcome" where
  "push_tp out tp value =
     obind (encode_varint tp out) (\<lambda>out.
     obind (encode_varint (word_of_nat (length value)) out) (\<lambda>out.
     Ret (out @ value)))"

definition push_varint_tp :: "bytes \<Rightarrow> u64 \<Rightarrow> u64 \<Rightarrow> bytes outcome" where
  "push_varint_tp out tp value = obind (encode_varint value []) (push_tp out tp)"

definition varint_value :: "u64 \<Rightarrow> bytes outcome" where
  "varint_value v = encode_varint v []"

definition f02_missing_initial_scid :: "bytes outcome" where
  "f02_missing_initial_scid =
     obind (push_varint_tp [] 0x01 30000) (\<lambda>out.
     obind (push_varint_tp out 0x03 1452) (\<lambda>out.
     obind (push_varint_tp out 0x04 1048576) (\<lambda>out.
     obind (push_varint_tp out 0x05 65536) (\<lambda>out.
     obind (push_varint_tp out 0x06 65536) (\<lambda>out.
     obind (push_varint_tp out 0x07 65536) (\<lambda>out.
     obind (push_varint_tp out 0x08 100) (\<lambda>out.
     push_varint_tp out 0x09 100)))))))"

definition f03_original_dcid_forbidden :: "bytes outcome" where
  "f03_original_dcid_forbidden =
     obind server_tp_bytes_well_formed (\<lambda>out. push_tp out 0x00 (replicate 8 0))"

definition f04_preferred_addr_forbidden :: "bytes outcome" where
  "f04_preferred_addr_forbidden =
     obind server_tp_bytes_well_formed (\<lambda>out.
     let val = [127, 0, 0, 1] @ [0x10, 0xbb] @ replicate 16 0 @ [0x10, 0xbb] @ [1] @ [0] @ replicate 16 0 in
     if length val \<noteq> 42 then Panic else push_tp out 0x0d val)"

definition f05_retry_scid_forbidden :: "bytes outcome" where
  "f05_retry_scid_forbidden =
     obind server_tp_bytes_well_formed (\<lambda>out. push_tp out 0x10 (replicate 8 0))"

definition f06_stateless_reset_forbidden :: "bytes outcome" where
  "f06_stateless_reset_forbidden =
     obind server_tp_bytes_well_formed (\<lambda>out. push_tp out 0x02 (replicate 16 0))"

definition f07_max_udp_payload_below_min :: "bytes outcome" where
  "f07_max_udp_payload_below_min =
     (let push = (\<lambda>tp v out. obind (varint_value v) (push_tp out tp)) in
      obind (push 0x01 30000 []) (\<lambda>out.
      obind (push 0x03 1100 out) (\<lambda>out.
      obind (push 0x04 1048576 out) (\<lambda>out.
      obind (push 0x05 65536 out) (\<lambda>out.
      obind (push 0x06 65536 out) (\<lambda>out.
      obind (push 0x07 65536 out) (\<lambda>out.
      obind (push 0x08 100 out) (\<lambda>out.
      obind (push 0x09 100 out) (\<lambda>out.
      push_tp out 0x0f [])))))))))"

definition f08_ack_delay_exponent_above_max :: "bytes outcome" where
  "f08_ack_delay_exponent_above_max =
     obind server_tp_bytes_well_formed (\<lambda>out. obind (varint_value 21) (push_tp out 0x0a))"

definition f09_max_ack_delay_above_threshold :: "bytes outcome" where
  "f09_max_ack_delay_above_threshold =
     obind server_tp_bytes_well_formed (\<lambda>out. obind (varint_value 16384) (push_tp out 0x0b))"

section \<open>Reference reading\<close>

text \<open>A block is a sequence of \<open>varint(id) || varint(len) || value\<close>.\<close>

function parse_tps :: "bytes \<Rightarrow> (u64 \<times> bytes) list option" where
  "parse_tps bs =
     (if bs = [] then Some []
      else case decode_varint bs of
        None \<Rightarrow> None
      | Some (tp, n) \<Rightarrow>
          (case decode_varint (drop n bs) of
             None \<Rightarrow> None
           | Some (len, m) \<Rightarrow>
               let r = drop (n + m) bs in
               if length r < unat len then None
               else map_option (\<lambda>ps. (tp, take (unat len) r) # ps) (parse_tps (drop (unat len) r))))"
  by pat_completeness auto
termination
  by (relation "measure length") (auto dest: decode_varint_length)

declare parse_tps.simps [simp del]

datatype tp_violation = Initial_scid_missing | Initial_scid_mismatch | Server_only u64
  | Max_udp_payload_below_1200 | Ack_delay_exponent_above_20 | Max_ack_delay_range | Duplicate_parameter

text \<open>An integer-valued parameter.\<close>

definition tp_int :: "(u64 \<times> bytes) list \<Rightarrow> u64 \<Rightarrow> nat option" where
  "tp_int ps tp =
     (case map_of ps tp of
        None \<Rightarrow> None
      | Some v \<Rightarrow> (case decode_varint v of Some (x, n) \<Rightarrow> if n = length v then Some (unat x) else None | None \<Rightarrow> None))"

text \<open>The rules a client's parameters break, for a client whose Initial packets carry \<open>scid\<close>.\<close>

definition tp_violations :: "bytes \<Rightarrow> (u64 \<times> bytes) list \<Rightarrow> tp_violation list" where
  "tp_violations scid ps =
     (case map_of ps 0x0f of
        None \<Rightarrow> [Initial_scid_missing]
      | Some v \<Rightarrow> if v = scid then [] else [Initial_scid_mismatch])
     @ map (\<lambda>(tp, _). Server_only tp) (filter (\<lambda>(tp, _). tp \<in> {0x00, 0x02, 0x0d, 0x10}) ps)
     @ (case tp_int ps 0x03 of Some n \<Rightarrow> if n < 1200 then [Max_udp_payload_below_1200] else [] | None \<Rightarrow> [])
     @ (case tp_int ps 0x0a of Some n \<Rightarrow> if n > 20 then [Ack_delay_exponent_above_20] else [] | None \<Rightarrow> [])
     @ (case tp_int ps 0x0b of Some n \<Rightarrow> if n \<ge> 2 ^ 14 then [Max_ack_delay_range] else [] | None \<Rightarrow> [])
     @ (if distinct (map fst ps) then [] else [Duplicate_parameter])"

text \<open>What the server finds wrong with a block; a block it cannot read is \<open>None\<close>.\<close>

definition judge :: "bytes \<Rightarrow> bytes outcome \<Rightarrow> tp_violation list option" where
  "judge scid block = (case block of Ret bs \<Rightarrow> map_option (tp_violations scid) (parse_tps bs) | _ \<Rightarrow> None)"

section \<open>Lemmas\<close>

definition tp_wire :: "(u64 \<times> bytes) list \<Rightarrow> bytes" where
  "tp_wire ps = concat (map (\<lambda>(tp, v). varint tp @ varint (word_of_nat (length v)) @ v) ps)"

lemma tp_wire_simps [simp]:
  "tp_wire [] = []" "tp_wire (ps @ [(tp, v)]) = tp_wire ps @ varint tp @ varint (word_of_nat (length v)) @ v"
  by (simp_all add: tp_wire_def)

lemma parse_tps_wire:
  "\<forall>(tp, v) \<in> set ps. unat tp < 2 ^ 62 \<and> length v < 2 ^ 62 \<Longrightarrow> parse_tps (tp_wire ps) = Some ps"
proof (induction ps)
  case (Cons p ps)
  obtain tp v where p: "p = (tp, v)" by (cases p)
  let ?n = "word_of_nat (length v) :: u64" and ?r = "v @ tp_wire ps"
  have tp: "unat tp < 2 ^ 62" and n: "unat ?n = length v" "unat ?n < 2 ^ 62"
    using Cons.prems p by (auto simp: unat_of_nat)
  have 1: "decode_varint (varint tp @ varint ?n @ ?r) = Some (tp, length (varint tp))"
    by (rule vi.dec_enc [OF tp])
  have 2: "decode_varint (varint ?n @ ?r) = Some (?n, length (varint ?n))"
    by (rule vi.dec_enc [OF n(2)])
  have "varint tp \<noteq> []" by (rule vi.enc_nonempty [OF tp])
  then have "parse_tps (varint tp @ varint ?n @ ?r) = map_option (\<lambda>ps. (tp, v) # ps) (parse_tps (tp_wire ps))"
    by (subst parse_tps.simps) (simp add: 1 2 n(1) Let_def)
  with Cons p show ?case by (simp add: tp_wire_def)
qed (simp add: parse_tps.simps)

lemma push_tp_wire:
  "unat tp < 2 ^ 62 \<Longrightarrow> length v < 2 ^ 62 \<Longrightarrow> push_tp (tp_wire ps) tp v = Ret (tp_wire (ps @ [(tp, v)]))"
  by (simp add: push_tp_def encode_varint_varint unat_of_nat)

lemma push_varint_tp_wire:
  assumes "unat tp < 2 ^ 62" "unat x < 2 ^ 62"
  shows "push_varint_tp (tp_wire ps) tp x = Ret (tp_wire (ps @ [(tp, varint x)]))"
    "obind (varint_value x) (push_tp (tp_wire ps) tp) = Ret (tp_wire (ps @ [(tp, varint x)]))"
    "append_varint_param (tp_wire ps) tp x = Ret (tp_wire (ps @ [(tp, varint x)]))"
proof -
  have "length (varint x) < 2 ^ 62"
    using assms(2) by (simp add: varint_eq varint_len_def)
  then show "push_varint_tp (tp_wire ps) tp x = Ret (tp_wire (ps @ [(tp, varint x)]))"
    "obind (varint_value x) (push_tp (tp_wire ps) tp) = Ret (tp_wire (ps @ [(tp, varint x)]))"
    "append_varint_param (tp_wire ps) tp x = Ret (tp_wire (ps @ [(tp, varint x)]))"
    using assms by (simp_all add: push_varint_tp_def varint_value_def append_varint_param_def push_tp_wire
        encode_varint_varint unat_of_nat)
qed

definition base_tps :: "(u64 \<times> bytes) list" where
  "base_tps = [(0x01, varint 30000), (0x03, varint 1452), (0x04, varint 1048576), (0x05, varint 65536),
     (0x06, varint 65536), (0x07, varint 65536), (0x08, varint 100), (0x09, varint 100)]"

lemma well_formed_wire:
  "server_tp_bytes_well_formed = Ret (tp_wire ((0x0f, replicate 8 0) # base_tps))"
proof -
  have 8: "encode_varint 0x0f [] = Ret (varint 0x0f)" "encode_varint 8 out = Ret (out @ varint 8)" for out
    by (simp_all add: encode_varint_varint)
  have "varint 0x0f @ varint 8 @ replicate 8 0 = tp_wire ([] @ [(0x0f, replicate 8 0)])"
    by (subst tp_wire_simps) simp
  then show ?thesis
    unfolding server_tp_bytes_well_formed_def Let_def 8 obind.simps append_assoc
    by (simp add: push_varint_tp_wire base_tps_def del: tp_wire_simps)
qed

lemma base_wire:
  "f02_missing_initial_scid = Ret (tp_wire base_tps)"
  unfolding f02_missing_initial_scid_def tp_wire_simps(1) [symmetric]
  by (simp add: push_varint_tp_wire base_tps_def del: tp_wire_simps)

lemma extended_wire:
  "f03_original_dcid_forbidden = Ret (tp_wire (((0x0f, replicate 8 0) # base_tps) @ [(0x00, replicate 8 0)]))"
  "f05_retry_scid_forbidden = Ret (tp_wire (((0x0f, replicate 8 0) # base_tps) @ [(0x10, replicate 8 0)]))"
  "f06_stateless_reset_forbidden = Ret (tp_wire (((0x0f, replicate 8 0) # base_tps) @ [(0x02, replicate 16 0)]))"
  "f08_ack_delay_exponent_above_max = Ret (tp_wire (((0x0f, replicate 8 0) # base_tps) @ [(0x0a, varint 21)]))"
  "f09_max_ack_delay_above_threshold = Ret (tp_wire (((0x0f, replicate 8 0) # base_tps) @ [(0x0b, varint 16384)]))"
  by (simp_all add: f03_original_dcid_forbidden_def f05_retry_scid_forbidden_def f06_stateless_reset_forbidden_def
      f08_ack_delay_exponent_above_max_def f09_max_ack_delay_above_threshold_def well_formed_wire push_tp_wire
      push_varint_tp_wire(2) del: tp_wire_simps append_Cons)

definition preferred_address :: bytes where
  "preferred_address = [127, 0, 0, 1] @ [0x10, 0xbb] @ replicate 16 0 @ [0x10, 0xbb] @ [1] @ [0] @ replicate 16 0"

lemma f04_wire:
  "f04_preferred_addr_forbidden = Ret (tp_wire (((0x0f, replicate 8 0) # base_tps) @ [(0x0d, preferred_address)]))"
proof -
  have "length preferred_address = 42" by (simp add: preferred_address_def)
  then show ?thesis
    by (simp add: f04_preferred_addr_forbidden_def well_formed_wire push_tp_wire Let_def
        del: tp_wire_simps append_Cons flip: preferred_address_def)
qed

lemma push_tp_Nil: "unat tp < 2 ^ 62 \<Longrightarrow> length v < 2 ^ 62 \<Longrightarrow> push_tp [] tp v = Ret (tp_wire [(tp, v)])"
  using push_tp_wire [of tp v "[]"] by simp

lemma varint_value_eq: "unat x < 2 ^ 62 \<Longrightarrow> varint_value x = Ret (varint x)"
  by (simp add: varint_value_def encode_varint_varint)

lemma length_varint_small: "unat x < 2 ^ 62 \<Longrightarrow> length (varint x) < 2 ^ 62"
  by (simp add: varint_eq varint_len_def)

lemma f07_wire:
  "f07_max_udp_payload_below_min =
     Ret (tp_wire ([(0x01, varint 30000), (0x03, varint 1100)] @ drop 2 base_tps @ [(0x0f, [])]))"
  using length_varint_small
  by (simp add: f07_max_udp_payload_below_min_def Let_def varint_value_eq push_tp_Nil push_tp_wire base_tps_def
      del: tp_wire_simps)

text \<open>The parameters of a block, and its verdict.\<close>

lemma judge_wire:
  "\<forall>(tp, v) \<in> set ps. unat tp < 2 ^ 62 \<and> length v < 2 ^ 62 \<Longrightarrow>
   judge scid (Ret (tp_wire ps)) = Some (tp_violations scid ps)"
  by (simp add: judge_def parse_tps_wire)

lemma base_small: "\<forall>(tp, v) \<in> set base_tps. unat tp < 2 ^ 62 \<and> length v < 2 ^ 62"
  using length_varint_small by (simp add: base_tps_def)

lemma decode_varint_self: "unat x < 2 ^ 62 \<Longrightarrow> decode_varint (varint x) = Some (x, length (varint x))"
  using vi.dec_enc [of x "[]"] by simp

lemmas verdict = tp_violations_def tp_int_def base_tps_def decode_varint_self

lemma f07_small:
  "\<forall>(tp, v) \<in> set ([(0x01, varint 30000), (0x03, varint 1100)] @ drop 2 base_tps @ [(0x0f, [])]).
     unat tp < 2 ^ 62 \<and> length v < 2 ^ 62"
  using length_varint_small by (simp add: base_tps_def)

text \<open>
  The F07 block carries an empty \<open>initial_source_connection_id\<close>: for a client with another
  source ID it breaks a second rule besides the payload size.
\<close>

lemma f07_breaks_two_rules:
  assumes "scid \<noteq> []"
  shows "judge scid f07_max_udp_payload_below_min = Some [Initial_scid_mismatch, Max_udp_payload_below_1200]"
  using assms unfolding f07_wire judge_wire [OF f07_small] by (simp add: verdict)

text \<open>
  C37. Every block the scenarios send is a readable sequence of parameters, and the
  well-formed block breaks no rule for a client whose source ID is the eight zero bytes the
  scenarios use, while each adversarial block breaks the one rule its scenario is named
  after. F07 does so only for a client whose source ID is the empty one that block announces;
  for the source ID the scenarios use it also breaks the rule on that ID.
\<close>

theorem tp_blocks_targeted:
  "judge (replicate 8 0) server_tp_bytes_well_formed = Some []
   \<and> judge (replicate 8 0) f02_missing_initial_scid = Some [Initial_scid_missing]
   \<and> judge (replicate 8 0) f03_original_dcid_forbidden = Some [Server_only 0x00]
   \<and> judge (replicate 8 0) f04_preferred_addr_forbidden = Some [Server_only 0x0d]
   \<and> judge (replicate 8 0) f05_retry_scid_forbidden = Some [Server_only 0x10]
   \<and> judge (replicate 8 0) f06_stateless_reset_forbidden = Some [Server_only 0x02]
   \<and> judge [] f07_max_udp_payload_below_min = Some [Max_udp_payload_below_1200]
   \<and> judge (replicate 8 0) f07_max_udp_payload_below_min = Some [Initial_scid_mismatch, Max_udp_payload_below_1200]
   \<and> judge (replicate 8 0) f08_ack_delay_exponent_above_max = Some [Ack_delay_exponent_above_20]
   \<and> judge (replicate 8 0) f09_max_ack_delay_above_threshold = Some [Max_ack_delay_range]"
proof (intro conjI)
  have small: "\<forall>(tp, v) \<in> set (((0x0f, replicate 8 0) # base_tps) @ [(i, x)]). unat tp < 2 ^ 62 \<and> length v < 2 ^ 62"
    if "unat i < 2 ^ 62" "length x < 2 ^ 62" for i :: u64 and x
    using base_small that by auto
  show "judge (replicate 8 0) server_tp_bytes_well_formed = Some []"
    unfolding well_formed_wire using base_small by (subst judge_wire) (auto simp: verdict)
  show "judge (replicate 8 0) f02_missing_initial_scid = Some [Initial_scid_missing]"
    unfolding base_wire using base_small by (subst judge_wire) (auto simp: verdict)
  show "judge [] f07_max_udp_payload_below_min = Some [Max_udp_payload_below_1200]"
    unfolding f07_wire judge_wire [OF f07_small] by (simp add: verdict)
  show "judge (replicate 8 0) f07_max_udp_payload_below_min = Some [Initial_scid_mismatch, Max_udp_payload_below_1200]"
    by (rule f07_breaks_two_rules) simp
  show "judge (replicate 8 0) f03_original_dcid_forbidden = Some [Server_only 0x00]"
    "judge (replicate 8 0) f05_retry_scid_forbidden = Some [Server_only 0x10]"
    "judge (replicate 8 0) f06_stateless_reset_forbidden = Some [Server_only 0x02]"
    "judge (replicate 8 0) f08_ack_delay_exponent_above_max = Some [Ack_delay_exponent_above_20]"
    "judge (replicate 8 0) f09_max_ack_delay_above_threshold = Some [Max_ack_delay_range]"
    unfolding extended_wire
    by (subst judge_wire, rule small, simp, simp add: length_varint_small [simplified], simp add: verdict)+
  show "judge (replicate 8 0) f04_preferred_addr_forbidden = Some [Server_only 0x0d]"
    unfolding f04_wire
    by (subst judge_wire, rule small, simp, simp add: preferred_address_def, simp add: verdict)
qed

end
