(* ===== verification/Harness_Env.thy ===== *)
theory Harness_Env
  imports Frame_Scan Tls_Config
begin

text \<open>
  What the drivers of the conformance client (\<open>conformance/tls-conformance/src/lib.rs\<close>) stand
  on: the environment variables, the verdicts on a CONNECTION_CLOSE, the accept-any
  certificate verifier and the client configuration, the outside world (rustls, the UDP
  socket, the process environment) as a record of functions, and the composition of steps
  that may fail, panic or not return.
\<close>

section \<open>Numbers and environment variables\<close>

text \<open>\<open>str::parse\<close> for an unsigned type with the given maximum: an optional \<open>+\<close>, then digits.\<close>

definition digit :: "char \<Rightarrow> nat option" where
  "digit c = (let n = of_char c in if 48 \<le> n \<and> n \<le> 57 then Some (n - 48) else None)"

fun digits_value :: "nat \<Rightarrow> string \<Rightarrow> nat option" where
  "digits_value acc [] = Some acc"
| "digits_value acc (c # cs) = (case digit c of None \<Rightarrow> None | Some d \<Rightarrow> digits_value (acc * 10 + d) cs)"

definition parse_uint :: "nat \<Rightarrow> string \<Rightarrow> nat option" where
  "parse_uint upper s =
     (let ds = (case s of c # cs \<Rightarrow> if c = CHR ''+'' then cs else s | [] \<Rightarrow> []) in
      if ds = [] then None
      else case digits_value 0 ds of None \<Rightarrow> None | Some n \<Rightarrow> if n \<le> upper then Some n else None)"

text \<open>\<open>env\<close> is \<open>std::env::var(..).ok()\<close>. The address is always on the loopback, so its port says it.\<close>

definition server_addr :: "(string \<Rightarrow> string option) \<Rightarrow> u16" where
  "server_addr env =
     (case Option.bind (env ''TLS_SERVER_PORT'') (parse_uint (2 ^ 16 - 1)) of
        Some port \<Rightarrow> word_of_nat port
      | None \<Rightarrow> 4433)"

definition parse_env_or :: "(string \<Rightarrow> string option) \<Rightarrow> string \<Rightarrow> u64 \<Rightarrow> u64" where
  "parse_env_or env name dflt =
     (case Option.bind (env name) (parse_uint (2 ^ 64 - 1)) of
        Some n \<Rightarrow> word_of_nat n
      | None \<Rightarrow> dflt)"

section \<open>Verdicts\<close>

text \<open>\<open>{:x}\<close>, \<open>{:02x}\<close> and the \<open>{:?}\<close> of a byte slice.\<close>

definition hex_digit :: "nat \<Rightarrow> char" where
  "hex_digit n = char_of (if n < 10 then 48 + n else 87 + n)"

fun hex_nat :: "nat \<Rightarrow> string" where
  "hex_nat n = (if n < 16 then [hex_digit n] else hex_nat (n div 16) @ [hex_digit (n mod 16)])"

declare hex_nat.simps [simp del]

definition hex_byte :: "byte \<Rightarrow> string" where
  "hex_byte b = [hex_digit (unat b div 16), hex_digit (unat b mod 16)]"

fun comma_separated :: "string list \<Rightarrow> string" where
  "comma_separated [] = []"
| "comma_separated [s] = s"
| "comma_separated (s # t # ss) = s @ '', '' @ comma_separated (t # ss)"

definition show_byte_slice :: "bytes \<Rightarrow> string" where
  "show_byte_slice bs = ''['' @ comma_separated (map (\<lambda>b. dec_nat (unat b)) bs) @ '']''"

definition assert_crypto_error_low_byte :: "ConnectionClose \<Rightarrow> bytes \<Rightarrow> string + unit" where
  "assert_crypto_error_low_byte cc allowed =
     (if cc_frame_type cc \<noteq> 0x1c then
        Inl (''expected transport CONNECTION_CLOSE (frame_type=0x1c), got 0x'' @ hex_byte (cc_frame_type cc))
      else
        let code = cc_error_code cc in
        if \<not> (0x0100 \<le> code \<and> code \<le> 0x01ff) then
          Inl (''expected CRYPTO_ERROR range 0x0100..=0x01ff, got 0x'' @ hex_nat (unat code))
        else
          let low = ucast (code AND 0xff) in
          if low \<notin> set allowed then
            Inl (''expected CRYPTO_ERROR low byte '' @ string_of_bytes [0xE2, 0x88, 0x88] @ '' '' @ show_byte_slice allowed
              @ '', got '' @ dec_nat (unat low) @ '' (full code 0x'' @ hex_nat (unat code) @ '')'')
          else Inr ())"

text \<open>\<open>str::contains\<close>; \<open>debug_str\<close> is the \<open>{:?}\<close> rendering of a string.\<close>

fun contains :: "string \<Rightarrow> string \<Rightarrow> bool" where
  "contains [] tag \<longleftrightarrow> tag = []"
| "contains (c # cs) tag \<longleftrightarrow> take (length tag) (c # cs) = tag \<or> contains cs tag"

definition assert_transport_param_error_with_tag :: "(string \<Rightarrow> string) \<Rightarrow> ConnectionClose \<Rightarrow> string \<Rightarrow> string + unit" where
  "assert_transport_param_error_with_tag debug_str cc tag =
     (if cc_frame_type cc \<noteq> 0x1c then
        Inl (''expected transport CONNECTION_CLOSE (frame_type=0x1c), got 0x'' @ hex_byte (cc_frame_type cc))
      else if cc_error_code cc \<noteq> 0x08 then
        Inl (''expected TRANSPORT_PARAMETER_ERROR (0x08), got 0x'' @ hex_nat (unat (cc_error_code cc)))
      else if \<not> contains (cc_reason cc) tag then
        Inl (''expected reason to contain '' @ debug_str tag @ '', got '' @ debug_str (cc_reason cc))
      else Inr ())"

section \<open>Client configuration\<close>

record 'algs AcceptAnyServerCert =
  any_provider :: 'algs

definition AcceptAny_verify_server_cert :: "'algs AcceptAnyServerCert \<Rightarrow> 'cert \<Rightarrow> 'cert list \<Rightarrow> string + unit" where
  "AcceptAny_verify_server_cert self end_entity intermediates = Inr ()"

definition AcceptAny_verify_tls12_signature ::
  "('cert, 'dss, 'algs, 'scheme) signature_api \<Rightarrow> 'algs AcceptAnyServerCert \<Rightarrow> bytes \<Rightarrow> 'cert \<Rightarrow> 'dss \<Rightarrow> string + unit" where
  "AcceptAny_verify_tls12_signature api self message cert dss =
     sig_verify_tls12_signature api message cert dss (any_provider self)"

definition AcceptAny_verify_tls13_signature ::
  "('cert, 'dss, 'algs, 'scheme) signature_api \<Rightarrow> 'algs AcceptAnyServerCert \<Rightarrow> bytes \<Rightarrow> 'cert \<Rightarrow> 'dss \<Rightarrow> string + unit" where
  "AcceptAny_verify_tls13_signature api self message cert dss =
     sig_verify_tls13_signature api message cert dss (any_provider self)"

definition AcceptAny_supported_verify_schemes ::
  "('cert, 'dss, 'algs, 'scheme) signature_api \<Rightarrow> 'algs AcceptAnyServerCert \<Rightarrow> 'scheme list" where
  "AcceptAny_supported_verify_schemes api self = sig_supported_schemes api (any_provider self)"

record 'algs harness_config =
  hc_verifier :: "'algs AcceptAnyServerCert"
  hc_alpn_protocols :: "bytes list"

section \<open>The outside world\<close>

text \<open>
  Third-party calls and the operating system: the ring provider's algorithms, the TLS 1.3
  client builder, \<open>ServerName::try_from\<close>, \<open>ClientConnection::new\<close> and its methods, the suite of
  the Initial keys, the renderings of errors, the environment and the UDP socket.
  \<open>w_send_to\<close> may depend on what was sent before.
\<close>

record ('c, 'sec, 'name, 'algs) world =
  w_provider :: 'algs
  w_tls13_builder :: "'algs AcceptAnyServerCert \<Rightarrow> string + 'algs harness_config"
  w_server_name :: "string \<Rightarrow> string + 'name"
  w_connect :: "'algs harness_config \<Rightarrow> QuicVersion \<Rightarrow> 'name \<Rightarrow> bytes \<Rightarrow> string + 'c"
  w_tls :: "('c, 'sec) tls_client"
  w_suite :: suite_api
  w_debug :: "string \<Rightarrow> string"
  w_env :: "string \<Rightarrow> string option"
  w_bind :: "string + unit"
  w_set_read_timeout :: "u64 \<Rightarrow> string + unit"
  w_send_to :: "(u16 \<times> bytes) list \<Rightarrow> u16 \<Rightarrow> bytes \<Rightarrow> string + unit"

definition build_quic_client_config_with_alpn :: "('c, 'sec, 'name, 'algs) world \<Rightarrow> bytes list \<Rightarrow> 'algs harness_config outcome" where
  "build_quic_client_config_with_alpn W alpn =
     obind (expect (w_tls13_builder W \<lparr>any_provider = w_provider W\<rparr>)) (\<lambda>config.
     Ret (config\<lparr>hc_alpn_protocols := alpn\<rparr>))"

text \<open>
  What \<open>recv_from\<close> gives: a datagram, a timeout (\<open>WouldBlock\<close> or \<open>TimedOut\<close>) or another error,
  with its rendering. The iterations of a receive loop consume a list of these; the end of
  the list is the loop's deadline.
\<close>

datatype recv_event = Datagram bytes | Timed_out string | Recv_error string

section \<open>State and steps\<close>

text \<open>The builder, what has been sent and to which port, and the state of the shim's library.\<close>

record 'z harness =
  h_builder :: PacketBuilder
  h_sent :: "(u16 \<times> bytes) list"
  h_shim :: "'z keys_shim_scheme"

record ('z, 'c) driver = "'z harness" +
  d_conn :: 'c
  d_handshake_keys :: "keys option"
  d_one_rtt_keys :: "keys option"
  d_hs_send_pn :: u64
  d_one_rtt_send_pn :: u64
  d_injected :: bool

text \<open>
  A step: \<open>None\<close> when it does not return, else a value, an error or a panic, each with the
  state it leaves.
\<close>

type_synonym ('s, 'a) act = "'s \<Rightarrow> ((string + 'a) outcome \<times> 's) option"

definition yield :: "'a \<Rightarrow> ('s, 'a) act" where
  "yield x s = Some (Ret (Inr x), s)"

definition throw :: "string \<Rightarrow> ('s, 'a) act" where
  "throw e s = Some (Ret (Inl e), s)"

definition then_do :: "('s, 'a) act \<Rightarrow> ('a \<Rightarrow> ('s, 'b) act) \<Rightarrow> ('s, 'b) act" where
  "then_do m f s =
     (case m s of
        None \<Rightarrow> None
      | Some (Ret (Inr x), s) \<Rightarrow> f x s
      | Some (Ret (Inl e), s) \<Rightarrow> Some (Ret (Inl e), s)
      | Some (Panic, s) \<Rightarrow> Some (Panic, s)
      | Some (Undef, s) \<Rightarrow> Some (Undef, s))"

definition gets :: "('s \<Rightarrow> 'a) \<Rightarrow> ('s, 'a) act" where
  "gets f s = Some (Ret (Inr (f s)), s)"

definition modify :: "('s \<Rightarrow> 's) \<Rightarrow> ('s, unit) act" where
  "modify f s = Some (Ret (Inr ()), f s)"

text \<open>A computation that leaves the state alone; \<open>?\<close> on a result, with \<open>map_err\<close>.\<close>

definition pure :: "'a outcome \<Rightarrow> ('s, 'a) act" where
  "pure m s = Some (omap Inr m, s)"

definition try_with :: "('e \<Rightarrow> string) \<Rightarrow> 'e + 'a \<Rightarrow> ('s, 'a) act" where
  "try_with msg r = (case r of Inl e \<Rightarrow> throw (msg e) | Inr x \<Rightarrow> yield x)"

text \<open>A call into the shim's library.\<close>

definition on_shim ::
  "('z keys_shim_scheme \<Rightarrow> ('a \<times> 'z keys_shim_scheme) outcome) \<Rightarrow> (('z, 'm) harness_scheme, 'a) act" where
  "on_shim m s =
     (case m (h_shim s) of
        Ret (x, shim) \<Rightarrow> Some (Ret (Inr x), s\<lparr>h_shim := shim\<rparr>)
      | Panic \<Rightarrow> Some (Panic, s) | Undef \<Rightarrow> Some (Undef, s))"

definition build_initial :: "bytes \<Rightarrow> KeysHandle \<Rightarrow> (('z, 'm) harness_scheme, bytes) act" where
  "build_initial crypto_payload keys s =
     (case encode_initial crypto_payload keys (h_builder s) (h_shim s) of
        Ret (pkt, builder, shim) \<Rightarrow> Some (Ret (Inr pkt), s\<lparr>h_builder := builder, h_shim := shim\<rparr>)
      | Panic \<Rightarrow> Some (Panic, s) | Undef \<Rightarrow> Some (Undef, s))"

definition send_to :: "('c, 'sec, 'name, 'algs) world \<Rightarrow> string \<Rightarrow> u16 \<Rightarrow> bytes \<Rightarrow> (('z, 'm) harness_scheme, unit) act" where
  "send_to W msg server pkt s =
     (case w_send_to W (h_sent s) server pkt of
        Inl e \<Rightarrow> Some (Ret (Inl (msg @ e)), s)
      | Inr _ \<Rightarrow> Some (Ret (Inr ()), s\<lparr>h_sent := h_sent s @ [(server, pkt)]\<rparr>))"

text \<open>The keys handle is dropped when the body is left, by whatever way.\<close>

definition dropping :: "KeysHandle \<Rightarrow> (('z, 'm) harness_scheme, 'a) act \<Rightarrow> (('z, 'm) harness_scheme, 'a) act" where
  "dropping keys m s =
     (case m s of
        None \<Rightarrow> None
      | Some (r, s) \<Rightarrow>
          (case KeysHandle_drop keys (h_shim s) of
             Ret shim \<Rightarrow> Some (r, s\<lparr>h_shim := shim\<rparr>)
           | Panic \<Rightarrow> Some (Panic, s) | Undef \<Rightarrow> Some (Undef, s)))"

definition with_initial_keys ::
  "('c, 'sec, 'name, 'algs) world \<Rightarrow> bytes \<Rightarrow> (KeysHandle \<Rightarrow> (('z, 'm) harness_scheme, 'a) act) \<Rightarrow> (('z, 'm) harness_scheme, 'a) act" where
  "with_initial_keys W dcid body =
     then_do (on_shim (initial_keys (w_suite W) Client dcid)) (\<lambda>r.
     then_do (try_with (\<lambda>e. ''client initial_keys failed: rc='' @ dec_i32 (fe_code e)) r) (\<lambda>keys.
     dropping keys (body keys)))"

text \<open>Binds the socket and sets its timeout, which is returned.\<close>

definition open_socket :: "('c, 'sec, 'name, 'algs) world \<Rightarrow> ('s, u64) act" where
  "open_socket W =
     then_do (try_with (\<lambda>e. ''bind UDP: '' @ e) (w_bind W)) (\<lambda>_.
     let timeout_ms = parse_env_or (w_env W) ''TLS_HANDSHAKE_TIMEOUT_MS'' 500 in
     then_do (try_with (\<lambda>e. ''set_read_timeout: '' @ e) (w_set_read_timeout W timeout_ms)) (\<lambda>_.
     yield timeout_ms))"

section \<open>Loops\<close>

text \<open>\<open>loop\<close> over a step that says whether to go on.\<close>

partial_function (option) loop_while :: "('s, bool) act \<Rightarrow> ('s, unit) act" where
  "loop_while step s =
     (case step s of
        None \<Rightarrow> None
      | Some (Ret (Inr again), s) \<Rightarrow> if again then loop_while step s else Some (Ret (Inr ()), s)
      | Some (Ret (Inl e), s) \<Rightarrow> Some (Ret (Inl e), s)
      | Some (Panic, s) \<Rightarrow> Some (Panic, s)
      | Some (Undef, s) \<Rightarrow> Some (Undef, s))"

text \<open>\<open>while offset < datagram.len()\<close> over the packets coalesced in a datagram.\<close>

partial_function (option) walk_packets ::
  "(bytes \<Rightarrow> nat \<Rightarrow> ('s, scan_step) act) \<Rightarrow> bytes \<Rightarrow> nat \<Rightarrow> ('s, ConnectionClose option) act" where
  "walk_packets step datagram offset s =
     (if offset < length datagram then
        (case step datagram offset s of
           None \<Rightarrow> None
         | Some (Ret (Inr st), s) \<Rightarrow>
             (case st of
                Next offset \<Rightarrow> walk_packets step datagram offset s
              | Close cc \<Rightarrow> Some (Ret (Inr (Some cc)), s)
              | Stop \<Rightarrow> Some (Ret (Inr None), s))
         | Some (Ret (Inl e), s) \<Rightarrow> Some (Ret (Inl e), s)
         | Some (Panic, s) \<Rightarrow> Some (Panic, s)
         | Some (Undef, s) \<Rightarrow> Some (Undef, s))
      else Some (Ret (Inr None), s))"

section \<open>Total correctness of steps\<close>

text \<open>
  From a state in \<open>P\<close> the step returns and does not panic: with a value, in a state that
  satisfies \<open>Q\<close> for it, or with an error, in a state that satisfies \<open>J\<close>.
\<close>

fun result_in :: "('a \<Rightarrow> 's \<Rightarrow> bool) \<Rightarrow> ('s \<Rightarrow> bool) \<Rightarrow> ((string + 'a) outcome \<times> 's) option \<Rightarrow> bool" where
  "result_in Q J (Some (Ret (Inr x), s)) = Q x s"
| "result_in Q J (Some (Ret (Inl e), s)) = J s"
| "result_in Q J _ = False"

definition triple :: "('s \<Rightarrow> bool) \<Rightarrow> ('s, 'a) act \<Rightarrow> ('a \<Rightarrow> 's \<Rightarrow> bool) \<Rightarrow> ('s \<Rightarrow> bool) \<Rightarrow> bool" where
  "triple P m Q J \<longleftrightarrow> (\<forall>s. P s \<longrightarrow> result_in Q J (m s))"

named_theorems triple_intros

lemma result_in_iff:
  "result_in Q J r \<longleftrightarrow> (\<exists>x s. r = Some (Ret (Inr x), s) \<and> Q x s) \<or> (\<exists>e s. r = Some (Ret (Inl e), s) \<and> J s)"
  by (induction Q J r rule: result_in.induct) auto

lemma tripleI: "(\<And>s. P s \<Longrightarrow> result_in Q J (m s)) \<Longrightarrow> triple P m Q J"
  by (simp add: triple_def)

lemma tripleD: "triple P m Q J \<Longrightarrow> P s \<Longrightarrow> result_in Q J (m s)"
  by (simp add: triple_def)

lemma triple_conseq:
  "triple P m Q J \<Longrightarrow> (\<And>s. P' s \<Longrightarrow> P s) \<Longrightarrow> (\<And>x s. Q x s \<Longrightarrow> Q' x s) \<Longrightarrow> triple P' m Q' J"
  by (fastforce simp: triple_def result_in_iff)

lemma triple_yield [triple_intros]: "(\<And>s. P s \<Longrightarrow> Q x s) \<Longrightarrow> triple P (yield x) Q J"
  by (simp add: triple_def yield_def)

lemma triple_throw [triple_intros]: "(\<And>s. P s \<Longrightarrow> J s) \<Longrightarrow> triple P (throw e) Q J"
  by (simp add: triple_def throw_def)

lemma triple_gets: "(\<And>s. P s \<Longrightarrow> Q (f s) s) \<Longrightarrow> triple P (gets f) Q J"
  by (simp add: triple_def gets_def)

lemma triple_modify: "(\<And>s. P s \<Longrightarrow> Q () (f s)) \<Longrightarrow> triple P (modify f) Q J"
  by (simp add: triple_def modify_def)

lemma triple_then_do:
  "triple P m R J \<Longrightarrow> (\<And>x. triple (R x) (f x) Q J) \<Longrightarrow> triple P (then_do m f) Q J"
  by (fastforce simp: triple_def then_do_def result_in_iff)

text \<open>A step that reads or leaves the state, with what is known of its value.\<close>

lemma triple_gets_do [triple_intros]:
  "(\<And>x. triple (\<lambda>s. P s \<and> x = f s) (g x) Q J) \<Longrightarrow> triple P (then_do (gets f) g) Q J"
  by (rule triple_then_do [OF triple_gets, where R = "\<lambda>x s. P s \<and> x = f s"]) auto

lemma triple_pure_do:
  "ensures m R \<Longrightarrow> (\<And>x. R x \<Longrightarrow> triple P (g x) Q J) \<Longrightarrow> triple P (then_do (pure m) g) Q J"
  by (auto simp: triple_def then_do_def pure_def ensures_iff)

lemma triple_try_do [triple_intros]:
  "(\<And>x. r = Inr x \<Longrightarrow> triple P (g x) Q J) \<Longrightarrow> (\<And>s. P s \<Longrightarrow> J s) \<Longrightarrow> triple P (then_do (try_with msg r) g) Q J"
  by (cases r) (auto simp: triple_def then_do_def try_with_def yield_def throw_def)

lemma triple_if [triple_intros]:
  "(b \<Longrightarrow> triple P m Q J) \<Longrightarrow> (\<not> b \<Longrightarrow> triple P m' Q J) \<Longrightarrow> triple P (if b then m else m') Q J"
  by simp

lemma triple_pre_imp: "(b \<Longrightarrow> triple P m Q J) \<Longrightarrow> triple (\<lambda>s. P s \<and> b) m Q J"
  by (simp add: triple_def)

lemma triple_pre_conj: "(b \<Longrightarrow> triple P m Q J) \<Longrightarrow> (\<And>s. P' s \<Longrightarrow> P s \<and> b) \<Longrightarrow> triple P' m Q J"
  by (auto simp: triple_def)

lemma triple_try: "(\<And>s. P s \<Longrightarrow> J s) \<Longrightarrow> triple P (try_with msg r) (\<lambda>_. P) J"
  by (auto simp: try_with_def triple_def yield_def throw_def split: sum.split)

lemma triple_gets_any: "(\<And>x. triple P (g x) Q J) \<Longrightarrow> triple P (then_do (gets f) g) Q J"
  by (rule triple_then_do [OF triple_gets, where R = "\<lambda>_. P"]) auto

lemma result_then_do: "result_in (\<lambda>x t. result_in Q J (f x t)) J (m s) \<Longrightarrow> result_in Q J (then_do m f s)"
  by (auto simp: then_do_def result_in_iff [where r = "m s"])

lemma result_modify [simp]: "result_in Q J (modify f s) = Q () (f s)"
  by (simp add: modify_def)

lemma triple_ex: "(\<And>x. triple (P x) m Q J) \<Longrightarrow> triple (\<lambda>s. \<exists>x. P x s) m Q J"
  by (auto simp: triple_def)

text \<open>The loops: a measure that every further iteration decreases, an offset that increases.\<close>

lemma triple_loop_while:
  assumes "\<And>n. triple (\<lambda>s. I s \<and> \<mu> s = n) step (\<lambda>again s. I s \<and> (again \<longrightarrow> \<mu> s < (n :: nat))) J"
  shows "triple I (loop_while step) (\<lambda>_. I) J"
proof (rule tripleI)
  fix s assume "I s"
  then show "result_in (\<lambda>_. I) J (loop_while step s)"
  proof (induction "\<mu> s" arbitrary: s rule: less_induct)
    case less
    from tripleD [OF assms, of s "\<mu> s"] less.prems
    have "result_in (\<lambda>again t. I t \<and> (again \<longrightarrow> \<mu> t < \<mu> s)) J (step s)" by simp
    then show ?case
      by (subst loop_while.simps) (auto simp: result_in_iff [where r = "step s"] less.hyps)
  qed
qed

lemma triple_walk_packets:
  assumes "\<And>offset. offset < length d \<Longrightarrow>
    triple I (step d offset) (\<lambda>st s. I s \<and> (\<forall>j. st = Next j \<longrightarrow> offset < j)) J"
  shows "triple I (walk_packets step d offset) (\<lambda>_. I) J"
proof (rule tripleI)
  fix s assume "I s"
  then show "result_in (\<lambda>_. I) J (walk_packets step d offset s)"
  proof (induction "length d - offset" arbitrary: offset s rule: less_induct)
    case less
    show ?case
    proof (cases "offset < length d")
      case True
      from tripleD [OF assms [OF True] less.prems]
      have step: "result_in (\<lambda>st t. I t \<and> (\<forall>j. st = Next j \<longrightarrow> offset < j)) J (step d offset s)" .
      have IH: "result_in (\<lambda>_. I) J (walk_packets step d j t)" if "offset < j" "I t" for j t
      proof (cases "j < length d")
        case True with less.hyps [of j t] that show ?thesis by simp
      qed (subst walk_packets.simps, simp add: that)
      show ?thesis
        using step True IH
        by (subst walk_packets.simps) (auto simp: result_in_iff [where r = "step d offset s"] split: scan_step.split)
    qed (subst walk_packets.simps, simp add: less.prems)
  qed
qed

text \<open>Calls into the shim's library.\<close>

lemma triple_on_shim:
  "(\<And>s. P s \<Longrightarrow> ensures (m (h_shim s)) (\<lambda>(x, shim). Q x (s\<lparr>h_shim := shim\<rparr>))) \<Longrightarrow> triple P (on_shim m) Q J"
  by (fastforce simp: triple_def on_shim_def ensures_iff)

lemma KeysHandle_drop_returns: "KeysHandle_drop h s \<noteq> Panic" "KeysHandle_drop h s \<noteq> Undef"
  by (auto simp: KeysHandle_drop_def rlsm_keys_free_def Let_def rlsm_err_def HandleTable_remove_def split: option.split)

lemma triple_dropping:
  assumes "triple P m Q J" "\<And>x s shim. Q x s \<Longrightarrow> Q x (s\<lparr>h_shim := shim\<rparr>)" "\<And>s shim. J s \<Longrightarrow> J (s\<lparr>h_shim := shim\<rparr>)"
  shows "triple P (dropping h m) Q J"
proof (rule tripleI)
  fix s assume "P s"
  from tripleD [OF assms(1) this] show "result_in Q J (dropping h m s)"
    using assms(2,3)
    by (auto simp: dropping_def result_in_iff [where r = "m s"] KeysHandle_drop_returns split: outcome.split)
qed

text \<open>The suite of the Initial keys is a QUIC suite of TLS 1.3; a new handle denotes fresh keys.\<close>

definition initial_entry :: "suite_api \<Rightarrow> bytes \<Rightarrow> KeysEntry" where
  "initial_entry suite dcid =
     (let ks = Keys_initial suite QuicVersion_V1 dcid Side_Client in
      \<lparr>ke_local = keys_local ks, ke_remote = keys_remote ks, last_local_pn = None\<rparr>)"

lemma initial_keys_fresh:
  assumes "suite_tls13 suite" "suite_quic suite" "length dcid \<le> 20"
  shows "ensures (initial_keys suite Client dcid s)
    (\<lambda>(r, s'). \<forall>h. r = Inr h \<longrightarrow> KEYS_TABLE s' h = Some (initial_entry suite dcid))"
  using assms
  by (auto simp: initial_keys_def rlsm_initial_keys_def Let_def role_to_int_def i32_try_from_def sint_i32_of_usize
      from_raw_parts_Ptr to_quic_version_def QUIC_VERSION_V1_def initial_suite_def initial_entry_def rlsm_err_def
      keys_table_insert_def HandleTable_insert_def split: option.split prod.split)

lemma triple_with_initial_keys:
  assumes suite: "suite_tls13 (w_suite W)" "suite_quic (w_suite W)" "length dcid \<le> 20"
    and P: "\<And>s shim. P s \<Longrightarrow> P (s\<lparr>h_shim := shim\<rparr>)" "\<And>s. P s \<Longrightarrow> J s"
    and body: "\<And>h. triple (\<lambda>s. P s \<and> KEYS_TABLE (h_shim s) h = Some (initial_entry (w_suite W) dcid)) (body h) Q J"
    and Q: "\<And>x s shim. Q x s \<Longrightarrow> Q x (s\<lparr>h_shim := shim\<rparr>)" "\<And>s shim. J s \<Longrightarrow> J (s\<lparr>h_shim := shim\<rparr>)"
  shows "triple P (with_initial_keys W dcid body) Q J"
  unfolding with_initial_keys_def
proof (rule triple_then_do [OF triple_on_shim])
  let ?R = "\<lambda>r s. P s \<and> (\<forall>h. r = Inr h \<longrightarrow> KEYS_TABLE (h_shim s) h = Some (initial_entry (w_suite W) dcid))"
  show "ensures (initial_keys (w_suite W) Client dcid (h_shim s)) (\<lambda>(r, shim). ?R r (s\<lparr>h_shim := shim\<rparr>))" if "P s" for s
    using initial_keys_fresh [OF suite, of "h_shim s"] P(1) [OF that] by (fastforce simp: ensures_iff)
  show "triple (?R r) (then_do (try_with (\<lambda>e. ''client initial_keys failed: rc='' @ dec_i32 (fe_code e)) r)
      (\<lambda>keys. dropping keys (body keys))) Q J" for r
  proof (rule triple_try_do)
    fix h assume "r = Inr h"
    then show "triple (?R r) (dropping h (body h)) Q J"
      by (intro triple_dropping [OF triple_conseq [OF body]] Q) auto
  qed (use P(2) in auto)
qed

lemma triple_open_socket:
  assumes "\<And>s. P s \<Longrightarrow> J s"
  shows "triple P (open_socket W) (\<lambda>t s. P s \<and> t = parse_env_or (w_env W) ''TLS_HANDSHAKE_TIMEOUT_MS'' 500) J"
  unfolding open_socket_def Let_def using assms by (intro triple_intros) auto

end
