(* ===== verification/Harness_Driver.thy ===== *)
theory Harness_Driver
  imports Harness_Env
begin

text \<open>
  The drivers of the conformance client (\<open>conformance/tls-conformance/src/lib.rs\<close>): one
  Initial exchange with a rustls or a raw ClientHello, the multi-epoch handshake, and the
  handshake with an injected CRYPTO frame. A receive loop takes the list of what
  \<open>recv_from\<close> gives it; the packets of a datagram and the pump are loops of the steps below.
\<close>

section \<open>rustls\<close>

definition tls_write_hs :: "('c, 'sec, 'name, 'algs) world \<Rightarrow> (('z, 'c) driver, bytes \<times> 'sec KeyChange option) act" where
  "tls_write_hs W s =
     (case tc_write_hs (w_tls W) (d_conn s) of (out, conn) \<Rightarrow> Some (Ret (Inr out), s\<lparr>d_conn := conn\<rparr>))"

definition tls_scan :: "('c, 'sec, 'name, 'algs) world \<Rightarrow> bytes \<Rightarrow> (('z, 'c) driver, ConnectionClose option) act" where
  "tls_scan W plaintext s =
     (case scan_plaintext_into_rustls (w_tls W) plaintext (d_conn s) of
        (r, conn) \<Rightarrow> Some (try_bind r (\<lambda>scan. Ret (Inr (scan_cc scan))), s\<lparr>d_conn := conn\<rparr>))"

text \<open>The \<open>match kc\<close> at the end of a pump's iteration.\<close>

definition install_keys :: "'sec KeyChange option \<Rightarrow> (('z, 'c) driver, unit) act" where
  "install_keys kc =
     (case kc of
        Some (KeyChange_Handshake keys) \<Rightarrow> modify (\<lambda>s. s\<lparr>d_handshake_keys := Some keys\<rparr>)
      | Some (KeyChange_OneRtt keys _) \<Rightarrow> modify (\<lambda>s. s\<lparr>d_one_rtt_keys := Some keys\<rparr>)
      | None \<Rightarrow> yield ())"

definition send_initial ::
  "('c, 'sec, 'name, 'algs) world \<Rightarrow> string \<Rightarrow> u16 \<Rightarrow> bytes \<Rightarrow> KeysHandle \<Rightarrow> (('z, 'm) harness_scheme, unit) act" where
  "send_initial W msg server crypto_payload initial_keys_h =
     then_do (build_initial crypto_payload initial_keys_h) (\<lambda>pkt. send_to W msg server pkt)"

definition send_handshake ::
  "('c, 'sec, 'name, 'algs) world \<Rightarrow> string \<Rightarrow> u16 \<Rightarrow> bytes \<Rightarrow> bytes \<Rightarrow> bytes \<Rightarrow> keys \<Rightarrow> (('z, 'c) driver, unit) act" where
  "send_handshake W msg server dcid scid crypto_payload hs =
     then_do (gets d_hs_send_pn) (\<lambda>pn.
     then_do (pure (build_handshake_packet (w_debug W) dcid scid pn crypto_payload (keys_local hs))) (\<lambda>r.
     then_do (try_with id r) (\<lambda>pkt.
     then_do (send_to W msg server pkt) (\<lambda>_.
     modify (\<lambda>s. s\<lparr>d_hs_send_pn := d_hs_send_pn s + 1\<rparr>)))))"

definition pump_step ::
  "('c, 'sec, 'name, 'algs) world \<Rightarrow> u16 \<Rightarrow> bytes \<Rightarrow> bytes \<Rightarrow> KeysHandle \<Rightarrow> (('z, 'c) driver, bool) act" where
  "pump_step W server dcid scid initial_keys_h =
     then_do (tls_write_hs W) (\<lambda>(out, kc).
     if out = [] \<and> Option.is_none kc then yield False
     else
       then_do (if out \<noteq> [] then
                  then_do (gets d_handshake_keys) (\<lambda>handshake_keys.
                  then_do (gets d_one_rtt_keys) (\<lambda>one_rtt_keys.
                  case handshake_keys of
                    None \<Rightarrow> send_initial W ''send Initial (pump): '' server out initial_keys_h
                  | Some hs \<Rightarrow>
                      if Option.is_none one_rtt_keys then send_handshake W ''send Handshake: '' server dcid scid out hs
                      else yield ()))
                else yield ()) (\<lambda>_.
       then_do (install_keys kc) (\<lambda>_.
       yield True)))"

definition pump_rustls_write_hs ::
  "('c, 'sec, 'name, 'algs) world \<Rightarrow> u16 \<Rightarrow> bytes \<Rightarrow> bytes \<Rightarrow> KeysHandle \<Rightarrow> (('z, 'c) driver, unit) act" where
  "pump_rustls_write_hs W server dcid scid initial_keys_h = loop_while (pump_step W server dcid scid initial_keys_h)"

definition discarding_step ::
  "('c, 'sec, 'name, 'algs) world \<Rightarrow> u16 \<Rightarrow> KeysHandle \<Rightarrow> (('z, 'c) driver, bool) act" where
  "discarding_step W server initial_keys_h =
     then_do (tls_write_hs W) (\<lambda>(out, kc).
     if out = [] \<and> Option.is_none kc then yield False
     else
       then_do (if out \<noteq> [] then
                  then_do (gets d_handshake_keys) (\<lambda>handshake_keys.
                  if Option.is_none handshake_keys
                  then send_initial W ''send Initial (pump-discarding): '' server out initial_keys_h
                  else yield ())
                else yield ()) (\<lambda>_.
       then_do (install_keys kc) (\<lambda>_.
       yield True)))"

definition pump_rustls_write_hs_discarding_finished ::
  "('c, 'sec, 'name, 'algs) world \<Rightarrow> u16 \<Rightarrow> KeysHandle \<Rightarrow> (('z, 'c) driver, unit) act" where
  "pump_rustls_write_hs_discarding_finished W server initial_keys_h = loop_while (discarding_step W server initial_keys_h)"

section \<open>Packets of a datagram\<close>

definition open_initial :: "bytes \<Rightarrow> LongHeader \<Rightarrow> KeysHandle \<Rightarrow> (('z, 'm) harness_scheme, string + bytes) act" where
  "open_initial pkt header keys = on_shim (decrypt_initial_inplace pkt header keys)"

text \<open>
  The start of an iteration: the rest of the datagram, \<open>None\<close> when it holds no long header
  and the walk stops, else the header and the packet it delimits.
\<close>

definition cut_packet :: "string \<Rightarrow> bytes \<Rightarrow> nat \<Rightarrow> ('s, (LongHeader \<times> bytes) option) act" where
  "cut_packet malformed datagram offset =
     then_do (pure (slice_from offset datagram)) (\<lambda>rest.
     if rest = [] \<or> rest ! 0 AND 0x80 = 0 then yield None
     else
       then_do (pure (parse_long_header rest)) (\<lambda>h.
       case h of
         None \<Rightarrow> throw malformed
       | Some header \<Rightarrow>
           let pkt_len = lh_payload_offset header + lh_length header in
           if length rest < pkt_len then
             throw (''coalesced packet truncated: need '' @ dec_nat pkt_len @ '' bytes, have '' @ dec_nat (length rest))
           else
             then_do (pure (slice_range 0 pkt_len rest)) (\<lambda>pkt.
             yield (Some (header, pkt)))))"

text \<open>After the packet: the CONNECTION_CLOSE if one was found, else the next offset.\<close>

definition or_next :: "nat \<Rightarrow> ConnectionClose option \<Rightarrow> scan_step" where
  "or_next offset cc = (case cc of Some cc \<Rightarrow> Close cc | None \<Rightarrow> Next offset)"

text \<open>The payload of a Handshake packet; the keys may still be in the TLS stack, which is pumped first.\<close>

definition open_handshake ::
  "('c, 'sec, 'name, 'algs) world \<Rightarrow> (('z, 'c) driver, unit) act \<Rightarrow> bytes \<Rightarrow> LongHeader \<Rightarrow> (('z, 'c) driver, string + bytes) act" where
  "open_handshake W pump pkt header =
     then_do (gets d_handshake_keys) (\<lambda>handshake_keys.
     then_do (if Option.is_none handshake_keys then pump else yield ()) (\<lambda>_.
     then_do (gets d_handshake_keys) (\<lambda>handshake_keys.
     case handshake_keys of
       None \<Rightarrow> throw ''server sent Handshake before we received KeyChange::Handshake''
     | Some keys \<Rightarrow> pure (decrypt_long_with_rustls (w_debug W) pkt header (keys_remote keys)))))"

definition feed_plaintext ::
  "('c, 'sec, 'name, 'algs) world \<Rightarrow> nat \<Rightarrow> bytes \<Rightarrow> (('z, 'c) driver, scan_step) act" where
  "feed_plaintext W offset plaintext = then_do (tls_scan W plaintext) (\<lambda>cc. yield (or_next offset cc))"

text \<open>
  The packet of the handshake loops of \<open>drive_handshake_full_inner\<close> and
  \<open>drive_handshake_with_injection_inner\<close>, which differ in the \<open>pump\<close> they call when a Handshake
  packet comes before its keys.
\<close>

definition handshake_packet ::
  "('c, 'sec, 'name, 'algs) world \<Rightarrow> KeysHandle \<Rightarrow> (('z, 'c) driver, unit) act \<Rightarrow> bytes \<Rightarrow> nat \<Rightarrow> (('z, 'c) driver, scan_step) act" where
  "handshake_packet W initial_keys_h pump datagram offset =
     then_do (cut_packet ''malformed long header'' datagram offset) (\<lambda>p.
     case p of
       None \<Rightarrow> yield Stop
     | Some (header, pkt) \<Rightarrow>
         let pkt_len = lh_payload_offset header + lh_length header in
         if lh_packet_type header \<noteq> 0 \<and> lh_packet_type header \<noteq> 2 then yield (Next (offset + pkt_len))
         else
           then_do (if lh_packet_type header = 0 then open_initial pkt header initial_keys_h
                    else open_handshake W pump pkt header) (\<lambda>r.
           then_do (try_with id r) (\<lambda>plaintext.
           feed_plaintext W (offset + pkt_len) plaintext)))"

text \<open>
  The packets of the two drain loops, which differ in the message for a malformed header: a
  packet that does not open is passed over, one that does not fit ends the datagram.
\<close>

definition drain_short ::
  "('c, 'sec, 'name, 'algs) world \<Rightarrow> bytes \<Rightarrow> bytes \<Rightarrow> (('z, 'c) driver, scan_step) act" where
  "drain_short W scid rest =
     then_do (gets d_one_rtt_keys) (\<lambda>one_rtt_keys.
     case one_rtt_keys of
       None \<Rightarrow> yield Stop
     | Some keys \<Rightarrow>
         then_do (pure (decrypt_short_with_rustls (w_debug W) rest (length scid) (keys_remote keys))) (\<lambda>r.
         case r of
           Inl _ \<Rightarrow> yield Stop
         | Inr plaintext \<Rightarrow>
             then_do (tls_scan W plaintext) (\<lambda>cc.
             yield (case cc of Some cc \<Rightarrow> Close cc | None \<Rightarrow> Stop))))"

definition drain_open ::
  "('c, 'sec, 'name, 'algs) world \<Rightarrow> KeysHandle \<Rightarrow> bytes \<Rightarrow> LongHeader \<Rightarrow> (('z, 'c) driver, string + bytes) act" where
  "drain_open W initial_keys_h pkt header =
     (if lh_packet_type header = 0 then open_initial pkt header initial_keys_h
      else
        then_do (gets d_handshake_keys) (\<lambda>handshake_keys.
        case handshake_keys of
          Some hk \<Rightarrow> pure (decrypt_long_with_rustls (w_debug W) pkt header (keys_remote hk))
        | None \<Rightarrow> yield (Inl ''late Handshake but no handshake keys'')))"

definition drain_packet ::
  "('c, 'sec, 'name, 'algs) world \<Rightarrow> string \<Rightarrow> bytes \<Rightarrow> KeysHandle \<Rightarrow> bytes \<Rightarrow> nat \<Rightarrow> (('z, 'c) driver, scan_step) act" where
  "drain_packet W malformed scid initial_keys_h datagram offset =
     then_do (pure (slice_from offset datagram)) (\<lambda>rest.
     if rest = [] then yield Stop
     else if rest ! 0 AND 0x80 = 0 then drain_short W scid rest
     else
       then_do (pure (parse_long_header rest)) (\<lambda>h.
       case h of
         None \<Rightarrow> throw malformed
       | Some header \<Rightarrow>
           let pkt_len = lh_payload_offset header + lh_length header in
           if length rest < pkt_len then yield Stop
           else
             then_do (pure (slice_range 0 pkt_len rest)) (\<lambda>pkt.
             if lh_packet_type header \<noteq> 0 \<and> lh_packet_type header \<noteq> 2 then yield (Next (offset + pkt_len))
             else
               then_do (drain_open W initial_keys_h pkt header) (\<lambda>plaintext_res.
               case plaintext_res of
                 Inr plaintext \<Rightarrow> feed_plaintext W (offset + pkt_len) plaintext
               | Inl _ \<Rightarrow> yield (Next (offset + pkt_len))))))"

section \<open>Receive loops\<close>

definition RECV_BUF :: nat where
  "RECV_BUF = 4096"

fun drain_loop ::
  "('c, 'sec, 'name, 'algs) world \<Rightarrow> string \<Rightarrow> bytes \<Rightarrow> KeysHandle \<Rightarrow> recv_event list \<Rightarrow> (('z, 'c) driver, ConnectionClose option) act" where
  "drain_loop W malformed scid initial_keys_h [] = yield None"
| "drain_loop W malformed scid initial_keys_h (e # es) =
     (case e of
        Timed_out _ \<Rightarrow> drain_loop W malformed scid initial_keys_h es
      | Recv_error _ \<Rightarrow> yield None
      | Datagram d \<Rightarrow>
          then_do (walk_packets (drain_packet W malformed scid initial_keys_h) (take RECV_BUF d) 0) (\<lambda>cc.
          if cc \<noteq> None then yield cc
          else drain_loop W malformed scid initial_keys_h es))"

fun full_loop ::
  "('c, 'sec, 'name, 'algs) world \<Rightarrow> KeysHandle \<Rightarrow> (('z, 'c) driver, unit) act \<Rightarrow> recv_event list \<Rightarrow>
   (('z, 'c) driver, ConnectionClose option) act" where
  "full_loop W initial_keys_h pump [] = yield None"
| "full_loop W initial_keys_h pump (e # es) =
     then_do (gets (\<lambda>s. tc_is_handshaking (w_tls W) (d_conn s))) (\<lambda>handshaking.
     if \<not> handshaking then yield None
     else case e of
       Timed_out _ \<Rightarrow> yield None
     | Recv_error e \<Rightarrow> throw (''recv_from: '' @ e)
     | Datagram d \<Rightarrow>
         then_do (walk_packets (handshake_packet W initial_keys_h pump) (take RECV_BUF d) 0) (\<lambda>cc.
         if cc \<noteq> None then yield cc
         else
           then_do pump (\<lambda>_.
           full_loop W initial_keys_h pump es)))"

section \<open>Injection\<close>

datatype InjectionEpoch = InjectionEpoch_Handshake | InjectionEpoch_OneRtt

record Injection =
  inj_epoch :: InjectionEpoch
  inj_bytes :: bytes

definition inject_now ::
  "('c, 'sec, 'name, 'algs) world \<Rightarrow> Injection \<Rightarrow> u16 \<Rightarrow> bytes \<Rightarrow> bytes \<Rightarrow> (('z, 'c) driver, unit) act" where
  "inject_now W injection server dcid scid =
     (case inj_epoch injection of
        InjectionEpoch_Handshake \<Rightarrow>
          then_do (gets d_handshake_keys) (\<lambda>handshake_keys.
          case handshake_keys of
            None \<Rightarrow> throw ''Handshake injection requested before Handshake keys materialised''
          | Some hs \<Rightarrow> send_handshake W ''send Handshake injection: '' server dcid scid (inj_bytes injection) hs)
      | InjectionEpoch_OneRtt \<Rightarrow>
          then_do (gets d_one_rtt_keys) (\<lambda>one_rtt_keys.
          case one_rtt_keys of
            None \<Rightarrow> throw ''1-RTT injection requested before 1-RTT keys materialised''
          | Some or_keys \<Rightarrow>
              then_do (pure (encode_crypto_frame 0 (inj_bytes injection))) (\<lambda>frame.
              then_do (gets d_one_rtt_send_pn) (\<lambda>pn.
              then_do (pure (build_short_header_crypto_packet (w_debug W) dcid pn frame (keys_local or_keys))) (\<lambda>r.
              then_do (try_with id r) (\<lambda>pkt.
              then_do (send_to W ''send 1-RTT injection: '' server pkt) (\<lambda>_.
              modify (\<lambda>s. s\<lparr>d_one_rtt_send_pn := d_one_rtt_send_pn s + 1\<rparr>))))))))"

text \<open>\<open>inject_now(..)?; injected = true;\<close>\<close>

definition inject_once ::
  "('c, 'sec, 'name, 'algs) world \<Rightarrow> Injection \<Rightarrow> u16 \<Rightarrow> bytes \<Rightarrow> bytes \<Rightarrow> (('z, 'c) driver, unit) act" where
  "inject_once W injection server dcid scid =
     then_do (inject_now W injection server dcid scid) (\<lambda>_.
     modify (\<lambda>s. s\<lparr>d_injected := True\<rparr>))"

text \<open>\<open>if cond { inject_now(..)?; injected = true; }\<close> where the condition has \<open>!injected\<close>.\<close>

definition inject_when ::
  "(('z, 'c) driver \<Rightarrow> bool) \<Rightarrow> ('c, 'sec, 'name, 'algs) world \<Rightarrow> Injection \<Rightarrow> u16 \<Rightarrow> bytes \<Rightarrow> bytes \<Rightarrow> (('z, 'c) driver, unit) act" where
  "inject_when ready W injection server dcid scid =
     then_do (gets (\<lambda>s. \<not> d_injected s \<and> ready s)) (\<lambda>now.
     if now then inject_once W injection server dcid scid else yield ())"

definition injection_pump ::
  "('c, 'sec, 'name, 'algs) world \<Rightarrow> Injection \<Rightarrow> u16 \<Rightarrow> bytes \<Rightarrow> bytes \<Rightarrow> KeysHandle \<Rightarrow> (('z, 'c) driver, unit) act" where
  "injection_pump W injection server dcid scid initial_keys_h =
     (case inj_epoch injection of
        InjectionEpoch_Handshake \<Rightarrow> pump_rustls_write_hs_discarding_finished W server initial_keys_h
      | InjectionEpoch_OneRtt \<Rightarrow> pump_rustls_write_hs W server dcid scid initial_keys_h)"

definition injection_ready :: "Injection \<Rightarrow> ('z, 'c) driver \<Rightarrow> bool" where
  "injection_ready injection s =
     (case inj_epoch injection of
        InjectionEpoch_Handshake \<Rightarrow> \<not> Option.is_none (d_handshake_keys s)
      | InjectionEpoch_OneRtt \<Rightarrow> \<not> Option.is_none (d_one_rtt_keys s))"

fun injection_loop ::
  "('c, 'sec, 'name, 'algs) world \<Rightarrow> Injection \<Rightarrow> u16 \<Rightarrow> bytes \<Rightarrow> bytes \<Rightarrow> KeysHandle \<Rightarrow> recv_event list \<Rightarrow>
   (('z, 'c) driver, ConnectionClose option) act" where
  "injection_loop W injection server dcid scid initial_keys_h [] = yield None"
| "injection_loop W injection server dcid scid initial_keys_h (e # es) =
     then_do (gets (\<lambda>s. \<not> tc_is_handshaking (w_tls W) (d_conn s) \<and> d_injected s)) (\<lambda>leave.
     if leave then yield None
     else case e of
       Timed_out _ \<Rightarrow>
         then_do (inject_when (\<lambda>s. \<not> Option.is_none (d_handshake_keys s)) W injection server dcid scid) (\<lambda>_.
         injection_loop W injection server dcid scid initial_keys_h es)
     | Recv_error e \<Rightarrow> throw (''recv_from: '' @ e)
     | Datagram d \<Rightarrow>
         then_do (walk_packets (handshake_packet W initial_keys_h (injection_pump W injection server dcid scid initial_keys_h))
                    (take RECV_BUF d) 0) (\<lambda>cc.
         if cc \<noteq> None then yield cc
         else
           then_do (injection_pump W injection server dcid scid initial_keys_h) (\<lambda>_.
           then_do (inject_when (injection_ready injection) W injection server dcid scid) (\<lambda>_.
           injection_loop W injection server dcid scid initial_keys_h es))))"

section \<open>Drivers\<close>

text \<open>
  A driver returns its result, the datagrams it sent and the state of the shim's library.
  The handshake and the drain loop have their own lists of received events.
\<close>

type_synonym 'z drive_result =
  "((string + ConnectionClose option) outcome \<times> (u16 \<times> bytes) list \<times> 'z keys_shim_scheme) option"

definition finish :: "(('z, 'm) harness_scheme, ConnectionClose option) act \<Rightarrow> ('z, 'm) harness_scheme \<Rightarrow> 'z drive_result" where
  "finish m s = map_option (\<lambda>(r, s). (r, h_sent s, h_shim s)) (m s)"

definition new_driver :: "'c \<Rightarrow> PacketBuilder \<Rightarrow> 'z keys_shim_scheme \<Rightarrow> ('z, 'c) driver" where
  "new_driver conn builder shim =
     \<lparr>h_builder = builder, h_sent = [], h_shim = shim, d_conn = conn, d_handshake_keys = None, d_one_rtt_keys = None,
      d_hs_send_pn = 0, d_one_rtt_send_pn = 0, d_injected = False\<rparr>"

text \<open>The rustls connection to \<open>localhost\<close> and the body that uses it.\<close>

definition with_connection ::
  "('c, 'sec, 'name, 'algs) world \<Rightarrow> 'algs harness_config \<Rightarrow> bytes \<Rightarrow> 'z keys_shim_scheme \<Rightarrow> ('c \<Rightarrow> 'z drive_result) \<Rightarrow>
   'z drive_result" where
  "with_connection W config tp_bytes shim body =
     (case w_server_name W ''localhost'' of
        Inl e \<Rightarrow> Some (Ret (Inl (''invalid server name: '' @ e)), [], shim)
      | Inr server_name \<Rightarrow>
          (case w_connect W config QuicVersion_V1 server_name tp_bytes of
             Inl e \<Rightarrow> Some (Ret (Inl (''ClientConnection::new failed: '' @ e)), [], shim)
           | Inr conn \<Rightarrow> body conn))"

definition with_alpn ::
  "('c, 'sec, 'name, 'algs) world \<Rightarrow> bytes list \<Rightarrow> 'z keys_shim_scheme \<Rightarrow> ('algs harness_config \<Rightarrow> 'z drive_result) \<Rightarrow> 'z drive_result" where
  "with_alpn W alpn shim body =
     (case build_quic_client_config_with_alpn W alpn of
        Ret config \<Rightarrow> body config
      | Panic \<Rightarrow> Some (Panic, [], shim) | Undef \<Rightarrow> Some (Undef, [], shim))"

definition H3 :: bytes where
  "H3 = [0x68, 0x33]"

text \<open>\<open>write_hs\<close> for the ClientHello.\<close>

definition take_client_hello :: "('c, 'sec, 'name, 'algs) world \<Rightarrow> (('z, 'c) driver, bytes) act" where
  "take_client_hello W =
     then_do (tls_write_hs W) (\<lambda>(crypto_buf, kc).
     if crypto_buf = [] then throw ''rustls produced no ClientHello bytes''
     else if \<not> Option.is_none kc then throw ''unexpected KeyChange before sending ClientHello''
     else yield crypto_buf)"

text \<open>A product of \<open>u64\<close> that panics on overflow, as in a build with overflow checks.\<close>

definition u64_mul :: "u64 \<Rightarrow> u64 \<Rightarrow> u64 outcome" where
  "u64_mul a b = (if unat a * unat b < 2 ^ 64 then Ret (a * b) else Panic)"

subsection \<open>One Initial exchange\<close>

definition open_initial_reply ::
  "bytes \<Rightarrow> KeysHandle \<Rightarrow> 'z keys_shim_scheme \<Rightarrow> ((string + bytes) \<times> 'z keys_shim_scheme) outcome" where
  "open_initial_reply reply keys s =
     obind (parse_long_header reply) (\<lambda>h.
     case h of
       None \<Rightarrow> Ret (Inl ''server reply did not parse as a long-header packet'', s)
     | Some header \<Rightarrow>
         if lh_packet_type header \<noteq> 0 then
           Ret (Inl (''expected server Initial (packet_type=0), got '' @ dec_nat (unat (lh_packet_type header))), s)
         else
           let pn_offset = lh_payload_offset header;
               sample_off = pn_offset + 4 in
           if length reply < sample_off + 16 then
             Ret (Inl (''reply too short for HP sample: need '' @ dec_nat (sample_off + 16)
               @ '', got '' @ dec_nat (length reply)), s)
           else
             obind (slice_range sample_off (sample_off + 16) reply) (\<lambda>sample.
             obind (split_at pn_offset reply) (\<lambda>(head, rest).
             obind (index head 0) (\<lambda>first_byte.
             obind (slice_range 0 4 rest) (\<lambda>pn_bytes.
             obind (remote_header_unprotect keys sample first_byte pn_bytes s) (\<lambda>((r, first_byte, pn_bytes), s).
             case r of
               Inl e \<Rightarrow> Ret (Inl (''HP unprotect failed: rc='' @ dec_i32 (fe_code e)), s)
             | Inr _ \<Rightarrow>
                 let rest = pn_bytes @ drop 4 rest;
                     pn_length = unat ((first_byte AND 0x03) + 1) in
                 obind (slice_range 0 pn_length rest) (\<lambda>pn_bytes.
                 let pn = read_pn pn_bytes;
                     reply = head[0 := first_byte] @ rest;
                     header_len = pn_offset + pn_length in
                 obind (slice_range 0 header_len reply) (\<lambda>header_bytes.
                 let fin = pn_offset + lh_length header in
                 if length reply < fin then
                   Ret (Inl (''reply truncated: payload end '' @ dec_nat fin @ '' > len '' @ dec_nat (length reply)), s)
                 else
                   obind (slice_range header_len fin reply) (\<lambda>payload.
                   obind (remote_decrypt keys pn header_bytes payload s) (\<lambda>((r, payload), s).
                   case r of
                     Inl e \<Rightarrow> Ret (Inl (''AEAD decrypt failed: rc='' @ dec_i32 (fe_code e)), s)
                   | Inr pt_len \<Rightarrow>
                       let reply = take header_len reply @ payload @ drop fin reply in
                       obind (slice_range header_len (header_len + pt_len) reply) (\<lambda>plaintext.
                       Ret (Inr plaintext, s))))))))))))"

text \<open>Binds the socket, sends the packet and receives one datagram into a buffer of the given size.\<close>

definition exchange ::
  "('c, 'sec, 'name, 'algs) world \<Rightarrow> recv_event \<Rightarrow> nat \<Rightarrow> bytes \<Rightarrow> (('z, 'm) harness_scheme, bytes) act" where
  "exchange W event cap pkt =
     then_do (open_socket W) (\<lambda>_.
     let server = server_addr (w_env W) in
     then_do (send_to W (''send_to 127.0.0.1:'' @ dec_nat (unat server) @ '': '') server pkt) (\<lambda>_.
     case event of
       Datagram d \<Rightarrow> yield (take cap d)
     | Timed_out e \<Rightarrow> throw (''recv_from timed out or failed: '' @ e)
     | Recv_error e \<Rightarrow> throw (''recv_from timed out or failed: '' @ e)))"

definition drive_handshake_initial_inner ::
  "('c, 'sec, 'name, 'algs) world \<Rightarrow> recv_event \<Rightarrow> PacketBuilder \<Rightarrow> bytes \<Rightarrow> 'algs harness_config \<Rightarrow> 'z keys_shim_scheme \<Rightarrow>
   'z drive_result" where
  "drive_handshake_initial_inner W event builder tp_bytes config shim =
     with_connection W config tp_bytes shim (\<lambda>conn.
     finish
       (then_do (take_client_hello W) (\<lambda>crypto_buf.
        with_initial_keys W (pb_dcid builder) (\<lambda>client_keys.
        then_do (build_initial crypto_buf client_keys) (\<lambda>pkt.
        then_do (exchange W event 2048 pkt) (\<lambda>reply.
        then_do (on_shim (open_initial_reply reply client_keys)) (\<lambda>r.
        then_do (try_with id r) (\<lambda>plaintext.
        then_do (pure (initial_scan plaintext 0)) (\<lambda>r.
        try_with id r))))))))
       (new_driver conn builder shim))"

definition drive_handshake_initial ::
  "('c, 'sec, 'name, 'algs) world \<Rightarrow> recv_event \<Rightarrow> PacketBuilder \<Rightarrow> bytes \<Rightarrow> 'z keys_shim_scheme \<Rightarrow> 'z drive_result" where
  "drive_handshake_initial W event builder tp_bytes shim =
     with_alpn W [H3] shim (\<lambda>config. drive_handshake_initial_inner W event builder tp_bytes config shim)"

definition drive_handshake_initial_no_alpn ::
  "('c, 'sec, 'name, 'algs) world \<Rightarrow> recv_event \<Rightarrow> PacketBuilder \<Rightarrow> bytes \<Rightarrow> 'z keys_shim_scheme \<Rightarrow> 'z drive_result" where
  "drive_handshake_initial_no_alpn W event builder tp_bytes shim =
     with_alpn W [] shim (\<lambda>config. drive_handshake_initial_inner W event builder tp_bytes config shim)"

definition raw_packet :: "KeysHandle \<Rightarrow> bytes \<Rightarrow> nat \<Rightarrow> (('z, 'm) harness_scheme, scan_step) act" where
  "raw_packet client_keys reply offset =
     then_do (cut_packet ''server reply did not parse as a long-header packet'' reply offset) (\<lambda>p.
     case p of
       None \<Rightarrow> yield Stop
     | Some (header, pkt) \<Rightarrow>
         let pkt_len = lh_payload_offset header + lh_length header in
         if lh_packet_type header \<noteq> 0 then yield (Next (offset + pkt_len))
         else
           then_do (open_initial pkt header client_keys) (\<lambda>r.
           then_do (try_with id r) (\<lambda>plaintext.
           then_do (pure (scan_initial_plaintext_for_cc plaintext)) (\<lambda>r.
           then_do (try_with id r) (\<lambda>cc.
           yield (or_next (offset + pkt_len) cc))))))"

definition drive_handshake_with_raw_clienthello ::
  "('c, 'sec, 'name, 'algs) world \<Rightarrow> recv_event \<Rightarrow> PacketBuilder \<Rightarrow> bytes \<Rightarrow> 'z keys_shim_scheme \<Rightarrow> 'z drive_result" where
  "drive_handshake_with_raw_clienthello W event builder ch_bytes shim =
     (if ch_bytes = [] then Some (Ret (Inl ''ch_bytes must be non-empty''), [], shim)
      else
        finish
          (with_initial_keys W (pb_dcid builder) (\<lambda>client_keys.
           then_do (build_initial ch_bytes client_keys) (\<lambda>pkt.
           then_do (exchange W event RECV_BUF pkt) (\<lambda>reply.
           walk_packets (raw_packet client_keys) reply 0))))
          \<lparr>h_builder = builder, h_sent = [], h_shim = shim\<rparr>)"

subsection \<open>The multi-epoch drivers\<close>

text \<open>The start the two drivers share: the socket, the ClientHello and the deadline.\<close>

definition send_hello :: "('c, 'sec, 'name, 'algs) world \<Rightarrow> u16 \<Rightarrow> KeysHandle \<Rightarrow> (('z, 'c) driver, unit) act" where
  "send_hello W server initial_keys_h =
     then_do (open_socket W) (\<lambda>timeout_ms.
     then_do (take_client_hello W) (\<lambda>crypto_buf.
     then_do (send_initial W ''send Initial: '' server crypto_buf initial_keys_h) (\<lambda>_.
     then_do (pure (u64_mul timeout_ms 4)) (\<lambda>_.
     yield ()))))"

definition drive_handshake_full_inner ::
  "('c, 'sec, 'name, 'algs) world \<Rightarrow> recv_event list \<Rightarrow> recv_event list \<Rightarrow> PacketBuilder \<Rightarrow> bytes \<Rightarrow> 'algs harness_config \<Rightarrow>
   'z keys_shim_scheme \<Rightarrow> 'z drive_result" where
  "drive_handshake_full_inner W events drain builder tp_bytes config shim =
     with_connection W config tp_bytes shim (\<lambda>conn.
     let dcid = pb_dcid builder; scid = pb_scid builder; server = server_addr (w_env W) in
     finish
       (with_initial_keys W dcid (\<lambda>initial_keys_h.
        then_do (send_hello W server initial_keys_h) (\<lambda>_.
        then_do (full_loop W initial_keys_h (pump_rustls_write_hs W server dcid scid initial_keys_h) events) (\<lambda>cc.
        if cc \<noteq> None then yield cc
        else drain_loop W ''malformed long header in 1-RTT drain'' scid initial_keys_h drain))))
       (new_driver conn builder shim))"

definition drive_handshake_full ::
  "('c, 'sec, 'name, 'algs) world \<Rightarrow> recv_event list \<Rightarrow> recv_event list \<Rightarrow> PacketBuilder \<Rightarrow> bytes \<Rightarrow> 'z keys_shim_scheme \<Rightarrow>
   'z drive_result" where
  "drive_handshake_full W events drain builder tp_bytes shim =
     with_alpn W [H3] shim (\<lambda>config. drive_handshake_full_inner W events drain builder tp_bytes config shim)"

definition drive_handshake_with_injection_inner ::
  "('c, 'sec, 'name, 'algs) world \<Rightarrow> recv_event list \<Rightarrow> recv_event list \<Rightarrow> PacketBuilder \<Rightarrow> bytes \<Rightarrow> Injection \<Rightarrow>
   'algs harness_config \<Rightarrow> 'z keys_shim_scheme \<Rightarrow> 'z drive_result" where
  "drive_handshake_with_injection_inner W events drain builder tp_bytes injection config shim =
     with_connection W config tp_bytes shim (\<lambda>conn.
     let dcid = pb_dcid builder; scid = pb_scid builder; server = server_addr (w_env W) in
     finish
       (with_initial_keys W dcid (\<lambda>initial_keys_h.
        then_do (send_hello W server initial_keys_h) (\<lambda>_.
        then_do (injection_loop W injection server dcid scid initial_keys_h events) (\<lambda>cc.
        if cc \<noteq> None then yield cc
        else drain_loop W ''malformed long header in drain'' scid initial_keys_h drain))))
       (new_driver conn builder shim))"

definition drive_handshake_with_injection ::
  "('c, 'sec, 'name, 'algs) world \<Rightarrow> recv_event list \<Rightarrow> recv_event list \<Rightarrow> PacketBuilder \<Rightarrow> bytes \<Rightarrow> Injection \<Rightarrow>
   'z keys_shim_scheme \<Rightarrow> 'z drive_result" where
  "drive_handshake_with_injection W events drain builder tp_bytes injection shim =
     (if length (inj_bytes injection) > 1100 then
        Some (Ret (Inl (''injection bytes exceed Handshake MTU; got '' @ dec_nat (length (inj_bytes injection)) @ '' bytes'')), [], shim)
      else
        with_alpn W [H3] shim (\<lambda>config.
          drive_handshake_with_injection_inner W events drain builder tp_bytes injection config shim))"

end
