(* ===== verification/Harness_Runs.thy ===== *)
theory Harness_Runs
  imports Harness_Driver
begin

text \<open>
  Every run of the multi-epoch drivers, whatever the server sends: it returns without a
  panic, and the datagrams it has sent can be accounted for packet by packet. The account is
  an invariant of the pumps, the packet walks and the receive loops, proved with the triples
  of \<open>Harness_Env\<close>.
\<close>

section \<open>What the drivers rely on about the TLS stack\<close>

text \<open>Keys that seal and mask, and open without leaving their slices.\<close>

definition wf_keys :: "keys \<Rightarrow> bool" where
  "wf_keys ks \<longleftrightarrow> (\<exists>rx. paired (keys_local ks) rx)
     \<and> wf_packet_key (dk_packet (keys_remote ks)) \<and> wf_header_key (dk_header (keys_remote ks))"

text \<open>
  A flight fits an Initial packet, the keys reported are well formed, and the connection has
  a budget of flights and key changes: one that produces something spends of it, and reading
  does not add to it.
\<close>

definition quiet :: "('c, 'sec) tls_client \<Rightarrow> ('c \<Rightarrow> nat) \<Rightarrow> bool" where
  "quiet tls budget \<longleftrightarrow>
     (\<forall>c out kc c'. tc_write_hs tls c = ((out, kc), c') \<longrightarrow>
        length out \<le> 16000 \<and> budget c' \<le> budget c \<and> (out \<noteq> [] \<or> kc \<noteq> None \<longrightarrow> budget c' < budget c)
      \<and> (\<forall>ks. kc = Some (KeyChange_Handshake ks) \<longrightarrow> wf_keys ks)
      \<and> (\<forall>ks nxt. kc = Some (KeyChange_OneRtt ks nxt) \<longrightarrow> wf_keys ks))
   \<and> (\<forall>d c e c'. tc_read_hs tls d c = (e, c') \<longrightarrow> budget c' \<le> budget c)"

text \<open>The suite has QUIC keys, which are well formed, and the provider supports TLS 1.3.\<close>

definition initial_of :: "('c, 'sec, 'name, 'algs) world \<Rightarrow> bytes \<Rightarrow> keys" where
  "initial_of W dcid = Keys_initial (w_suite W) QuicVersion_V1 dcid Side_Client"

definition sane :: "('c, 'sec, 'name, 'algs) world \<Rightarrow> ('c \<Rightarrow> nat) \<Rightarrow> bool" where
  "sane W budget \<longleftrightarrow> suite_tls13 (w_suite W) \<and> suite_quic (w_suite W) \<and> (\<forall>dcid. wf_keys (initial_of W dcid))
     \<and> (\<exists>config. w_tls13_builder W \<lparr>any_provider = w_provider W\<rparr> = Inr config) \<and> quiet (w_tls W) budget"

section \<open>The account of a run\<close>

datatype label = Initial_pkt u64 bytes | Handshake_pkt u64 bytes | OneRtt_pkt u64 bytes

text \<open>Keys the connection has reported.\<close>

definition reports_handshake :: "('c, 'sec, 'name, 'algs) world \<Rightarrow> keys \<Rightarrow> bool" where
  "reports_handshake W ks \<longleftrightarrow> (\<exists>c out c'. tc_write_hs (w_tls W) c = ((out, Some (KeyChange_Handshake ks)), c'))"

definition reports_one_rtt :: "('c, 'sec, 'name, 'algs) world \<Rightarrow> keys \<Rightarrow> bool" where
  "reports_one_rtt W ks \<longleftrightarrow> (\<exists>c out nxt c'. tc_write_hs (w_tls W) c = ((out, Some (KeyChange_OneRtt ks nxt)), c'))"

text \<open>
  A packet with the given number and CRYPTO data, sealed under the keys of its epoch: the
  Initial keys of the destination ID, or keys that the connection reported.
\<close>

fun carries :: "('c, 'sec, 'name, 'algs) world \<Rightarrow> bytes \<Rightarrow> bytes \<Rightarrow> label \<Rightarrow> bytes \<Rightarrow> bool" where
  "carries W dcid scid (Initial_pkt pn d) pkt \<longleftrightarrow>
     (let self = \<lparr>pb_dcid = dcid, pb_scid = scid, pb_packet_number = pn\<rparr>;
          qp = long_payload d (long_pad self True d) in
      protected (keys_local (initial_of W dcid)) pn (long_first 0)
        (long_body self True (length_field True (4 + length qp + 16))) (to_be_bytes (ucast pn :: u32)) qp pkt)"
| "carries W dcid scid (Handshake_pkt pn d) pkt \<longleftrightarrow>
     (\<exists>ks. reports_handshake W ks \<and> build_handshake_packet (w_debug W) dcid scid pn d (keys_local ks) = Ret (Inr pkt))"
| "carries W dcid scid (OneRtt_pkt pn d) pkt \<longleftrightarrow>
     (\<exists>ks. reports_one_rtt W ks
       \<and> build_short_header_crypto_packet (w_debug W) dcid pn (crypto_frame 0 d) (keys_local ks) = Ret (Inr pkt))"

text \<open>What a run may send, by mode: the plain handshake, or an injection.\<close>

definition initial_numbers :: "label list \<Rightarrow> u64 list" where
  "initial_numbers ls = concat (map (\<lambda>l. case l of Initial_pkt pn _ \<Rightarrow> [pn] | _ \<Rightarrow> []) ls)"

definition handshake_data :: "label list \<Rightarrow> (u64 \<times> bytes) list" where
  "handshake_data ls = concat (map (\<lambda>l. case l of Handshake_pkt pn d \<Rightarrow> [(pn, d)] | _ \<Rightarrow> []) ls)"

definition one_rtt_data :: "label list \<Rightarrow> (u64 \<times> bytes) list" where
  "one_rtt_data ls = concat (map (\<lambda>l. case l of OneRtt_pkt pn d \<Rightarrow> [(pn, d)] | _ \<Rightarrow> []) ls)"

text \<open>Packet numbers that count up from a first one.\<close>

definition counts_from :: "u64 \<Rightarrow> u64 list \<Rightarrow> bool" where
  "counts_from p ns \<longleftrightarrow> ns = map (\<lambda>i. p + word_of_nat i) [0..<length ns]"

fun allowed :: "Injection option \<Rightarrow> label list \<Rightarrow> bool" where
  "allowed None ls \<longleftrightarrow> counts_from 0 (map fst (handshake_data ls)) \<and> one_rtt_data ls = []"
| "allowed (Some injection) ls \<longleftrightarrow>
     (case inj_epoch injection of
        InjectionEpoch_Handshake \<Rightarrow> handshake_data ls \<in> {[], [(0, inj_bytes injection)]} \<and> one_rtt_data ls = []
      | InjectionEpoch_OneRtt \<Rightarrow>
          counts_from 0 (map fst (handshake_data ls)) \<and> one_rtt_data ls \<in> {[], [(0, inj_bytes injection)]})"

definition accounted ::
  "('c, 'sec, 'name, 'algs) world \<Rightarrow> Injection option \<Rightarrow> PacketBuilder \<Rightarrow> label list \<Rightarrow> (u16 \<times> bytes) list \<Rightarrow> bool" where
  "accounted W mode builder ls sent \<longleftrightarrow>
     list_all2 (\<lambda>l (port, pkt). port = server_addr (w_env W) \<and> carries W (pb_dcid builder) (pb_scid builder) l pkt) ls sent
   \<and> counts_from (pb_packet_number builder) (initial_numbers ls) \<and> allowed mode ls"

section \<open>The invariant\<close>

text \<open>
  The state of a run in progress. \<open>k\<close> Initial packets may still be built beyond what the
  budget \<open>b\<close> of the connection pays for.
\<close>

definition keys_ok :: "('c, 'sec, 'name, 'algs) world \<Rightarrow> PacketBuilder \<Rightarrow> KeysHandle \<Rightarrow> ('z, 'm) harness_scheme \<Rightarrow> bool" where
  "keys_ok W builder h s \<longleftrightarrow> (\<exists>e. KEYS_TABLE (h_shim s) h = Some e
     \<and> ke_local e = keys_local (initial_of W (pb_dcid builder)) \<and> ke_remote e = keys_remote (initial_of W (pb_dcid builder))
     \<and> \<not> reuses (pb_packet_number (h_builder s)) e)"

definition injected_data :: "Injection option \<Rightarrow> label list \<Rightarrow> (u64 \<times> bytes) list" where
  "injected_data mode ls =
     (case mode of
        None \<Rightarrow> []
      | Some injection \<Rightarrow>
          (case inj_epoch injection of
             InjectionEpoch_Handshake \<Rightarrow> handshake_data ls
           | InjectionEpoch_OneRtt \<Rightarrow> one_rtt_data ls))"

definition logged ::
  "('c, 'sec, 'name, 'algs) world \<Rightarrow> Injection option \<Rightarrow> PacketBuilder \<Rightarrow> label list \<Rightarrow> ('z, 'c) driver \<Rightarrow> bool" where
  "logged W mode builder ls s \<longleftrightarrow> accounted W mode builder ls (h_sent s)
     \<and> h_builder s = builder\<lparr>pb_packet_number := pb_packet_number builder + word_of_nat (length (initial_numbers ls))\<rparr>
     \<and> d_hs_send_pn s = word_of_nat (length (handshake_data ls))
     \<and> d_one_rtt_send_pn s = word_of_nat (length (one_rtt_data ls))
     \<and> (d_injected s \<longleftrightarrow> injected_data mode ls \<noteq> [])"

definition running ::
  "('c, 'sec, 'name, 'algs) world \<Rightarrow> ('c \<Rightarrow> nat) \<Rightarrow> Injection option \<Rightarrow> PacketBuilder \<Rightarrow> KeysHandle \<Rightarrow> nat \<Rightarrow> nat \<Rightarrow>
   ('z, 'c) driver \<Rightarrow> bool" where
  "running W budget mode builder h k b s \<longleftrightarrow>
     (\<exists>ls. logged W mode builder ls s) \<and> keys_ok W builder h s
   \<and> budget (d_conn s) = b \<and> unat (pb_packet_number (h_builder s)) + b + k < 2 ^ 64
   \<and> (\<forall>ks. d_handshake_keys s = Some ks \<longrightarrow> reports_handshake W ks)
   \<and> (\<forall>ks. d_one_rtt_keys s = Some ks \<longrightarrow> reports_one_rtt W ks)"

text \<open>The invariant between steps, and what is left of it after an error.\<close>

definition going ::
  "('c, 'sec, 'name, 'algs) world \<Rightarrow> ('c \<Rightarrow> nat) \<Rightarrow> Injection option \<Rightarrow> PacketBuilder \<Rightarrow> KeysHandle \<Rightarrow> ('z, 'c) driver \<Rightarrow> bool" where
  "going W budget mode builder h s \<longleftrightarrow> (\<exists>b. running W budget mode builder h 0 b s)"

definition over :: "('c, 'sec, 'name, 'algs) world \<Rightarrow> Injection option \<Rightarrow> PacketBuilder \<Rightarrow> ('z, 'c) driver \<Rightarrow> bool" where
  "over W mode builder s \<longleftrightarrow> (\<exists>ls. accounted W mode builder ls (h_sent s))"

lemma going_over: "going W budget mode builder h s \<Longrightarrow> over W mode builder s"
  by (auto simp: going_def running_def logged_def over_def)

lemma running_over: "running W budget mode builder h k b s \<Longrightarrow> over W mode builder s"
  by (auto simp: running_def logged_def over_def)

lemma running_less: "running W budget mode builder h k b s \<Longrightarrow> k' \<le> k \<Longrightarrow> running W budget mode builder h k' b s"
  by (auto simp: running_def)

section \<open>Labels\<close>

lemma label_lists [simp]:
  "initial_numbers (ls @ [l]) = initial_numbers ls @ (case l of Initial_pkt pn _ \<Rightarrow> [pn] | _ \<Rightarrow> [])"
  "handshake_data (ls @ [l]) = handshake_data ls @ (case l of Handshake_pkt pn d \<Rightarrow> [(pn, d)] | _ \<Rightarrow> [])"
  "one_rtt_data (ls @ [l]) = one_rtt_data ls @ (case l of OneRtt_pkt pn d \<Rightarrow> [(pn, d)] | _ \<Rightarrow> [])"
  "initial_numbers [] = []" "handshake_data [] = []" "one_rtt_data [] = []"
  by (simp_all add: initial_numbers_def handshake_data_def one_rtt_data_def)

lemma counts_from_snoc: "counts_from p ns \<Longrightarrow> n = p + word_of_nat (length ns) \<Longrightarrow> counts_from p (ns @ [n])"
  by (simp add: counts_from_def)

lemma counts_from_Nil [simp]: "counts_from p []"
  by (simp add: counts_from_def)

lemma list_all2_snoc: "list_all2 P xs ys \<Longrightarrow> P x y \<Longrightarrow> list_all2 P (xs @ [x]) (ys @ [y])"
  by (simp add: list_all2_appendI)

text \<open>Sending one more packet, by epoch.\<close>

lemma accounted_Initial:
  assumes "accounted W mode builder ls sent"
    and "carries W (pb_dcid builder) (pb_scid builder)
      (Initial_pkt (pb_packet_number builder + word_of_nat (length (initial_numbers ls))) d) pkt"
  shows "accounted W mode builder (ls @ [Initial_pkt (pb_packet_number builder + word_of_nat (length (initial_numbers ls))) d])
    (sent @ [(server_addr (w_env W), pkt)])"
  using assms unfolding accounted_def
  by (cases mode) (auto intro!: list_all2_snoc counts_from_snoc split: InjectionEpoch.split simp del: carries.simps)

lemma accounted_Handshake:
  assumes "accounted W mode builder ls sent"
    and "\<And>injection. mode = Some injection \<Longrightarrow> inj_epoch injection = InjectionEpoch_OneRtt
      \<or> handshake_data ls = [] \<and> d = inj_bytes injection"
    and "carries W (pb_dcid builder) (pb_scid builder) (Handshake_pkt (word_of_nat (length (handshake_data ls))) d) pkt"
  shows "accounted W mode builder (ls @ [Handshake_pkt (word_of_nat (length (handshake_data ls))) d])
    (sent @ [(server_addr (w_env W), pkt)])"
  using assms unfolding accounted_def
  by (cases mode) (auto intro!: list_all2_snoc counts_from_snoc split: InjectionEpoch.split simp del: carries.simps)

lemma accounted_OneRtt:
  assumes "accounted W (Some injection) builder ls sent" "inj_epoch injection = InjectionEpoch_OneRtt"
    and "one_rtt_data ls = []"
    and "carries W (pb_dcid builder) (pb_scid builder) (OneRtt_pkt 0 (inj_bytes injection)) pkt"
  shows "accounted W (Some injection) builder (ls @ [OneRtt_pkt 0 (inj_bytes injection)])
    (sent @ [(server_addr (w_env W), pkt)])"
  using assms unfolding accounted_def
  by (auto intro!: list_all2_snoc simp del: carries.simps)

section \<open>Sending\<close>

lemma saneD:
  assumes "sane W budget"
  shows "suite_tls13 (w_suite W)" "suite_quic (w_suite W)" "wf_keys (initial_of W dcid)" "quiet (w_tls W) budget"
    "reports_handshake W ks \<Longrightarrow> wf_keys ks" "reports_one_rtt W ks \<Longrightarrow> wf_keys ks"
  using assms by (fastforce simp: sane_def quiet_def reports_handshake_def reports_one_rtt_def)+

lemma reuses_next: "unat pn + 1 < 2 ^ 64 \<Longrightarrow> \<not> reuses (pn + 1) (e\<lparr>last_local_pn := Some pn\<rparr>)"
  by (simp add: reuses_def word_le_nat_alt unat_word_ariths)

lemma encode_initial_carries:
  assumes k: "wf_keys (initial_of W (pb_dcid builder))" "keys_ok W builder h s"
    and self: "h_builder s = builder\<lparr>pb_packet_number := pn\<rparr>" "unat pn + 1 < 2 ^ 64"
    and l: "length (pb_dcid builder) \<le> 20" "length (pb_scid builder) \<le> 20" "length out \<le> 16000"
  obtains pkt shim where
    "encode_initial out h (h_builder s) (h_shim s) = Ret (pkt, builder\<lparr>pb_packet_number := pn + 1\<rparr>, shim)"
    "carries W (pb_dcid builder) (pb_scid builder) (Initial_pkt pn out) pkt"
    "keys_ok W builder h (s\<lparr>h_builder := builder\<lparr>pb_packet_number := pn + 1\<rparr>, h_shim := shim\<rparr>)"
proof -
  let ?self = "builder\<lparr>pb_packet_number := pn\<rparr>"
  obtain e where e: "KEYS_TABLE (h_shim s) h = Some e" "ke_local e = keys_local (initial_of W (pb_dcid builder))"
    "ke_remote e = keys_remote (initial_of W (pb_dcid builder))" "\<not> reuses pn e"
    using k(2) self by (auto simp: keys_ok_def)
  obtain rx where rx: "paired (ke_local e) rx" using k(1) e(2) by (auto simp: wf_keys_def)
  define qp where "qp = long_payload out (long_pad ?self True out)"
  have len: "4 + length qp + 16 < 2 ^ 14" "length out < 2 ^ 30"
    using initial_lengths(1) [OF l(3), of ?self] l(3) by (simp_all add: qp_def)
  have r: "\<not> reuses (pb_packet_number ?self) e" using e(4) by simp
  have c: "length (pb_dcid ?self) \<le> 20" "length (pb_scid ?self) \<le> 20" using l by simp_all
  obtain pkt shim where 1: "encode_long 0 out h True ?self (h_shim s) = Ret (pkt, builder\<lparr>pb_packet_number := pn + 1\<rparr>, shim)"
    and 2: "protected (ke_local e) pn (long_first 0) (long_body ?self True (length_field True (4 + length qp + 16)))
      (to_be_bytes (ucast pn :: u32)) qp pkt"
    and 3: "KEYS_TABLE shim = (KEYS_TABLE (h_shim s))(h \<mapsto> e\<lparr>last_local_pn := Some pn\<rparr>)"
    using encode_long_seals [OF e(1) rx r c len(2) qp_def refl, where ty = 0] len(1) by auto
  have b: "?self = \<lparr>pb_dcid = pb_dcid builder, pb_scid = pb_scid builder, pb_packet_number = pn\<rparr>" by simp
  show ?thesis
  proof (rule that)
    show "encode_initial out h (h_builder s) (h_shim s) = Ret (pkt, builder\<lparr>pb_packet_number := pn + 1\<rparr>, shim)"
      using 1 by (simp add: encode_initial_def self(1))
    show "carries W (pb_dcid builder) (pb_scid builder) (Initial_pkt pn out) pkt"
      using 2 unfolding e(2) qp_def b by (simp add: Let_def)
    show "keys_ok W builder h (s\<lparr>h_builder := builder\<lparr>pb_packet_number := pn + 1\<rparr>, h_shim := shim\<rparr>)"
      using 3 e reuses_next [OF self(2), of e] by (simp add: keys_ok_def)
  qed
qed

lemma triple_send_initial:
  assumes W: "sane W budget" and l: "length (pb_dcid builder) \<le> 20" "length (pb_scid builder) \<le> 20" "length out \<le> 16000"
  shows "triple (running W budget mode builder h 1 b)
    (send_initial W msg (server_addr (w_env W)) out h)
    (\<lambda>_. running W budget mode builder h 0 b) (over W mode builder)"
proof (rule tripleI)
  fix s assume s: "running W budget mode builder h 1 b s"
  then obtain ls where ls: "logged W mode builder ls s" and k: "keys_ok W builder h s" by (auto simp: running_def)
  define pn where "pn = pb_packet_number builder + word_of_nat (length (initial_numbers ls))"
  have self: "h_builder s = builder\<lparr>pb_packet_number := pn\<rparr>" "unat pn + 1 < 2 ^ 64"
    using ls s by (auto simp: logged_def running_def pn_def)
  obtain pkt shim where e: "encode_initial out h (h_builder s) (h_shim s) = Ret (pkt, builder\<lparr>pb_packet_number := pn + 1\<rparr>, shim)"
    and c: "carries W (pb_dcid builder) (pb_scid builder) (Initial_pkt pn out) pkt"
    and k': "keys_ok W builder h (s\<lparr>h_builder := builder\<lparr>pb_packet_number := pn + 1\<rparr>, h_shim := shim\<rparr>)"
    using encode_initial_carries [OF saneD(3) [OF W] k self l] by metis
  let ?t = "s\<lparr>h_builder := builder\<lparr>pb_packet_number := pn + 1\<rparr>, h_shim := shim\<rparr>"
  let ?u = "?t\<lparr>h_sent := h_sent s @ [(server_addr (w_env W), pkt)]\<rparr>"
  have "accounted W mode builder (ls @ [Initial_pkt pn out]) (h_sent ?u)"
    using accounted_Initial [of W mode builder ls "h_sent s" out pkt] ls c by (simp add: logged_def pn_def del: carries.simps)
  then have "logged W mode builder (ls @ [Initial_pkt pn out]) ?u"
    using ls unfolding logged_def by (auto simp: pn_def injected_data_def split: option.split InjectionEpoch.split)
  moreover have "keys_ok W builder h ?u" using k' by (simp add: keys_ok_def)
  moreover have "unat (pn + 1) = unat pn + 1" using self(2) by (simp add: unat_word_ariths)
  ultimately have u: "running W budget mode builder h 0 b ?u"
    using s self(1) unfolding running_def by auto
  have t: "over W mode builder ?t" using ls by (auto simp: over_def logged_def)
  show "result_in (\<lambda>_. running W budget mode builder h 0 b) (over W mode builder)
      (send_initial W msg (server_addr (w_env W)) out h s)"
    using u t by (simp add: send_initial_def then_do_def build_initial_def e send_to_def split: sum.split)
qed

text \<open>A Handshake packet: sent with the next number, or an error and nothing sent.\<close>

lemma send_handshake_result:
  assumes "wf_keys hs" "reports_handshake W hs" "length d \<le> 16000"
  obtains pkt where "carries W dcid scid (Handshake_pkt (d_hs_send_pn s) d) pkt"
    "\<And>Q J. J s \<Longrightarrow> Q () (s\<lparr>h_sent := h_sent s @ [(server, pkt)], d_hs_send_pn := d_hs_send_pn s + 1\<rparr>) \<Longrightarrow>
      result_in Q J (send_handshake W msg server dcid scid d hs s)"
proof -
  obtain rx where "paired (keys_local hs) rx" using assms(1) by (auto simp: wf_keys_def)
  then obtain pkt where p: "build_handshake_packet (w_debug W) dcid scid (d_hs_send_pn s) d (keys_local hs) = Ret (Inr pkt)"
    using build_handshake_protected [of "keys_local hs" rx d "w_debug W" dcid scid "d_hs_send_pn s"] assms(3) by auto
  then have "carries W dcid scid (Handshake_pkt (d_hs_send_pn s) d) pkt" using assms(2) by auto
  then show ?thesis
    by (rule that)
      (simp add: send_handshake_def then_do_def gets_def pure_def p try_with_def yield_def send_to_def modify_def split: sum.split)
qed

lemma triple_send_handshake:
  assumes "sane W budget" "reports_handshake W hs" "length d \<le> 16000"
    and mode: "\<And>injection. mode = Some injection \<Longrightarrow> inj_epoch injection = InjectionEpoch_OneRtt"
  shows "triple (running W budget mode builder h k b)
    (send_handshake W msg (server_addr (w_env W)) (pb_dcid builder) (pb_scid builder) d hs)
    (\<lambda>_. running W budget mode builder h k b) (over W mode builder)"
proof (rule tripleI)
  fix s assume s: "running W budget mode builder h k b s"
  then obtain ls where ls: "logged W mode builder ls s" by (auto simp: running_def)
  have n: "d_hs_send_pn s = word_of_nat (length (handshake_data ls))" using ls by (simp add: logged_def)
  obtain pkt where c: "carries W (pb_dcid builder) (pb_scid builder) (Handshake_pkt (d_hs_send_pn s) d) pkt"
    and r: "\<And>Q J. J s \<Longrightarrow> Q () (s\<lparr>h_sent := h_sent s @ [(server_addr (w_env W), pkt)], d_hs_send_pn := d_hs_send_pn s + 1\<rparr>) \<Longrightarrow>
      result_in Q J (send_handshake W msg (server_addr (w_env W)) (pb_dcid builder) (pb_scid builder) d hs s)"
    using send_handshake_result [OF saneD(5) [OF assms(1,2)] assms(2,3)] by metis
  let ?t = "s\<lparr>h_sent := h_sent s @ [(server_addr (w_env W), pkt)], d_hs_send_pn := d_hs_send_pn s + 1\<rparr>"
  have "accounted W mode builder (ls @ [Handshake_pkt (word_of_nat (length (handshake_data ls))) d]) (h_sent ?t)"
    using accounted_Handshake [of W mode builder ls "h_sent s" d pkt] ls c mode n
    by (simp add: logged_def del: carries.simps)
  then have "logged W mode builder (ls @ [Handshake_pkt (word_of_nat (length (handshake_data ls))) d]) ?t"
    using ls mode unfolding logged_def by (auto simp: n injected_data_def split: option.split InjectionEpoch.split)
  then have "running W budget mode builder h k b ?t" using s by (auto simp: running_def keys_ok_def)
  with r running_over [OF s] show "result_in (\<lambda>_. running W budget mode builder h k b) (over W mode builder)
      (send_handshake W msg (server_addr (w_env W)) (pb_dcid builder) (pb_scid builder) d hs s)" by simp
qed

section \<open>The pumps\<close>

text \<open>What \<open>write_hs\<close> gave: nothing, or something that was paid for.\<close>

definition wrote ::
  "('c, 'sec, 'name, 'algs) world \<Rightarrow> ('c \<Rightarrow> nat) \<Rightarrow> Injection option \<Rightarrow> PacketBuilder \<Rightarrow> KeysHandle \<Rightarrow> nat \<Rightarrow>
   bytes \<times> 'sec KeyChange option \<Rightarrow> ('z, 'c) driver \<Rightarrow> bool" where
  "wrote W budget mode builder h b r s \<longleftrightarrow> length (fst r) \<le> 16000
     \<and> (\<forall>ks. snd r = Some (KeyChange_Handshake ks) \<longrightarrow> reports_handshake W ks)
     \<and> (\<forall>ks nxt. snd r = Some (KeyChange_OneRtt ks nxt) \<longrightarrow> reports_one_rtt W ks)
     \<and> (if fst r = [] \<and> snd r = None then \<exists>b'. running W budget mode builder h 0 b' s
        else \<exists>b' < b. running W budget mode builder h 1 b' s)"

lemma triple_write_hs:
  fixes J :: "('z, 'c) driver \<Rightarrow> bool" and budget :: "'c \<Rightarrow> nat"
  assumes "sane W budget"
  shows "triple (running W budget mode builder h 0 b) (tls_write_hs W) (wrote W budget mode builder h b) J"
proof (rule tripleI)
  fix s :: "('z, 'c) driver" assume s: "running W budget mode builder h 0 b s"
  obtain out kc c where w: "tc_write_hs (w_tls W) (d_conn s) = ((out, kc), c)" by (metis surj_pair)
  have q: "length out \<le> 16000" "budget c \<le> b" "out \<noteq> [] \<or> kc \<noteq> None \<Longrightarrow> budget c < b"
    using saneD(4) [OF assms] w s by (auto simp: quiet_def running_def)
  have "running W budget mode builder h k (budget c) (s\<lparr>d_conn := c\<rparr>)" if "budget c + k \<le> b" for k
    using s that by (auto simp: running_def keys_ok_def logged_def)
  from this [of 0] this [of 1] show "result_in (wrote W budget mode builder h b) J (tls_write_hs W s)"
    using q w by (auto simp: tls_write_hs_def wrote_def reports_handshake_def reports_one_rtt_def)
qed

lemma triple_install_keys:
  assumes "\<And>ks. kc = Some (KeyChange_Handshake ks) \<Longrightarrow> reports_handshake W ks"
    "\<And>ks nxt. kc = Some (KeyChange_OneRtt ks nxt) \<Longrightarrow> reports_one_rtt W ks"
  shows "triple (running W budget mode builder h k b) (install_keys kc) (\<lambda>_. running W budget mode builder h k b) J"
  using assms unfolding install_keys_def
  by (auto intro!: triple_yield triple_modify split: option.split KeyChange.split simp: running_def keys_ok_def logged_def)

text \<open>
  An iteration of either pump, for any way \<open>emit\<close> of sending the flight that keeps the
  invariant, at the cost of at most one Initial packet.
\<close>

lemma triple_pump_iteration:
  fixes emit :: "bytes \<Rightarrow> (('z, 'c) driver, unit) act" and budget :: "'c \<Rightarrow> nat"
  assumes W: "sane W budget"
    and emit: "\<And>out b. length out \<le> 16000 \<Longrightarrow>
      triple (running W budget mode builder h 1 b) (emit out) (\<lambda>_. running W budget mode builder h 0 b) (over W mode builder)"
  shows "triple (\<lambda>s. going W budget mode builder h s \<and> budget (d_conn s) = n)
    (then_do (tls_write_hs W) (\<lambda>(out, kc).
       if out = [] \<and> Option.is_none kc then yield False
       else then_do (if out \<noteq> [] then emit out else yield ()) (\<lambda>_. then_do (install_keys kc) (\<lambda>_. yield True))))
    (\<lambda>again s. going W budget mode builder h s \<and> (again \<longrightarrow> budget (d_conn s) < n)) (over W mode builder)"
proof (rule triple_then_do)
  show "triple (\<lambda>s. going W budget mode builder h s \<and> budget (d_conn s) = n) (tls_write_hs W)
      (wrote W budget mode builder h n) (over W mode builder)"
    by (rule triple_conseq [OF triple_write_hs [OF W]]) (auto simp: going_def running_def)
  fix r show "triple (wrote W budget mode builder h n r)
      (case r of (out, kc) \<Rightarrow> if out = [] \<and> Option.is_none kc then yield False
         else then_do (if out \<noteq> [] then emit out else yield ()) (\<lambda>_. then_do (install_keys kc) (\<lambda>_. yield True)))
      (\<lambda>again s. going W budget mode builder h s \<and> (again \<longrightarrow> budget (d_conn s) < n)) (over W mode builder)"
  proof (cases "fst r = [] \<and> snd r = None")
    case True
    then show ?thesis
      by (auto simp: case_prod_beta wrote_def going_def intro!: triple_yield)
  next
    case False
    show ?thesis
    proof (rule tripleI)
      fix s :: "('z, 'c) driver" assume s: "wrote W budget mode builder h n r s"
      with False obtain b where b: "b < n" "running W budget mode builder h 1 b s" by (auto simp: wrote_def)
      have "triple (running W budget mode builder h 1 b) (if fst r \<noteq> [] then emit (fst r) else yield ())
          (\<lambda>_. running W budget mode builder h 0 b) (over W mode builder)"
        using emit [of "fst r" b] s by (auto simp: wrote_def intro!: triple_yield dest: running_less [where k' = 0])
      then have "triple (running W budget mode builder h 1 b)
         (then_do (if fst r \<noteq> [] then emit (fst r) else yield ()) (\<lambda>_. then_do (install_keys (snd r)) (\<lambda>_. yield True)))
         (\<lambda>again s. going W budget mode builder h s \<and> (again \<longrightarrow> budget (d_conn s) < n)) (over W mode builder)"
        by (rule triple_then_do)
          (rule triple_then_do [OF triple_install_keys],
            use s b in \<open>auto simp: wrote_def going_def running_def intro!: triple_yield\<close>)
      from tripleD [OF this b(2)] False
      show "result_in (\<lambda>again s. going W budget mode builder h s \<and> (again \<longrightarrow> budget (d_conn s) < n)) (over W mode builder)
        ((case r of (out, kc) \<Rightarrow> if out = [] \<and> Option.is_none kc then yield False
         else then_do (if out \<noteq> [] then emit out else yield ()) (\<lambda>_. then_do (install_keys kc) (\<lambda>_. yield True))) s)"
        by (auto simp: case_prod_beta Option.is_none_def)
    qed
  qed
qed

lemma triple_pump:
  assumes W: "sane W budget" and l: "length (pb_dcid builder) \<le> 20" "length (pb_scid builder) \<le> 20"
    and mode: "\<And>injection. mode = Some injection \<Longrightarrow> inj_epoch injection = InjectionEpoch_OneRtt"
  shows "triple (going W budget mode builder h)
    (pump_rustls_write_hs W (server_addr (w_env W)) (pb_dcid builder) (pb_scid builder) h)
    (\<lambda>_. going W budget mode builder h) (over W mode builder)"
  unfolding pump_rustls_write_hs_def
proof (rule triple_loop_while [where \<mu> = "\<lambda>s. budget (d_conn s)"], unfold pump_step_def, rule triple_pump_iteration [OF W])
  fix out :: bytes and b assume out: "length out \<le> 16000"
  let ?P = "running W budget mode builder h 1 b" and ?Q = "\<lambda>_. running W budget mode builder h 0 b" and ?J = "over W mode builder"
  show "triple ?P (then_do (gets d_handshake_keys) (\<lambda>handshake_keys. then_do (gets d_one_rtt_keys) (\<lambda>one_rtt_keys.
      case handshake_keys of
        None \<Rightarrow> send_initial W ''send Initial (pump): '' (server_addr (w_env W)) out h
      | Some hs \<Rightarrow> if Option.is_none one_rtt_keys
          then send_handshake W ''send Handshake: '' (server_addr (w_env W)) (pb_dcid builder) (pb_scid builder) out hs
          else yield ()))) ?Q ?J"
  proof (intro triple_gets_do)
    fix hk ok
    show "triple (\<lambda>s. (?P s \<and> hk = d_handshake_keys s) \<and> ok = d_one_rtt_keys s) (case hk of
          None \<Rightarrow> send_initial W ''send Initial (pump): '' (server_addr (w_env W)) out h
        | Some hs \<Rightarrow> if Option.is_none ok
            then send_handshake W ''send Handshake: '' (server_addr (w_env W)) (pb_dcid builder) (pb_scid builder) out hs
            else yield ()) ?Q ?J"
    proof (cases hk)
      case None
      show ?thesis
        unfolding None option.case by (rule triple_conseq [OF triple_send_initial [OF W l out]]) auto
    next
      case (Some hs)
      have x: "triple ?P (if Option.is_none ok
            then send_handshake W ''send Handshake: '' (server_addr (w_env W)) (pb_dcid builder) (pb_scid builder) out hs
            else yield ()) ?Q ?J" if "reports_handshake W hs"
        by (intro triple_if triple_conseq [OF triple_send_handshake [OF W that out mode]] triple_yield)
          (auto dest: running_less [where k' = 0])
      show ?thesis
        unfolding Some option.case
        by (rule triple_pre_conj [where b = "reports_handshake W hs", OF x]) (auto simp: running_def dest!: sym [of "Some hs"])
    qed
  qed
qed

lemma triple_discarding:
  assumes W: "sane W budget" and l: "length (pb_dcid builder) \<le> 20" "length (pb_scid builder) \<le> 20"
  shows "triple (going W budget mode builder h)
    (pump_rustls_write_hs_discarding_finished W (server_addr (w_env W)) h)
    (\<lambda>_. going W budget mode builder h) (over W mode builder)"
  unfolding pump_rustls_write_hs_discarding_finished_def
proof (rule triple_loop_while [where \<mu> = "\<lambda>s. budget (d_conn s)"], unfold discarding_step_def, rule triple_pump_iteration [OF W])
  fix out :: bytes and b assume out: "length out \<le> 16000"
  show "triple (running W budget mode builder h 1 b) (then_do (gets d_handshake_keys) (\<lambda>handshake_keys.
      if Option.is_none handshake_keys
      then send_initial W ''send Initial (pump-discarding): '' (server_addr (w_env W)) out h
      else yield ())) (\<lambda>_. running W budget mode builder h 0 b) (over W mode builder)"
    by (intro triple_gets_do triple_if triple_conseq [OF triple_send_initial [OF W l out]] triple_yield)
      (auto dest: running_less [where k' = 0])
qed

section \<open>Packets\<close>

lemma step_budget: "quiet tls budget \<Longrightarrow> budget (snd (rustls_step tls plaintext i conn)) \<le> budget conn"
  by (auto simp: rustls_step_def feed_crypto_def Let_def quiet_def split: outcome.split sum.split prod.split option.split)

lemma scan_budget:
  "quiet tls budget \<Longrightarrow> budget (snd (rustls_scan tls plaintext i conn)) \<le> budget conn"
proof (induction "length plaintext - i" arbitrary: i conn rule: less_induct)
  case less
  show ?case
  proof (cases "i < length plaintext")
    case True
    obtain r c where r: "rustls_step tls plaintext i conn = (r, c)" by (metis surj_pair)
    have c: "budget c \<le> budget conn" using step_budget [OF less.prems, of plaintext i conn] r by simp
    have "budget (snd (rustls_scan tls plaintext j c)) \<le> budget c" if "r = Ret (Inr (Next j))" for j
      using less.hyps [of j c, OF _ less.prems] rustls_step_next [of tls plaintext i conn j c] r that True by simp
    then show ?thesis
      using True r c by (subst rustls_scan.simps) (fastforce split: outcome.split sum.split scan_step.split)
  qed (simp add: rustls_scan.simps)
qed

lemma triple_tls_scan:
  fixes budget :: "'c \<Rightarrow> nat"
  assumes "sane W budget"
  shows "triple (going W budget mode builder h) (tls_scan W plaintext) (\<lambda>_. going W budget mode builder h) (over W mode builder)"
proof (rule tripleI)
  fix s :: "('z, 'c) driver" assume s: "going W budget mode builder h s"
  obtain r c where r: "rustls_scan (w_tls W) plaintext 0 (d_conn s) = (Ret r, c)"
    using rs.scan_returns [of "w_tls W" plaintext 0 "d_conn s"]
    by (cases "rustls_scan (w_tls W) plaintext 0 (d_conn s)") (auto simp: returns_iff)
  have "budget c \<le> budget (d_conn s)" using scan_budget [OF saneD(4) [OF assms], of plaintext 0 "d_conn s"] r by simp
  then have "going W budget mode builder h (s\<lparr>d_conn := c\<rparr>)"
    using s by (fastforce simp: going_def running_def keys_ok_def logged_def)
  with r show "result_in (\<lambda>_. going W budget mode builder h) (over W mode builder) (tls_scan W plaintext s)"
    by (cases r) (auto simp: tls_scan_def scan_plaintext_into_rustls_def dest: going_over)
qed

text \<open>The packet that a long header delimits lies in the datagram.\<close>

lemma triple_header:
  assumes "\<And>header. fits rest header \<Longrightarrow> triple P (f header) Q J" "triple P g Q J"
  shows "triple P (then_do (pure (parse_long_header rest)) (\<lambda>h. case h of None \<Rightarrow> g | Some header \<Rightarrow> f header)) Q J"
  by (rule triple_pure_do [OF parse_long_header_ensures]) (auto simp: assms split: option.split)

lemma triple_slice:
  "n \<le> length rest \<Longrightarrow> triple P (f (take n rest)) Q J \<Longrightarrow> triple P (then_do (pure (slice_range 0 n rest)) f) Q J"
  "offset \<le> length datagram \<Longrightarrow> triple P (f (drop offset datagram)) Q J \<Longrightarrow>
   triple P (then_do (pure (slice_from offset datagram)) f) Q J"
  by (auto intro: triple_pure_do [where R = "\<lambda>x. x = take n rest"] triple_pure_do [where R = "\<lambda>x. x = drop offset datagram"])

definition cut_ok :: "(LongHeader \<times> bytes) option \<Rightarrow> bool" where
  "cut_ok p \<longleftrightarrow> (\<forall>header pkt. p = Some (header, pkt) \<longrightarrow>
     0 < lh_payload_offset header \<and> length pkt = lh_payload_offset header + lh_length header)"

lemma triple_cut_packet:
  assumes "\<And>s. P s \<Longrightarrow> J s" "offset < length datagram"
  shows "triple P (cut_packet malformed datagram offset) (\<lambda>p s. P s \<and> cut_ok p) J"
  unfolding cut_packet_def Let_def
  by (intro triple_slice triple_if triple_yield triple_header triple_throw)
    (use assms in \<open>auto simp: cut_ok_def fits_def\<close>)

lemma triple_open_initial:
  fixes budget :: "'c \<Rightarrow> nat" and J :: "('z, 'c) driver \<Rightarrow> bool"
  assumes W: "sane W budget" and f: "0 < lh_payload_offset header" "length pkt = lh_payload_offset header + lh_length header"
  shows "triple (going W budget mode builder h) (open_initial pkt header h) (\<lambda>_. going W budget mode builder h) J"
  unfolding open_initial_def
proof (rule triple_on_shim)
  fix s :: "('z, 'c) driver" assume s: "going W budget mode builder h s"
  then have "\<forall>e. KEYS_TABLE (h_shim s) h = Some e \<longrightarrow>
      wf_packet_key (dk_packet (ke_remote e)) \<and> wf_header_key (dk_header (ke_remote e))"
    using saneD(3) [OF W, of "pb_dcid builder"] by (auto simp: going_def running_def keys_ok_def wf_keys_def)
  from decrypt_initial_ensures [OF f this]
  show "ensures (decrypt_initial_inplace pkt header h (h_shim s)) (\<lambda>(x, shim). going W budget mode builder h (s\<lparr>h_shim := shim\<rparr>))"
    using s by (auto simp: ensures_iff going_def running_def keys_ok_def logged_def)
qed

text \<open>A step that goes on does so behind the packet.\<close>

definition onward :: "nat \<Rightarrow> scan_step \<Rightarrow> bool" where
  "onward offset st \<longleftrightarrow> (\<forall>j. st = Next j \<longrightarrow> offset < j)"

lemma onward_simps [simp]: "onward offset Stop" "onward offset (Close cc)" "onward offset (Next j) \<longleftrightarrow> offset < j"
  "onward offset (or_next j r) \<longleftrightarrow> offset < j \<or> r \<noteq> None"
  by (auto simp: onward_def or_next_def split: option.split)

lemma triple_feed_plaintext:
  assumes "sane W budget" "offset < j"
  shows "triple (going W budget mode builder h) (feed_plaintext W j plaintext)
    (\<lambda>st s. going W budget mode builder h s \<and> onward offset st) (over W mode builder)"
  unfolding feed_plaintext_def
  by (rule triple_then_do [OF triple_tls_scan [OF assms(1)] triple_yield]) (use assms(2) in simp)

lemma decrypt_rustls_ensures:
  assumes "wf_keys ks"
  shows "0 < lh_payload_offset header \<Longrightarrow> length pkt = lh_payload_offset header + lh_length header \<Longrightarrow>
      ensures (decrypt_long_with_rustls debug pkt header (keys_remote ks)) (\<lambda>_. True)"
    and "ensures (decrypt_short_with_rustls debug datagram n (keys_remote ks)) (\<lambda>_. True)"
  using assms decrypt_long_returns [of header pkt "keys_remote ks" debug] decrypt_short_returns [of "keys_remote ks" debug datagram n]
  by (simp_all add: wf_keys_def returns_ensures)

text \<open>The keys found in the state, if any, were reported.\<close>

lemma triple_handshake_keys:
  assumes "\<And>hk. (\<And>ks. hk = Some ks \<Longrightarrow> reports_handshake W ks) \<Longrightarrow> triple (going W budget mode builder h) (f hk) Q J"
  shows "triple (going W budget mode builder h) (then_do (gets d_handshake_keys) f) Q J"
  by (rule triple_gets_do, rule triple_pre_conj [OF assms, where b = "\<forall>ks. hk = Some ks \<longrightarrow> reports_handshake W ks" for hk])
    (auto simp: going_def running_def)

lemma triple_one_rtt_keys:
  assumes "\<And>ok. (\<And>ks. ok = Some ks \<Longrightarrow> reports_one_rtt W ks) \<Longrightarrow> triple (going W budget mode builder h) (f ok) Q J"
  shows "triple (going W budget mode builder h) (then_do (gets d_one_rtt_keys) f) Q J"
  by (rule triple_gets_do, rule triple_pre_conj [OF assms, where b = "\<forall>ks. ok = Some ks \<longrightarrow> reports_one_rtt W ks" for ok])
    (auto simp: going_def running_def)

lemma triple_decrypt_long:
  assumes "sane W budget" "reports_handshake W ks"
    and "0 < lh_payload_offset header" "length pkt = lh_payload_offset header + lh_length header"
  shows "triple P (pure (decrypt_long_with_rustls debug pkt header (keys_remote ks))) (\<lambda>_. P) J"
  using decrypt_rustls_ensures(1) [OF saneD(5) [OF assms(1,2)] assms(3,4), of debug]
  by (auto simp: triple_def pure_def ensures_iff)

lemma triple_open_handshake:
  assumes W: "sane W budget" and c: "0 < lh_payload_offset header" "length pkt = lh_payload_offset header + lh_length header"
    and pump: "triple (going W budget mode builder h) pump (\<lambda>_. going W budget mode builder h) (over W mode builder)"
  shows "triple (going W budget mode builder h) (open_handshake W pump pkt header)
    (\<lambda>_. going W budget mode builder h) (over W mode builder)"
  unfolding open_handshake_def
  by (intro triple_handshake_keys triple_then_do [where R = "\<lambda>_. going W budget mode builder h"] triple_if pump triple_yield)
    (auto intro!: triple_throw going_over triple_decrypt_long [OF W _ c] split: option.split)

lemma triple_handshake_packet:
  assumes W: "sane W budget" and offset: "offset < length datagram"
    and pump: "triple (going W budget mode builder h) pump (\<lambda>_. going W budget mode builder h) (over W mode builder)"
  shows "triple (going W budget mode builder h) (handshake_packet W h pump datagram offset)
    (\<lambda>st s. going W budget mode builder h s \<and> onward offset st) (over W mode builder)"
  unfolding handshake_packet_def Let_def
proof (rule triple_then_do [OF triple_cut_packet [OF going_over offset]], assumption, rule triple_pre_imp, goal_cases)
  case (1 p)
  then show ?case
    by (auto simp: cut_ok_def split: option.split prod.split intro!: triple_yield triple_if triple_try going_over
        triple_then_do [where R = "\<lambda>_. going W budget mode builder h"] triple_open_initial [OF W] triple_open_handshake [OF W]
        triple_feed_plaintext [OF W] pump)
qed

lemma triple_drain_short:
  assumes W: "sane W budget"
  shows "triple (going W budget mode builder h) (drain_short W scid rest)
    (\<lambda>st s. going W budget mode builder h s \<and> onward offset st) (over W mode builder)"
  unfolding drain_short_def
  by (rule triple_one_rtt_keys)
    (auto intro!: triple_yield triple_pure_do [OF decrypt_rustls_ensures(2) [OF saneD(6) [OF W]]]
      triple_then_do [OF triple_tls_scan [OF W]] split: option.split sum.split)

lemma triple_drain_open:
  assumes W: "sane W budget" and c: "0 < lh_payload_offset header" "length pkt = lh_payload_offset header + lh_length header"
  shows "triple (going W budget mode builder h) (drain_open W h pkt header)
    (\<lambda>_. going W budget mode builder h) (over W mode builder)"
  unfolding drain_open_def
  by (intro triple_if triple_open_initial [OF W c] triple_handshake_keys)
    (auto intro!: triple_yield triple_decrypt_long [OF W _ c] split: option.split)

lemma triple_drain_packet:
  assumes W: "sane W budget" and offset: "offset < length datagram"
  shows "triple (going W budget mode builder h) (drain_packet W malformed scid h datagram offset)
    (\<lambda>st s. going W budget mode builder h s \<and> onward offset st) (over W mode builder)"
  unfolding drain_packet_def Let_def
  by (intro triple_slice triple_if triple_yield triple_header triple_throw triple_drain_short [OF W]
      triple_then_do [OF triple_drain_open [OF W]])
    (use offset in \<open>auto simp: fits_def going_over split: sum.split intro!: triple_yield triple_feed_plaintext [OF W]\<close>)

section \<open>Injection\<close>

text \<open>An injection not yet made has left nothing in its epoch; making it leaves the invariant.\<close>

lemma going_injected:
  assumes s: "running W budget mode builder h 0 b s" "mode = Some injection"
    and t: "accounted W mode builder (ls @ [l]) (h_sent t)" "injected_data mode (ls @ [l]) \<noteq> []"
      "d_hs_send_pn t = word_of_nat (length (handshake_data (ls @ [l])))"
      "d_one_rtt_send_pn t = word_of_nat (length (one_rtt_data (ls @ [l])))"
    and ls: "logged W mode builder ls s" "initial_numbers (ls @ [l]) = initial_numbers ls"
    and same: "h_builder t = h_builder s" "h_shim t = h_shim s" "d_conn t = d_conn s"
      "d_handshake_keys t = d_handshake_keys s" "d_one_rtt_keys t = d_one_rtt_keys s" "d_injected t"
  shows "going W budget mode builder h t"
proof -
  have "logged W mode builder (ls @ [l]) t"
    using ls t same by (simp add: logged_def)
  then show ?thesis
    using s(1) same unfolding going_def running_def keys_ok_def by auto
qed

lemma inject_handshake:
  assumes W: "sane W budget" and l: "length (inj_bytes injection) \<le> 1100" and mode: "mode = Some injection"
    "inj_epoch injection = InjectionEpoch_Handshake"
  shows "triple (\<lambda>s. going W budget mode builder h s \<and> \<not> d_injected s)
    (inject_once W injection (server_addr (w_env W)) (pb_dcid builder) (pb_scid builder))
    (\<lambda>_. going W budget mode builder h) (over W mode builder)"
proof (rule tripleI)
  fix s :: "('z, 'a) driver" assume s: "going W budget mode builder h s \<and> \<not> d_injected s"
  then obtain ls b where g: "running W budget mode builder h 0 b s" and ls: "logged W mode builder ls s"
    by (auto simp: going_def running_def)
  have n: "handshake_data ls = []" "d_hs_send_pn s = 0" using s ls mode by (auto simp: logged_def injected_data_def)
  have J: "over W mode builder s" using s going_over by blast
  show "result_in (\<lambda>_. going W budget mode builder h) (over W mode builder)
    (inject_once W injection (server_addr (w_env W)) (pb_dcid builder) (pb_scid builder) s)"
  proof (cases "d_handshake_keys s")
    case None
    then show ?thesis
      using J by (simp add: inject_once_def inject_now_def mode then_do_def gets_def throw_def)
  next
    case (Some hs)
    have r: "reports_handshake W hs" using g Some by (simp add: running_def)
    have l': "length (inj_bytes injection) \<le> 16000" using l by simp
    obtain pkt where c: "carries W (pb_dcid builder) (pb_scid builder) (Handshake_pkt (d_hs_send_pn s) (inj_bytes injection)) pkt"
      and res: "\<And>Q J. J s \<Longrightarrow> Q () (s\<lparr>h_sent := h_sent s @ [(server_addr (w_env W), pkt)], d_hs_send_pn := d_hs_send_pn s + 1\<rparr>) \<Longrightarrow>
        result_in Q J (send_handshake W ''send Handshake injection: '' (server_addr (w_env W)) (pb_dcid builder) (pb_scid builder)
          (inj_bytes injection) hs s)"
      using send_handshake_result [OF saneD(5) [OF W r] r l'] by metis
    let ?t = "s\<lparr>h_sent := h_sent s @ [(server_addr (w_env W), pkt)], d_hs_send_pn := d_hs_send_pn s + 1, d_injected := True\<rparr>"
    have "accounted W mode builder (ls @ [Handshake_pkt 0 (inj_bytes injection)]) (h_sent ?t)"
      using accounted_Handshake [of W mode builder ls "h_sent s" "inj_bytes injection" pkt] ls c n mode
      by (simp add: logged_def del: carries.simps)
    then have "going W budget mode builder h ?t"
      by (rule going_injected [OF g mode(1) _ _ _ _ ls]) (use n mode ls in \<open>simp_all add: injected_data_def logged_def\<close>)
    then show ?thesis
      unfolding inject_once_def inject_now_def mode
      by (intro result_then_do) (auto simp: then_do_def gets_def Some intro!: res J [unfolded mode(1)])
  qed
qed

lemma inject_one_rtt:
  assumes W: "sane W budget" and l: "length (inj_bytes injection) \<le> 1100" and mode: "mode = Some injection"
    "inj_epoch injection = InjectionEpoch_OneRtt"
  shows "triple (\<lambda>s. going W budget mode builder h s \<and> \<not> d_injected s)
    (inject_once W injection (server_addr (w_env W)) (pb_dcid builder) (pb_scid builder))
    (\<lambda>_. going W budget mode builder h) (over W mode builder)"
proof (rule tripleI)
  fix s :: "('z, 'a) driver" assume s: "going W budget mode builder h s \<and> \<not> d_injected s"
  then obtain ls b where g: "running W budget mode builder h 0 b s" and ls: "logged W mode builder ls s"
    by (auto simp: going_def running_def)
  have n: "one_rtt_data ls = []" "d_one_rtt_send_pn s = 0" using s ls mode by (auto simp: logged_def injected_data_def)
  have J: "over W mode builder s" using s going_over by blast
  show "result_in (\<lambda>_. going W budget mode builder h) (over W mode builder)
    (inject_once W injection (server_addr (w_env W)) (pb_dcid builder) (pb_scid builder) s)"
  proof (cases "d_one_rtt_keys s")
    case None
    then show ?thesis
      using J by (simp add: inject_once_def inject_now_def mode then_do_def gets_def throw_def)
  next
    case (Some ks)
    have r: "reports_one_rtt W ks" using g Some by (simp add: running_def)
    obtain rx where "paired (keys_local ks) rx" using saneD(6) [OF W r] by (auto simp: wf_keys_def)
    moreover have "length (crypto_frame 0 (inj_bytes injection)) < 2 ^ 31"
      using l crypto_frame_length [of "inj_bytes injection"] varint_len_le [of "length (inj_bytes injection)"] by simp
    ultimately obtain pkt where p: "build_short_header_crypto_packet (w_debug W) (pb_dcid builder) 0
        (crypto_frame 0 (inj_bytes injection)) (keys_local ks) = Ret (Inr pkt)"
      using build_short_protected by metis
    then have c: "carries W (pb_dcid builder) (pb_scid builder) (OneRtt_pkt 0 (inj_bytes injection)) pkt"
      using r by auto
    have f: "encode_crypto_frame 0 (inj_bytes injection) = Ret (crypto_frame 0 (inj_bytes injection))"
      using l by (simp add: encode_crypto_frame_def encode_varint_nat crypto_frame_def)
    let ?t = "s\<lparr>h_sent := h_sent s @ [(server_addr (w_env W), pkt)], d_one_rtt_send_pn := 1, d_injected := True\<rparr>"
    have "accounted W mode builder (ls @ [OneRtt_pkt 0 (inj_bytes injection)]) (h_sent ?t)"
      using accounted_OneRtt [of W injection builder ls "h_sent s" pkt] ls c n mode by (simp add: logged_def del: carries.simps)
    then have "going W budget mode builder h ?t"
      by (rule going_injected [OF g mode(1) _ _ _ _ ls]) (use n mode ls in \<open>simp_all add: injected_data_def logged_def\<close>)
    then show ?thesis
      using J by (simp add: inject_once_def inject_now_def mode then_do_def gets_def Some pure_def f p n try_with_def yield_def
          send_to_def modify_def split: sum.split)
  qed
qed

lemma triple_inject_now:
  assumes "sane W budget" "length (inj_bytes injection) \<le> 1100" "mode = Some injection"
  shows "triple (\<lambda>s. going W budget mode builder h s \<and> \<not> d_injected s)
    (inject_once W injection (server_addr (w_env W)) (pb_dcid builder) (pb_scid builder))
    (\<lambda>_. going W budget mode builder h) (over W mode builder)"
  using inject_handshake [OF assms] inject_one_rtt [OF assms] by (cases "inj_epoch injection") auto

lemma triple_inject_when:
  assumes "sane W budget" "length (inj_bytes injection) \<le> 1100" "mode = Some injection"
  shows "triple (going W budget mode builder h)
    (inject_when ready W injection (server_addr (w_env W)) (pb_dcid builder) (pb_scid builder))
    (\<lambda>_. going W budget mode builder h) (over W mode builder)"
  unfolding inject_when_def
  by (intro triple_gets_do triple_if triple_conseq [OF triple_inject_now [OF assms]] triple_yield) auto

section \<open>Receive loops\<close>

lemma triple_walk:
  assumes "\<And>offset. offset < length d \<Longrightarrow> triple I (step d offset) (\<lambda>st s. I s \<and> onward offset st) J"
  shows "triple I (walk_packets step d 0) (\<lambda>_. I) J"
  using triple_walk_packets [of d I step J 0] assms by (simp add: onward_def)

lemma triple_drain_loop:
  assumes "sane W budget"
  shows "triple (going W budget mode builder h) (drain_loop W malformed scid h events)
    (\<lambda>_. going W budget mode builder h) (over W mode builder)"
proof (induction events)
  case (Cons e es)
  then show ?case
    by (auto intro!: triple_then_do [OF triple_walk [OF triple_drain_packet [OF assms]]] triple_yield split: recv_event.split)
qed (simp add: triple_yield)

lemma triple_handshake_walk:
  assumes "sane W budget"
    and "triple (going W budget mode builder h) pump (\<lambda>_. going W budget mode builder h) (over W mode builder)"
  shows "triple (going W budget mode builder h) (walk_packets (handshake_packet W h pump) d 0)
    (\<lambda>_. going W budget mode builder h) (over W mode builder)"
  by (rule triple_walk) (rule triple_handshake_packet [OF assms(1) _ assms(2)])

lemma triple_full_loop:
  assumes "sane W budget"
    and pump: "triple (going W budget mode builder h) pump (\<lambda>_. going W budget mode builder h) (over W mode builder)"
  shows "triple (going W budget mode builder h) (full_loop W h pump events)
    (\<lambda>_. going W budget mode builder h) (over W mode builder)"
proof (induction events)
  case (Cons e es)
  then show ?case
    by (auto intro!: triple_gets_any triple_then_do [OF triple_handshake_walk [OF assms(1) pump]]
        triple_then_do [OF pump] triple_yield triple_throw going_over split: recv_event.split)
qed (simp add: triple_yield)

lemma triple_injection_pump:
  assumes "sane W budget" "length (pb_dcid builder) \<le> 20" "length (pb_scid builder) \<le> 20" "mode = Some injection"
  shows "triple (going W budget mode builder h)
    (injection_pump W injection (server_addr (w_env W)) (pb_dcid builder) (pb_scid builder) h)
    (\<lambda>_. going W budget mode builder h) (over W mode builder)"
  using triple_pump [OF assms(1-3), of mode h] triple_discarding [OF assms(1-3), of mode h] assms(4)
  by (auto simp: injection_pump_def split: InjectionEpoch.split)

lemma triple_injection_loop:
  assumes W: "sane W budget" and l: "length (pb_dcid builder) \<le> 20" "length (pb_scid builder) \<le> 20"
    and i: "length (inj_bytes injection) \<le> 1100" "mode = Some injection"
  shows "triple (going W budget mode builder h)
    (injection_loop W injection (server_addr (w_env W)) (pb_dcid builder) (pb_scid builder) h events)
    (\<lambda>_. going W budget mode builder h) (over W mode builder)"
proof (induction events)
  case (Cons e es)
  note pump = triple_injection_pump [OF W l i(2), of h]
  from Cons show ?case
    by (auto intro!: triple_gets_any triple_then_do [OF triple_handshake_walk [OF W pump]]
        triple_then_do [OF pump] triple_then_do [OF triple_inject_when [OF W i]] triple_yield triple_throw going_over
        split: recv_event.split)
qed (simp add: triple_yield)

section \<open>Drivers\<close>

text \<open>The drivers begin with nothing sent, and a budget that leaves room for the packet numbers.\<close>

definition fresh ::
  "('c \<Rightarrow> nat) \<Rightarrow> PacketBuilder \<Rightarrow> ('z, 'c) driver \<Rightarrow> bool" where
  "fresh budget builder s \<longleftrightarrow> (\<exists>conn shim. s = new_driver conn builder shim \<and> unat (pb_packet_number builder) + budget conn < 2 ^ 64)"

lemma accounted_Nil [simp]: "accounted W mode builder [] []"
  by (cases mode) (auto simp: accounted_def split: InjectionEpoch.split)

lemma fresh_over: "fresh budget builder s \<Longrightarrow> over W mode builder s"
  by (auto simp: fresh_def over_def new_driver_def intro: exI [of _ "[]"])

lemma fresh_running:
  assumes "fresh budget builder s" "KEYS_TABLE (h_shim s) h = Some (initial_entry (w_suite W) (pb_dcid builder))"
  shows "running W budget mode builder h 0 (budget (d_conn s)) s"
proof -
  have "logged W mode builder [] s"
    using assms(1) by (auto simp: fresh_def new_driver_def logged_def injected_data_def split: option.split InjectionEpoch.split)
  then show ?thesis
    using assms by (auto simp: running_def keys_ok_def initial_entry_def initial_of_def Let_def reuses_def fresh_def new_driver_def)
qed

lemma triple_take_client_hello:
  assumes "sane W budget"
  shows "triple (going W budget mode builder h) (take_client_hello W)
    (\<lambda>out s. length out \<le> 16000 \<and> (\<exists>b. running W budget mode builder h 1 b s)) (over W mode builder)"
  unfolding take_client_hello_def going_def
proof (rule triple_ex, rule triple_then_do [OF triple_write_hs [OF assms]], goal_cases)
  case (1 b r)
  then show ?case
    by (cases r) (auto simp: wrote_def Option.is_none_def dest: running_over intro!: triple_throw triple_yield split: if_splits)
qed

lemma triple_send_hello:
  assumes W: "sane W budget" and l: "length (pb_dcid builder) \<le> 20" "length (pb_scid builder) \<le> 20"
    and t: "unat (parse_env_or (w_env W) ''TLS_HANDSHAKE_TIMEOUT_MS'' 500) < 2 ^ 62"
  shows "triple (\<lambda>s. fresh budget builder s \<and> KEYS_TABLE (h_shim s) h = Some (initial_entry (w_suite W) (pb_dcid builder)))
    (send_hello W (server_addr (w_env W)) h) (\<lambda>_. going W budget mode builder h) (over W mode builder)"
  unfolding send_hello_def
proof (rule triple_then_do [OF triple_open_socket], goal_cases)
  case (2 timeout)
  let ?P = "\<lambda>s. fresh budget builder s \<and> KEYS_TABLE (h_shim s) h = Some (initial_entry (w_suite W) (pb_dcid builder))"
  have m: "ensures (u64_mul timeout 4) (\<lambda>_. True)" if "timeout = parse_env_or (w_env W) ''TLS_HANDSHAKE_TIMEOUT_MS'' 500"
    using t that by (simp add: u64_mul_def)
  have hello: "triple ?P (take_client_hello W)
      (\<lambda>out s. length out \<le> 16000 \<and> (\<exists>b. running W budget mode builder h 1 b s)) (over W mode builder)"
    by (rule triple_conseq [OF triple_take_client_hello [OF W, of mode builder h]]) (auto simp: going_def dest: fresh_running)
  have send: "triple (\<lambda>s. length out \<le> 16000 \<and> (\<exists>b. running W budget mode builder h 1 b s))
      (send_initial W ''send Initial: '' (server_addr (w_env W)) out h) (\<lambda>_. going W budget mode builder h) (over W mode builder)"
    for out
  proof (rule triple_pre_conj [where b = "length out \<le> 16000"])
    assume "length out \<le> 16000"
    then show "triple (\<lambda>s. \<exists>b. running W budget mode builder h 1 b s)
      (send_initial W ''send Initial: '' (server_addr (w_env W)) out h) (\<lambda>_. going W budget mode builder h) (over W mode builder)"
      by (intro triple_ex triple_conseq [OF triple_send_initial [OF W l]]) (auto simp: going_def)
  qed auto
  show ?case
    by (rule triple_pre_conj [where b = "timeout = parse_env_or (w_env W) ''TLS_HANDSHAKE_TIMEOUT_MS'' 500" and P = ?P],
        rule triple_then_do [OF hello], rule triple_then_do [OF send], rule triple_pure_do [OF m], assumption, rule triple_yield)
      simp_all
qed (use fresh_over in blast)

lemma triple_run:
  assumes W: "sane W budget" and l: "length (pb_dcid builder) \<le> 20" "length (pb_scid builder) \<le> 20"
    and t: "unat (parse_env_or (w_env W) ''TLS_HANDSHAKE_TIMEOUT_MS'' 500) < 2 ^ 62"
    and loop: "\<And>h. triple (going W budget mode builder h) (loop h) (\<lambda>_. going W budget mode builder h) (over W mode builder)"
  shows "triple (fresh budget builder)
    (with_initial_keys W (pb_dcid builder) (\<lambda>h.
       then_do (send_hello W (server_addr (w_env W)) h) (\<lambda>_.
       then_do (loop h) (\<lambda>cc. if cc \<noteq> None then yield cc else drain_loop W malformed (pb_scid builder) h drain))))
    (\<lambda>_. over W mode builder) (over W mode builder)"
proof (rule triple_with_initial_keys [OF saneD(1,2) [OF W] l(1)], goal_cases)
  case (3 h)
  show ?case
    by (rule triple_then_do [OF triple_send_hello [OF W l t]], rule triple_then_do [OF loop], rule triple_if)
      (auto intro!: triple_yield triple_conseq [OF triple_drain_loop [OF W]] dest: going_over)
qed (auto simp: fresh_def new_driver_def over_def intro: exI [of _ "[]"])

definition settled ::
  "('c, 'sec, 'name, 'algs) world \<Rightarrow> Injection option \<Rightarrow> PacketBuilder \<Rightarrow> 'z drive_result \<Rightarrow> bool" where
  "settled W mode builder res \<longleftrightarrow> (\<exists>r sent shim ls. res = Some (Ret r, sent, shim) \<and> accounted W mode builder ls sent)"

lemma settled_run:
  assumes W: "sane W budget" and c: "\<forall>config name conn. w_connect W config QuicVersion_V1 name tp = Inr conn \<longrightarrow>
      unat (pb_packet_number builder) + budget conn < 2 ^ 64"
    and m: "triple (fresh budget builder) m (\<lambda>_. over W mode builder) (over W mode builder)"
  shows "settled W mode builder (with_alpn W [H3] shim (\<lambda>config. with_connection W config tp shim (\<lambda>conn.
    finish m (new_driver conn builder shim))))"
proof -
  obtain config where k: "build_quic_client_config_with_alpn W [H3] = Ret config"
    using W by (auto simp: sane_def build_quic_client_config_with_alpn_def)
  have "settled W mode builder (finish m (new_driver conn builder shim))"
    if "unat (pb_packet_number builder) + budget conn < 2 ^ 64" for conn
  proof -
    have "fresh budget builder (new_driver conn builder shim)" using that by (auto simp: fresh_def)
    from tripleD [OF m this] show ?thesis
      by (auto simp: finish_def result_in_iff over_def settled_def)
  qed
  then show ?thesis
    using c by (auto simp: with_alpn_def k with_connection_def settled_def intro: exI [of _ "[]"] split: sum.split)
qed

lemma full_settled:
  assumes W: "sane W budget" and l: "length (pb_dcid builder) \<le> 20" "length (pb_scid builder) \<le> 20"
    and t: "unat (parse_env_or (w_env W) ''TLS_HANDSHAKE_TIMEOUT_MS'' 500) < 2 ^ 62"
    and c: "\<forall>config name conn. w_connect W config QuicVersion_V1 name tp = Inr conn \<longrightarrow>
      unat (pb_packet_number builder) + budget conn < 2 ^ 64"
  shows "settled W None builder (drive_handshake_full W events drain builder tp shim)"
  unfolding drive_handshake_full_def drive_handshake_full_inner_def Let_def
  by (intro settled_run [OF W c] triple_run [OF W l t] triple_full_loop [OF W] triple_pump [OF W l]) simp

lemma injection_settled:
  assumes W: "sane W budget" and l: "length (pb_dcid builder) \<le> 20" "length (pb_scid builder) \<le> 20"
    and t: "unat (parse_env_or (w_env W) ''TLS_HANDSHAKE_TIMEOUT_MS'' 500) < 2 ^ 62"
    and c: "\<forall>config name conn. w_connect W config QuicVersion_V1 name tp = Inr conn \<longrightarrow>
      unat (pb_packet_number builder) + budget conn < 2 ^ 64"
  shows "settled W (Some injection) builder (drive_handshake_with_injection W events drain builder tp injection shim)"
proof (cases "length (inj_bytes injection) \<le> 1100")
  case True
  have "settled W (Some injection) builder (with_alpn W [H3] shim (\<lambda>config.
      drive_handshake_with_injection_inner W events drain builder tp injection config shim))"
    unfolding drive_handshake_with_injection_inner_def Let_def
    by (intro settled_run [OF W c] triple_run [OF W l t] triple_injection_loop [OF W l True]) simp
  with True show ?thesis by (simp add: drive_handshake_with_injection_def)
qed (auto simp: drive_handshake_with_injection_def settled_def intro: exI [of _ "[]"])

section \<open>A sample world\<close>

text \<open>
  A connection that has four outputs to give: a ClientHello, the Handshake keys, a Finished
  and the 1-RTT keys.
\<close>

definition sample_ks :: keys where
  "sample_ks = \<lparr>keys_local = sample_keys, keys_remote = sample_keys\<rparr>"

definition sample_write_hs :: "nat \<Rightarrow> (bytes \<times> unit KeyChange option) \<times> nat" where
  "sample_write_hs n =
     (if n = 4 then ([1, 2, 3], None) else if n = 3 then ([], Some (KeyChange_Handshake sample_ks))
      else if n = 2 then ([20, 0, 0, 0], None) else if n = 1 then ([], Some (KeyChange_OneRtt sample_ks ())) else ([], None),
      n - 1)"

definition sample_world :: "(nat, unit, unit, unit) world" where
  "sample_world =
     \<lparr>w_provider = (), w_tls13_builder = (\<lambda>v. Inr \<lparr>hc_verifier = v, hc_alpn_protocols = []\<rparr>), w_server_name = (\<lambda>_. Inr ()),
      w_connect = (\<lambda>_ _ _ _. Inr 4),
      w_tls = \<lparr>tc_read_hs = (\<lambda>_ n. (None, n)), tc_write_hs = sample_write_hs, tc_is_handshaking = (\<lambda>n. n \<noteq> 0)\<rparr>,
      w_suite = \<lparr>suite_tls13 = True, suite_quic = True, Keys_initial = (\<lambda>_ _ _. sample_ks)\<rparr>,
      w_debug = id, w_env = (\<lambda>_. None), w_bind = Inr (), w_set_read_timeout = (\<lambda>_. Inr ()), w_send_to = (\<lambda>_ _ _. Inr ())\<rparr>"

lemma sample_ks_wf: "wf_keys sample_ks"
  using sample_paired sample_wf by (auto simp: wf_keys_def sample_ks_def wf_entry_def)

lemma sample_sane: "sane sample_world id"
  using sample_ks_wf
  by (auto simp: sane_def quiet_def sample_world_def initial_of_def sample_write_hs_def split: if_splits)

section \<open>Properties\<close>



end
