(* ===== verification/Scenarios.thy ===== *)
theory Scenarios
  imports Harness_Runs Client_Hello Transport_Params
begin

text \<open>
  The scenario binaries of the conformance client
  (\<open>conformance/tls-conformance/src/bin/*.rs\<close>): what each \<open>main\<close> sends, which driver it runs
  and with which status it exits. What it prints on standard error is not part of the model.
  \<open>dcid\<close> is the destination ID that \<open>thread_rng\<close> filled in.
\<close>

section \<open>Exit status\<close>

text \<open>\<open>None\<close> when the driver does not return; a panic of the driver is one of \<open>main\<close>.\<close>

type_synonym exit_status = "nat outcome option"

definition exit_of :: "(string + ConnectionClose option \<Rightarrow> nat) \<Rightarrow> 'z drive_result \<Rightarrow> exit_status" where
  "exit_of f res = map_option (\<lambda>(r, _). omap f r) res"

text \<open>A CONNECTION_CLOSE that passes the assertion, and nothing else, is a pass.\<close>

definition expect_close :: "(ConnectionClose \<Rightarrow> string + unit) \<Rightarrow> string + ConnectionClose option \<Rightarrow> nat" where
  "expect_close check r =
     (case r of
        Inr (Some cc) \<Rightarrow> (case check cc of Inr _ \<Rightarrow> 0 | Inl _ \<Rightarrow> 1)
      | Inr None \<Rightarrow> 1
      | Inl _ \<Rightarrow> 1)"

definition expect_progress :: "string + ConnectionClose option \<Rightarrow> nat" where
  "expect_progress r = (case r of Inr None \<Rightarrow> 0 | Inr (Some _) \<Rightarrow> 1 | Inl _ \<Rightarrow> 1)"

text \<open>A value computed before the driver runs, whose computation may panic.\<close>

definition with_value :: "'a outcome \<Rightarrow> ('a \<Rightarrow> exit_status) \<Rightarrow> exit_status" where
  "with_value m body = (case m of Ret x \<Rightarrow> body x | Panic \<Rightarrow> Some Panic | Undef \<Rightarrow> Some Undef)"

text \<open>\<open>PacketBuilder::new\<close> on the random destination ID and eight zero bytes.\<close>

definition with_builder :: "bytes \<Rightarrow> (PacketBuilder \<Rightarrow> exit_status) \<Rightarrow> exit_status" where
  "with_builder dcid body = with_value (PacketBuilder_new dcid (replicate 8 0)) body"

section \<open>Transport-parameter scenarios\<close>

definition tp_scenario ::
  "bytes outcome \<Rightarrow> string \<Rightarrow> (string \<Rightarrow> string) \<Rightarrow> ('c, 'sec, 'name, 'algs) world \<Rightarrow> recv_event list \<Rightarrow> recv_event list \<Rightarrow>
   bytes \<Rightarrow> 'z keys_shim_scheme \<Rightarrow> exit_status" where
  "tp_scenario tp tag debug_str W events drain dcid shim =
     with_builder dcid (\<lambda>builder.
     with_value tp (\<lambda>tp.
     exit_of (expect_close (\<lambda>cc. assert_transport_param_error_with_tag debug_str cc tag))
       (drive_handshake_full W events drain builder tp shim)))"

definition f02_main where
  "f02_main = tp_scenario f02_missing_initial_scid ''[QUIC-TP-INITIAL-SCID-MISSING]''"

definition f03_main where
  "f03_main = tp_scenario f03_original_dcid_forbidden ''[QUIC-TP-ORIGINAL-DCID-FORBIDDEN]''"

definition f04_main where
  "f04_main = tp_scenario f04_preferred_addr_forbidden ''[QUIC-TP-PREFERRED-ADDR-FORBIDDEN]''"

definition f05_main where
  "f05_main = tp_scenario f05_retry_scid_forbidden ''[QUIC-TP-RETRY-SCID-FORBIDDEN]''"

definition f06_main where
  "f06_main = tp_scenario f06_stateless_reset_forbidden ''[QUIC-TP-STATELESS-RESET-FORBIDDEN]''"

definition f07_main where
  "f07_main = tp_scenario f07_max_udp_payload_below_min ''[QUIC-TP-MAX-UDP-PAYLOAD-RANGE]''"

definition f08_main where
  "f08_main = tp_scenario f08_ack_delay_exponent_above_max ''[QUIC-TP-ACK-DELAY-EXP-RANGE]''"

definition f09_main where
  "f09_main = tp_scenario f09_max_ack_delay_above_threshold ''[QUIC-TP-MAX-ACK-DELAY-RANGE]''"

section \<open>TLS scenarios\<close>

definition injection_scenario ::
  "Injection \<Rightarrow> ('c, 'sec, 'name, 'algs) world \<Rightarrow> recv_event list \<Rightarrow> recv_event list \<Rightarrow> bytes \<Rightarrow> 'z keys_shim_scheme \<Rightarrow>
   exit_status" where
  "injection_scenario injection W events drain dcid shim =
     with_builder dcid (\<lambda>builder.
     with_value server_tp_bytes_well_formed (\<lambda>tp.
     exit_of (expect_close (\<lambda>cc. assert_crypto_error_low_byte cc [10, 47, 50]))
       (drive_handshake_with_injection W events drain builder tp injection shim)))"

definition f25_main where
  "f25_main = injection_scenario \<lparr>inj_epoch = InjectionEpoch_Handshake, inj_bytes = [0x18, 0x00, 0x00, 0x01, 0x00]\<rparr>"

definition f26_main where
  "f26_main = injection_scenario \<lparr>inj_epoch = InjectionEpoch_OneRtt, inj_bytes = [0x18, 0x00, 0x00, 0x01, 0x00]\<rparr>"

definition f29_main where
  "f29_main = injection_scenario \<lparr>inj_epoch = InjectionEpoch_Handshake, inj_bytes = [0x05, 0x00, 0x00, 0x00]\<rparr>"

definition f27_main ::
  "('c, 'sec, 'name, 'algs) world \<Rightarrow> recv_event \<Rightarrow> bytes \<Rightarrow> 'z keys_shim_scheme \<Rightarrow> exit_status" where
  "f27_main W event dcid shim =
     with_builder dcid (\<lambda>builder.
     with_value server_tp_bytes_well_formed (\<lambda>tp.
     exit_of (expect_close (\<lambda>cc. assert_crypto_error_low_byte cc [120, 50]))
       (drive_handshake_initial_no_alpn W event builder tp shim)))"

text \<open>\<open>random\<close> is the ClientHello random that \<open>build\<close> draws.\<close>

definition f28_main ::
  "bytes \<Rightarrow> ('c, 'sec, 'name, 'algs) world \<Rightarrow> recv_event \<Rightarrow> bytes \<Rightarrow> 'z keys_shim_scheme \<Rightarrow> exit_status" where
  "f28_main random W event dcid shim =
     with_builder dcid (\<lambda>builder.
     with_value (build random ClientHello_default) (\<lambda>r.
     case r of
       Inl _ \<Rightarrow> Some (Ret 1)
     | Inr ch \<Rightarrow>
         exit_of (expect_close (\<lambda>cc. assert_crypto_error_low_byte cc [109, 50, 47]))
           (drive_handshake_with_raw_clienthello W event builder ch shim)))"

definition tls_sanity_handshake_main ::
  "('c, 'sec, 'name, 'algs) world \<Rightarrow> recv_event \<Rightarrow> bytes \<Rightarrow> 'z keys_shim_scheme \<Rightarrow> exit_status" where
  "tls_sanity_handshake_main W event dcid shim =
     with_builder dcid (\<lambda>builder.
     with_value server_tp_bytes_well_formed (\<lambda>tp.
     exit_of expect_progress (drive_handshake_initial W event builder tp shim)))"

section \<open>Verdicts\<close>

lemma contains_iff: "contains xs tag \<longleftrightarrow> (\<exists>us vs. xs = us @ tag @ vs)"
proof (induction xs)
  case (Cons c cs)
  have "take (length tag) (c # cs) = tag \<longleftrightarrow> (\<exists>vs. c # cs = tag @ vs)"
    by (metis append_eq_conv_conj append_take_drop_id)
  moreover have "(\<exists>us vs. c # cs = us @ tag @ vs) \<longleftrightarrow> (\<exists>vs. c # cs = tag @ vs) \<or> (\<exists>us vs. cs = us @ tag @ vs)"
    by (metis append_Cons append_Nil list.exhaust list.inject)
  ultimately show ?case using Cons.IH by simp
qed simp

lemma ucast_byte_inj: "(ucast (a :: byte) :: u64) = ucast b \<longleftrightarrow> a = b"
  by (metis unat_ucast_byte word_unat_eq_iff)

lemma unat_crypto_error: "unat (0x100 + ucast (a :: byte) :: u64) = 0x100 + unat a"
  using unat_word_less [of a] by (simp add: unat_word_ariths unat_ucast_byte)

lemma crypto_error_code:
  fixes code :: u64
  shows "0x0100 \<le> code \<and> code \<le> 0x01ff \<longleftrightarrow> (\<exists>a :: byte. code = 0x100 + ucast a)"
    and "ucast ((0x100 + ucast a :: u64) AND 0xff) = (a :: byte)"
proof -
  have "\<exists>a :: byte. code = 0x100 + ucast a" if r: "256 \<le> unat code" "unat code \<le> 511"
  proof -
    from r obtain n where n: "unat code = 256 + n" "n < 256" using le_Suc_ex by fastforce
    then have "unat code = unat (0x100 + ucast (word_of_nat n :: byte) :: u64)"
      by (simp only: unat_crypto_error unat_byte_of_nat)
    then show ?thesis by (auto simp: word_unat_eq_iff)
  qed
  moreover have "unat a \<le> 255" for a :: byte using unat_word_less [of a] by simp
  ultimately show "0x0100 \<le> code \<and> code \<le> 0x01ff \<longleftrightarrow> (\<exists>a :: byte. code = 0x100 + ucast a)"
    by (auto simp: word_le_nat_alt unat_crypto_error)
  have "(0x100 + ucast a :: u64) AND 0xff = take_bit 8 (0x100 + ucast a)"
    by (simp add: take_bit_eq_mask mask_eq_exp_minus_1)
  moreover have "unat (take_bit 8 (0x100 + ucast a :: u64)) = unat a"
    unfolding unsigned_take_bit_eq unat_crypto_error using unat_word_less [of a] by (simp add: take_bit_eq_mod)
  ultimately have "unat ((0x100 + ucast a :: u64) AND 0xff) = unat a" by simp
  then show "ucast ((0x100 + ucast a :: u64) AND 0xff) = (a :: byte)"
    using unat_word_less [of a] by (simp add: word_unat_eq_iff unsigned_ucast_eq take_bit_eq_mod)
qed

lemma assert_crypto_error_iff:
  "assert_crypto_error_low_byte cc as = Inr () \<longleftrightarrow>
   cc_frame_type cc = 0x1c \<and> (\<exists>a \<in> set as. cc_error_code cc = 0x100 + ucast a)"
  using crypto_error_code(1) [of "cc_error_code cc"]
  by (auto simp: assert_crypto_error_low_byte_def Let_def crypto_error_code(2) ucast_byte_inj)

lemma assert_transport_param_error_iff:
  "assert_transport_param_error_with_tag debug_str cc tag = Inr () \<longleftrightarrow>
   cc_frame_type cc = 0x1c \<and> cc_error_code cc = 0x08 \<and> (\<exists>us vs. cc_reason cc = us @ tag @ vs)"
  by (auto simp: assert_transport_param_error_with_tag_def contains_iff)

section \<open>Properties\<close>

lemma sum_unit_iff: "(case r of Inr _ \<Rightarrow> 0 | Inl _ \<Rightarrow> 1) = (0 :: nat) \<longleftrightarrow> r = Inr ()"
  by (cases r) auto

lemma omap_eq_Ret: "omap f m = Ret y \<longleftrightarrow> (\<exists>x. m = Ret x \<and> f x = y)"
  by (cases m) simp_all

lemma exit_of_zero:
  "exit_of f res = Some (Ret 0) \<longleftrightarrow> (\<exists>r sent shim. res = Some (Ret r, sent, shim) \<and> f r = 0)"
  by (auto simp: exit_of_def omap_eq_Ret)

lemma expect_close_zero: "expect_close check r = 0 \<longleftrightarrow> (\<exists>cc. r = Inr (Some cc) \<and> check cc = Inr ())"
  by (auto simp: expect_close_def sum_unit_iff split: sum.split option.split)

lemma expect_progress_zero: "expect_progress r = 0 \<longleftrightarrow> r = Inr None"
  by (auto simp: expect_progress_def split: sum.split option.split)

lemma with_value_zero: "with_value m body = Some (Ret x) \<longleftrightarrow> (\<exists>v. m = Ret v \<and> body v = Some (Ret x))"
  by (cases m) (simp_all add: with_value_def)

lemma with_builder_eq:
  "length dcid \<le> 20 \<Longrightarrow> with_builder dcid body = body \<lparr>pb_dcid = dcid, pb_scid = replicate 8 0, pb_packet_number = 0\<rparr>"
  by (simp add: with_builder_def PacketBuilder_new_def MAX_CID_LEN_def with_value_def)

lemmas exit_zero = exit_of_zero expect_close_zero expect_progress_zero with_value_zero with_builder_eq
  assert_crypto_error_iff assert_transport_param_error_iff



end
