(* ===== verification/Harness_Reports.thy ===== *)
theory Harness_Reports
  imports Scenarios
begin

text \<open>
  What the raw ClientHello driver reports when the server answers: the path from the
  server's protected Initial packet through the header parser, the keys of the shim and the
  frame scanner to the driver's result.
\<close>

section \<open>A server's answer\<close>

text \<open>
  An Initial packet of the server: version 1, its own connection IDs, a four-byte packet
  number, protected under \<open>tx\<close>, with the payload \<open>qp\<close>.
\<close>

definition answers :: "directional_keys \<Rightarrow> PacketBuilder \<Rightarrow> bytes \<Rightarrow> bytes \<Rightarrow> bool" where
  "answers tx srv qp pkt \<longleftrightarrow>
     length (pb_dcid srv) \<le> 20 \<and> length (pb_scid srv) \<le> 20 \<and> unat (pb_packet_number srv) < 2 ^ 32 \<and> length qp + 20 < 2 ^ 14
   \<and> protected tx (pb_packet_number srv) (long_first 0) (long_body srv True (length_field True (4 + length qp + 16)))
       (to_be_bytes (ucast (pb_packet_number srv) :: u32)) qp pkt"

lemma answer_header:
  assumes a: "answers tx srv qp pkt" and k: "paired tx rx"
  obtains header where "parse_long_header (pkt @ after) = Ret (Some header)" "lh_packet_type header = 0"
    "lh_payload_offset header + lh_length header = length pkt" "pkt \<noteq> []" "(pkt @ after) ! 0 AND 0x80 \<noteq> 0"
    "\<And>(r :: 'z keys_shim_scheme) h e. KEYS_TABLE r h = Some e \<Longrightarrow> ke_remote e = rx \<Longrightarrow>
       decrypt_initial_inplace pkt header h r = Ret (Inr qp, clear_last_error r)"
proof -
  let ?len = "4 + length qp + 16" and ?pnb = "to_be_bytes (ucast (pb_packet_number srv) :: u32)"
  let ?hs = "long_body srv True (length_field True ?len)"
  have l: "length (pb_dcid srv) \<le> 20" "length (pb_scid srv) \<le> 20" "?len < 2 ^ 14" "?len < 2 ^ 62"
    and pn: "unat (pb_packet_number srv) < 2 ^ 32"
    and p: "protected tx (pb_packet_number srv) (long_first 0) ?hs ?pnb qp pkt"
    using a by (simp_all add: answers_def)
  have n: "length ?pnb = 4" by simp
  let ?header = "\<lparr>lh_version = 1, lh_packet_type = 0, lh_dcid = pb_dcid srv, lh_scid = pb_scid srv, lh_token = [],
      lh_payload_offset = Suc (length ?hs), lh_length = ?len\<rparr>"
  have parse: "parse_long_header (pkt @ after) = Ret (Some ?header)" "length pkt = Suc (length ?hs) + ?len"
    using parse_protected(1) [OF k _ l(1,2) refl l(4) _ n p, where after = after]
      parse_protected(2) [OF k _ l(1,2) refl l(4) _ n p] l(3) by simp_all
  show ?thesis
  proof (rule that [of ?header])
    show "parse_long_header (pkt @ after) = Ret (Some ?header)" by (rule parse(1))
    show "pkt \<noteq> []" using parse(2) by auto
    show "(pkt @ after) ! 0 AND 0x80 \<noteq> 0"
      using parse(1) by (auto simp: parse_long_header_def split: if_splits)
    have "length pkt < 2 ^ 31" using parse(2) l by (simp add: length_field_def)
    then show "decrypt_initial_inplace pkt ?header h r = Ret (Inr qp, clear_last_error r)"
      if "KEYS_TABLE r h = Some e" "ke_remote e = rx" for r :: "'z keys_shim_scheme" and h e
      using k that by (intro decrypt_initial_opens [OF that(1) _ p _ refl pn]) simp_all
  qed (simp_all add: parse(2))
qed

text \<open>Keys with a peer can send every such packet.\<close>

lemma answer_exists:
  assumes k: "paired tx rx" and l: "length (pb_dcid srv) \<le> 20" "length (pb_scid srv) \<le> 20"
    "unat (pb_packet_number srv) < 2 ^ 32" "length qp + 20 < 2 ^ 14"
  obtains pkt where "answers tx srv qp pkt" "length pkt \<le> length qp + 70"
proof -
  let ?hs = "long_body srv True (length_field True (4 + length qp + 16))"
  have q: "length (to_be_bytes (ucast (pb_packet_number srv) :: u32)) = 4" "length qp < 2 ^ 31" using l(4) by simp_all
  obtain tag c b' pn' where p: "pk_encrypt_in_place (dk_packet tx) (pb_packet_number srv)
      (long_first 0 # ?hs @ to_be_bytes (ucast (pb_packet_number srv) :: u32)) qp = (Inr tag, c)"
    "hk_encrypt_in_place (dk_header tx) (take 16 (c @ tag)) (long_first 0) (to_be_bytes (ucast (pb_packet_number srv) :: u32)) =
      (Inr (), b', pn')"
    "length tag = 16" "length c = length qp" "length pn' = 4"
    by (rule protected_exists [OF k q])
  show ?thesis
  proof (rule that [of "b' # ?hs @ pn' @ c @ tag"])
    show "answers tx srv qp (b' # ?hs @ pn' @ c @ tag)"
      using p l by (auto simp: answers_def protected_def)
    show "length (b' # ?hs @ pn' @ c @ tag) \<le> length qp + 70"
      using p l by (simp add: long_body_def length_field_def long_prefix_def)
  qed
qed

section \<open>The driver\<close>

lemma initial_keys_ok:
  assumes "suite_tls13 suite" "suite_quic suite" "length dcid \<le> 20" "0 < sint (NEXT_HANDLE s)"
  obtains s' where "initial_keys suite Client dcid s = Ret (Inr (NEXT_HANDLE s), s')"
    "KEYS_TABLE s' (NEXT_HANDLE s) = Some (initial_entry suite dcid)"
  using assms
  by (auto simp: initial_keys_def rlsm_initial_keys_def Let_def role_to_int_def i32_try_from_def sint_i32_of_usize
      from_raw_parts_Ptr to_quic_version_def QUIC_VERSION_V1_def initial_suite_def initial_entry_def
      keys_table_insert_def HandleTable_insert_def next_handle_pos)

lemma with_initial_keys_eq:
  "initial_keys (w_suite W) Client dcid (h_shim s) = Ret (Inr h, shim) \<Longrightarrow>
   with_initial_keys W dcid body s = dropping h (body h) (s\<lparr>h_shim := shim\<rparr>)"
  by (simp add: with_initial_keys_def then_do_def on_shim_def try_with_def yield_def)

text \<open>The socket can be opened and takes the datagram.\<close>

definition socket_works :: "('c, 'sec, 'name, 'algs) world \<Rightarrow> bool" where
  "socket_works W \<longleftrightarrow> w_bind W = Inr () \<and> (\<forall>t. w_set_read_timeout W t = Inr ())
     \<and> (\<forall>pkt. w_send_to W [] (server_addr (w_env W)) pkt = Inr ())"

lemma raw_packet_reports:
  assumes a: "answers tx srv (concat (map frame_bytes fs) @ close) pkt"
    and k: "paired tx (keys_remote (initial_of W (pb_dcid builder)))" "keys_ok W builder h s"
    and f: "list_all frame_ok fs" "list_all in_initial fs" "parse_connection_close close = Ret (Some cc)"
  obtains s' where "walk_packets (raw_packet h) (pkt @ after) 0 s = Some (Ret (Inr (Some cc)), s')" "h_sent s' = h_sent s"
proof -
  obtain header where hd: "parse_long_header (pkt @ after) = Ret (Some header)" "lh_packet_type header = 0"
      "lh_payload_offset header + lh_length header = length pkt" "pkt \<noteq> []" "(pkt @ after) ! 0 AND 0x80 \<noteq> 0"
    and dec: "\<And>h e. KEYS_TABLE (h_shim s) h = Some e \<Longrightarrow> ke_remote e = keys_remote (initial_of W (pb_dcid builder)) \<Longrightarrow>
       decrypt_initial_inplace pkt header h (h_shim s) = Ret (Inr (concat (map frame_bytes fs) @ close), clear_last_error (h_shim s))"
    using answer_header [OF a k(1)] by metis
  have d: "decrypt_initial_inplace pkt header h (h_shim s) = Ret (Inr (concat (map frame_bytes fs) @ close), clear_last_error (h_shim s))"
    using k(2) dec by (auto simp: keys_ok_def)
  have "raw_packet h (pkt @ after) 0 s = Some (Ret (Inr (Close cc)), s\<lparr>h_shim := clear_last_error (h_shim s)\<rparr>)"
    using hd cc_scan_finds [OF f]
    by (simp add: raw_packet_def cut_packet_def then_do_def pure_def yield_def Let_def open_initial_def on_shim_def d
        try_with_def or_next_def)
  then show ?thesis
    using hd(4) that by (subst (asm) walk_packets.simps) simp
qed

lemma raw_driver_reports:
  assumes W: "suite_tls13 (w_suite W)" "suite_quic (w_suite W)" "wf_keys (initial_of W (pb_dcid builder))" "socket_works W"
    and l: "length (pb_dcid builder) \<le> 20" "length (pb_scid builder) \<le> 20" "unat (pb_packet_number builder) + 1 < 2 ^ 64"
    and ch: "ch \<noteq> []" "length ch \<le> 16000" and h: "0 < sint (NEXT_HANDLE shim)"
    and a: "answers tx srv (concat (map frame_bytes fs) @ close) pkt" "length (pkt @ after) \<le> 4096"
      "paired tx (keys_remote (initial_of W (pb_dcid builder)))"
    and f: "list_all frame_ok fs" "list_all in_initial fs" "parse_connection_close close = Ret (Some cc)"
  shows "\<exists>p shim'. drive_handshake_with_raw_clienthello W (Datagram (pkt @ after)) builder ch shim =
      Some (Ret (Inr (Some cc)), [(server_addr (w_env W), p)], shim')
    \<and> carries W (pb_dcid builder) (pb_scid builder) (Initial_pkt (pb_packet_number builder) ch) p"
proof -
  let ?h = "NEXT_HANDLE shim" and ?server = "server_addr (w_env W)"
  obtain shim1 where 1: "initial_keys (w_suite W) Client (pb_dcid builder) shim = Ret (Inr ?h, shim1)"
    "KEYS_TABLE shim1 ?h = Some (initial_entry (w_suite W) (pb_dcid builder))"
    using initial_keys_ok [OF W(1,2) l(1) h] by metis
  define s1 where "s1 = \<lparr>h_builder = builder, h_sent = [], h_shim = shim1\<rparr>"
  have "keys_ok W builder ?h s1"
    using 1(2) by (simp add: keys_ok_def s1_def initial_entry_def initial_of_def Let_def reuses_def)
  from encode_initial_carries [OF W(3) this _ l(3,1,2) ch(2)]
  obtain p shim2 where 2: "encode_initial ch ?h builder shim1 =
      Ret (p, builder\<lparr>pb_packet_number := pb_packet_number builder + 1\<rparr>, shim2)"
    "carries W (pb_dcid builder) (pb_scid builder) (Initial_pkt (pb_packet_number builder) ch) p"
    "keys_ok W builder ?h (s1\<lparr>h_builder := builder\<lparr>pb_packet_number := pb_packet_number builder + 1\<rparr>, h_shim := shim2\<rparr>)"
    by (auto simp: s1_def)
  define s2 where "s2 = s1\<lparr>h_builder := builder\<lparr>pb_packet_number := pb_packet_number builder + 1\<rparr>, h_shim := shim2,
      h_sent := [(?server, p)]\<rparr>"
  have "keys_ok W builder ?h s2" using 2(3) by (simp add: keys_ok_def s2_def)
  from raw_packet_reports [OF a(1,3) this f] obtain s3 where
    3: "walk_packets (raw_packet ?h) (pkt @ after) 0 s2 = Some (Ret (Inr (Some cc)), s3)" "h_sent s3 = [(?server, p)]"
    by (auto simp: s2_def)
  obtain shim4 where 4: "KeysHandle_drop ?h (h_shim s3) = Ret shim4"
    using KeysHandle_drop_returns [of ?h "h_shim s3"] by (cases "KeysHandle_drop ?h (h_shim s3)") auto
  have "exchange W (Datagram (pkt @ after)) RECV_BUF p (s1\<lparr>h_builder := builder\<lparr>pb_packet_number := pb_packet_number builder + 1\<rparr>,
      h_shim := shim2\<rparr>) = Some (Ret (Inr (pkt @ after)), s2)"
    using W(4) a(2)
    by (simp add: exchange_def open_socket_def then_do_def try_with_def yield_def Let_def send_to_def socket_works_def s1_def s2_def
        RECV_BUF_def)
  then have "then_do (build_initial ch ?h) (\<lambda>pkt'. then_do (exchange W (Datagram (pkt @ after)) RECV_BUF pkt') (\<lambda>reply.
      walk_packets (raw_packet ?h) reply 0)) s1 = Some (Ret (Inr (Some cc)), s3)"
    using 2(1) 3(1) by (simp add: then_do_def build_initial_def s1_def)
  then have "drive_handshake_with_raw_clienthello W (Datagram (pkt @ after)) builder ch shim =
      Some (Ret (Inr (Some cc)), [(?server, p)], shim4)"
    using ch(1) 1(1) 3(2) 4
    by (simp add: drive_handshake_with_raw_clienthello_def finish_def with_initial_keys_eq [where shim = shim1] dropping_def
        flip: s1_def)
  with 2(2) show ?thesis by blast
qed

lemma default_hello:
  assumes "length random = 32"
  obtains ch where "build random ClientHello_default = Ret (Inr ch)" "ch \<noteq> []" "length ch \<le> 16000"
  using build_eq [of ClientHello_default random] assms hello_body_length [OF assms]
  by (simp add: ClientHello_default_def exts_length)

lemma expect_close_crypto:
  "expect_close (\<lambda>cc. assert_crypto_error_low_byte cc as) (Inr (Some cc)) =
   (if cc_frame_type cc = 0x1c \<and> (\<exists>a \<in> set as. cc_error_code cc = 0x100 + ucast a) then 0 else 1)"
proof (cases "expect_close (\<lambda>cc. assert_crypto_error_low_byte cc as) (Inr (Some cc)) = 0")
  case True
  then show ?thesis by (auto simp: exit_zero)
next
  case False
  moreover have "expect_close (\<lambda>cc. assert_crypto_error_low_byte cc as) (Inr (Some cc)) \<in> {0, 1}"
    by (simp add: expect_close_def split: sum.split)
  ultimately show ?thesis by (auto simp: exit_zero)
qed

section \<open>A reply that announces less than its packet number\<close>

text \<open>
  The single-exchange driver takes the whole reply, not the packet its header delimits. When
  the header's Length is smaller than the packet-number length, the slice of the payload ends
  before it begins and the driver panics.
\<close>

lemma zero_length_panics:
  assumes h: "parse_long_header reply = Ret (Some header)" "lh_packet_type header = 0" "lh_length header = 0"
    and l: "0 < lh_payload_offset header" "lh_payload_offset header + 20 \<le> length reply"
    and u: "remote_header_unprotect keys (take 16 (drop (lh_payload_offset header + 4) reply)) (reply ! 0)
      (take 4 (drop (lh_payload_offset header) reply)) s = Ret ((Inr (), b, pn), s')" "length pn = 4"
  shows "open_initial_reply reply keys s = Panic"
proof -
  define n where "n = unat ((b AND 0x03) + 1)"
  have n: "n \<le> 4" "0 < n"
    using pn_length_le [of b] pn_length_pos [of b] by (simp_all add: n_def)
  show ?thesis
    using assms n
    by (simp add: open_initial_reply_def Let_def slice_range_def split_at_def index_def flip: n_def)
qed

end
