(* ===== verification/Raw_Client.thy ===== *)
theory Raw_Client
  imports Harness_Env
begin

text \<open>
  The raw-frame client (\<open>conformance/quiche-raw-frame-scenarios/src/lib.rs\<close>): it completes a
  handshake through a vendored quiche connection, sends one packet that quiche's interface
  would refuse, and waits for the server's CONNECTION_CLOSE. quiche, its HTTP/3 layer, the
  UDP socket, the random source and the environment are records of functions.
\<close>

section \<open>quiche and the operating system\<close>

record SocketAddr =
  sa_ip :: bytes
  sa_port :: u16

record RecvInfo =
  ri_from :: SocketAddr
  ri_to :: SocketAddr

datatype quic_error = Done | InvalidState | Other_error nat

datatype h3_error = H3_Done | H3_other nat

record ConnectionError =
  ce_is_app :: bool
  ce_error_code :: u64
  ce_reason :: bytes

datatype packet_type = Type_Handshake | Type_ZeroRTT | Type_Short

text \<open>The frames the scenarios build; a STREAM frame carries data, its offset and the fin bit.\<close>

datatype raw_frame =
    Frame_Stream u64 bytes u64 bool
  | Frame_Ping
  | Frame_PathChallenge bytes
  | Frame_ResetStream u64 u64 u64
  | Frame_StopSending u64 u64
  | Frame_NewToken bytes
  | Frame_MaxStreamData u64 u64
  | Frame_MaxStreamsBidi u64
  | Frame_StreamsBlockedBidi u64
  | Frame_NewConnectionId u64 u64 bytes bytes
  | Frame_HandshakeDone

type_synonym header = "bytes \<times> bytes"

datatype h3_event = Event_Headers "header list" | Event_other

text \<open>The settings a client configuration is given.\<close>

record client_config =
  cfg_verify_peer :: bool
  cfg_application_protos :: "bytes list"
  cfg_early_data :: bool
  cfg_max_idle_timeout :: u64
  cfg_max_recv_udp_payload_size :: nat
  cfg_max_send_udp_payload_size :: nat
  cfg_initial_max_data :: u64
  cfg_initial_max_stream_data_bidi_local :: u64
  cfg_initial_max_stream_data_bidi_remote :: u64
  cfg_initial_max_stream_data_uni :: u64
  cfg_initial_max_streams_bidi :: u64
  cfg_initial_max_streams_uni :: u64
  cfg_disable_active_migration :: bool

text \<open>
  A connection \<open>'q\<close> and its HTTP/3 layer \<open>'h\<close>. \<open>q_send\<close> is given the size of the output buffer
  and returns the datagram and where it goes. The three encoders return \<open>None\<close> when they
  panic.
\<close>

record ('q, 'h) quiche =
  q_Config_new :: "quic_error + unit"
  q_set_application_protos :: "bytes list \<Rightarrow> quic_error + unit"
  q_connect :: "string \<Rightarrow> bytes \<Rightarrow> SocketAddr \<Rightarrow> SocketAddr \<Rightarrow> client_config \<Rightarrow> quic_error + 'q"
  q_is_established :: "'q \<Rightarrow> bool"
  q_is_closed :: "'q \<Rightarrow> bool"
  q_peer_error :: "'q \<Rightarrow> ConnectionError option"
  q_local_error :: "'q \<Rightarrow> ConnectionError option"
  q_recv :: "bytes \<Rightarrow> RecvInfo \<Rightarrow> 'q \<Rightarrow> (quic_error + nat) \<times> 'q"
  q_on_timeout :: "'q \<Rightarrow> 'q"
  q_send :: "nat \<Rightarrow> 'q \<Rightarrow> (quic_error + bytes \<times> SocketAddr) \<times> 'q"
  q_encode_pkt :: "packet_type \<Rightarrow> raw_frame list \<Rightarrow> nat \<Rightarrow> 'q \<Rightarrow> (quic_error + bytes) option \<times> 'q"
  q_encode_pkt_with_payload :: "packet_type \<Rightarrow> bytes \<Rightarrow> nat \<Rightarrow> 'q \<Rightarrow> (quic_error + bytes) option \<times> 'q"
  q_encode_pkt_reserved_bits :: "packet_type \<Rightarrow> raw_frame list \<Rightarrow> byte \<Rightarrow> nat \<Rightarrow> 'q \<Rightarrow> (quic_error + bytes) option \<times> 'q"
  q_stream_send :: "u64 \<Rightarrow> bytes \<Rightarrow> bool \<Rightarrow> 'q \<Rightarrow> (quic_error + nat) \<times> 'q"
  q_session :: "'q \<Rightarrow> bytes option"
  q_set_session :: "bytes \<Rightarrow> 'q \<Rightarrow> (quic_error + unit) \<times> 'q"
  q_has_application_crypto_seal :: "'q \<Rightarrow> bool"
  q_close :: "bool \<Rightarrow> u64 \<Rightarrow> bytes \<Rightarrow> 'q \<Rightarrow> (quic_error + unit) \<times> 'q"
  h3_Config_new :: "h3_error + unit"
  h3_with_transport :: "'q \<Rightarrow> (h3_error + 'h) \<times> 'q"
  h3_send_request :: "header list \<Rightarrow> bool \<Rightarrow> 'h \<times> 'q \<Rightarrow> (h3_error + u64) \<times> 'h \<times> 'q"
  h3_send_body :: "u64 \<Rightarrow> bytes \<Rightarrow> bool \<Rightarrow> 'h \<times> 'q \<Rightarrow> (h3_error + nat) \<times> 'h \<times> 'q"
  h3_poll :: "'h \<times> 'q \<Rightarrow> (h3_error + u64 \<times> h3_event) \<times> 'h \<times> 'q"
  q_debug :: "quic_error \<Rightarrow> string"
  h3_debug :: "h3_error \<Rightarrow> string"

datatype ErrorKind = WouldBlock | TimedOut | Other_kind

record io_error =
  ie_kind :: ErrorKind
  ie_text :: string

text \<open>What has been sent, in order; what \<open>recv_from\<close> returns.\<close>

type_synonym log = "(SocketAddr \<times> bytes) list"

type_synonym recv_result = "io_error + bytes \<times> SocketAddr"

record net =
  n_bind :: "string \<Rightarrow> io_error + unit"
  n_set_read_timeout :: "nat \<Rightarrow> io_error + unit"
  n_local_addr :: "io_error + SocketAddr"
  n_random :: "nat \<Rightarrow> unit + bytes"
  n_send_to :: "log \<Rightarrow> SocketAddr \<Rightarrow> bytes \<Rightarrow> io_error + nat"
  n_env :: "string \<Rightarrow> string option"

record ('q, 'h) lab = "net" +
  quic :: "('q, 'h) quiche"

section \<open>State\<close>

record 'q raw =
  r_conn :: 'q
  r_sent :: log

definition abort :: "('s, 'a) act" where
  "abort s = Some (Panic, s)"

text \<open>A connection that comes into being inside a function, and what is left of it.\<close>

definition with_conn :: "(log \<Rightarrow> ('q, 'm) raw_scheme) \<Rightarrow> (('q, 'm) raw_scheme, 'a) act \<Rightarrow> (log, 'a \<times> 'q) act" where
  "with_conn start m sent =
     map_option (\<lambda>(r, s). (omap (map_sum id (\<lambda>x. (x, r_conn s))) r, r_sent s)) (m (start sent))"

text \<open>\<open>match\<close> on a result, and \<open>std::panic::catch_unwind\<close>.\<close>

definition attempt :: "('s, 'a) act \<Rightarrow> ('s, string + 'a) act" where
  "attempt m s = map_option (\<lambda>(r, s). (omap Inr r, s)) (m s)"

definition catch_unwind :: "('s, 'a) act \<Rightarrow> ('s, 'a option) act" where
  "catch_unwind m s =
     (case m s of
        None \<Rightarrow> None
      | Some (Panic, s) \<Rightarrow> Some (Ret (Inr None), s)
      | Some (r, s) \<Rightarrow> Some (omap (map_sum id Some) r, s))"

section \<open>Constants and configuration\<close>

definition MAX_DATAGRAM_SIZE :: nat where
  "MAX_DATAGRAM_SIZE = 1350"

definition MAX_CONN_ID_LEN :: nat where
  "MAX_CONN_ID_LEN = 20"

definition server_addr_with_port :: "u16 \<Rightarrow> SocketAddr" where
  "server_addr_with_port port = \<lparr>sa_ip = [127, 0, 0, 1], sa_port = port\<rparr>"

definition base_config :: "bool \<Rightarrow> client_config" where
  "base_config early_data =
     \<lparr>cfg_verify_peer = False, cfg_application_protos = [ascii ''h3''], cfg_early_data = early_data,
      cfg_max_idle_timeout = 5000,
      cfg_max_recv_udp_payload_size = MAX_DATAGRAM_SIZE, cfg_max_send_udp_payload_size = MAX_DATAGRAM_SIZE,
      cfg_initial_max_data = 10000000,
      cfg_initial_max_stream_data_bidi_local = 1000000, cfg_initial_max_stream_data_bidi_remote = 1000000,
      cfg_initial_max_stream_data_uni = 1000000,
      cfg_initial_max_streams_bidi = 100, cfg_initial_max_streams_uni = 100,
      cfg_disable_active_migration = True\<rparr>"

definition build_client_config :: "('q, 'h) lab \<Rightarrow> client_config outcome" where
  "build_client_config W =
     obind (expect (q_Config_new (quic W))) (\<lambda>_.
     obind (expect (q_set_application_protos (quic W) [ascii ''h3''])) (\<lambda>_.
     Ret (base_config False)))"

section \<open>Sending and receiving\<close>

text \<open>One \<open>conn.send\<close> with the \<open>send_to\<close> of what it gave; the loops differ in what ends them.\<close>

datatype send_outcome = Idle | Failed quic_error | Sent bytes | Refused bytes io_error

definition log_send :: "('q, 'h) lab \<Rightarrow> SocketAddr \<Rightarrow> bytes \<Rightarrow> (log, io_error + nat) act" where
  "log_send W to d sent =
     (case n_send_to W sent to d of
        Inl e \<Rightarrow> Some (Ret (Inr (Inl e)), sent)
      | Inr n \<Rightarrow> Some (Ret (Inr (Inr n)), sent @ [(to, d)]))"

definition sock_send :: "('q, 'h) lab \<Rightarrow> SocketAddr \<Rightarrow> bytes \<Rightarrow> (('q, 'm) raw_scheme, io_error + nat) act" where
  "sock_send W to d s = map_option (\<lambda>(r, sent). (r, s\<lparr>r_sent := sent\<rparr>)) (log_send W to d (r_sent s))"

definition send_next :: "('q, 'h) lab \<Rightarrow> (('q, 'm) raw_scheme, send_outcome) act" where
  "send_next W s =
     (case q_send (quic W) MAX_DATAGRAM_SIZE (r_conn s) of
        (Inl e, q) \<Rightarrow> Some (Ret (Inr (if e = Done then Idle else Failed e)), s\<lparr>r_conn := q\<rparr>)
      | (Inr (d, to), q) \<Rightarrow>
          then_do (sock_send W to d) (\<lambda>r. yield (case r of Inr _ \<Rightarrow> Sent d | Inl e \<Rightarrow> Refused d e)) (s\<lparr>r_conn := q\<rparr>))"

definition flush_send_step :: "('q, 'h) lab \<Rightarrow> (('q, 'm) raw_scheme, bool) act" where
  "flush_send_step W =
     then_do (send_next W) (\<lambda>o'.
     case o' of
       Sent _ \<Rightarrow> yield True
     | Refused _ e \<Rightarrow> if ie_kind e = WouldBlock then yield False else abort
     | Idle \<Rightarrow> yield False
     | Failed _ \<Rightarrow> abort)"

definition flush_send :: "('q, 'h) lab \<Rightarrow> (('q, 'm) raw_scheme, unit) act" where
  "flush_send W = loop_while (flush_send_step W)"

text \<open>One \<open>recv_from\<close>: what it gave is handed to quiche, a timeout drives its timers.\<close>

datatype received = Ingested "quic_error option" | Ticked | Broken io_error

definition RAW_RECV_BUF :: nat where
  "RAW_RECV_BUF = 65535"

definition ingest :: "('q, 'h) lab \<Rightarrow> SocketAddr \<Rightarrow> recv_result \<Rightarrow> (('q, 'm) raw_scheme, received) act" where
  "ingest W local e s =
     (case e of
        Inr (d, from) \<Rightarrow>
          (case q_recv (quic W) (take RAW_RECV_BUF d) \<lparr>ri_from = from, ri_to = local\<rparr> (r_conn s) of
             (r, q) \<Rightarrow> Some (Ret (Inr (Ingested (case r of Inl e \<Rightarrow> Some e | Inr _ \<Rightarrow> None))), s\<lparr>r_conn := q\<rparr>))
      | Inl e \<Rightarrow>
          if ie_kind e = WouldBlock \<or> ie_kind e = TimedOut
          then Some (Ret (Inr Ticked), s\<lparr>r_conn := q_on_timeout (quic W) (r_conn s)\<rparr>)
          else Some (Ret (Inr (Broken e)), s))"

text \<open>
  \<open>while !done(conn) && Instant::now() < deadline\<close> over a body that receives once: the results
  of \<open>recv_from\<close> are the list, whose end is the deadline.
\<close>

fun pump_until :: "('s \<Rightarrow> bool) \<Rightarrow> (recv_result \<Rightarrow> ('s, unit) act) \<Rightarrow> recv_result list \<Rightarrow> ('s, unit) act" where
  "pump_until stop body [] = yield ()"
| "pump_until stop body (e # es) =
     then_do (gets stop) (\<lambda>b.
     if b then yield () else then_do (body e) (\<lambda>_. pump_until stop body es))"

section \<open>Connecting\<close>

definition open_client :: "('q, 'h) lab \<Rightarrow> SocketAddr \<Rightarrow> ('s, 'q \<times> SocketAddr) act" where
  "open_client W server =
     then_do (pure (expect (n_bind W ''127.0.0.1:0''))) (\<lambda>_.
     then_do (pure (expect (n_set_read_timeout W 25))) (\<lambda>_.
     then_do (pure (expect (n_local_addr W))) (\<lambda>local.
     then_do (pure (expect (n_random W MAX_CONN_ID_LEN))) (\<lambda>scid.
     then_do (pure (build_client_config W)) (\<lambda>config.
     then_do (pure (expect (q_connect (quic W) ''localhost'' scid local server config))) (\<lambda>conn.
     yield (conn, local)))))))"

definition connect_step :: "('q, 'h) lab \<Rightarrow> SocketAddr \<Rightarrow> recv_result \<Rightarrow> (('q, 'm) raw_scheme, unit) act" where
  "connect_step W local e =
     then_do (ingest W local e) (\<lambda>r.
     case r of
       Ingested (Some _) \<Rightarrow> abort
     | Broken _ \<Rightarrow> abort
     | _ \<Rightarrow> flush_send W)"

definition navette_connect ::
  "('q, 'h) lab \<Rightarrow> u16 \<Rightarrow> recv_result list \<Rightarrow> (log, 'q \<times> SocketAddr \<times> SocketAddr) act" where
  "navette_connect W port events =
     (let server = server_addr_with_port port;
          established = (\<lambda>s. q_is_established (quic W) (r_conn s)) in
      then_do (open_client W server) (\<lambda>(conn, local).
      then_do (with_conn (raw.make conn)
        (then_do (flush_send W) (\<lambda>_.
         then_do (pump_until established (connect_step W local) events) (\<lambda>_.
         then_do (gets established) (\<lambda>b. if b then yield () else abort))))) (\<lambda>(_, conn).
      yield (conn, local, server))))"

text \<open>
  The probe of the Handshake keys: \<open>encode_pkt\<close> under \<open>catch_unwind\<close>; a panic or \<open>InvalidState\<close>
  says that there are none yet.
\<close>

datatype probe_outcome = Live | Not_yet | Probe_failed quic_error

definition probe :: "('q, 'h) lab \<Rightarrow> (('q, 'm) raw_scheme, probe_outcome) act" where
  "probe W s =
     (case q_encode_pkt (quic W) Type_Handshake [] MAX_DATAGRAM_SIZE (r_conn s) of
        (r, q) \<Rightarrow>
          Some (Ret (Inr (case r of
                            Some (Inr _) \<Rightarrow> Live
                          | Some (Inl e) \<Rightarrow> if e = InvalidState then Not_yet else Probe_failed e
                          | None \<Rightarrow> Not_yet)), s\<lparr>r_conn := q\<rparr>))"

fun keys_loop :: "('q, 'h) lab \<Rightarrow> SocketAddr \<Rightarrow> recv_result list \<Rightarrow> (('q, 'm) raw_scheme, unit) act" where
  "keys_loop W local [] =
     then_do (probe W) (\<lambda>p. case p of Live \<Rightarrow> yield () | Probe_failed _ \<Rightarrow> abort | Not_yet \<Rightarrow> abort)"
| "keys_loop W local (e # es) =
     then_do (probe W) (\<lambda>p.
     case p of
       Live \<Rightarrow> yield ()
     | Probe_failed _ \<Rightarrow> abort
     | Not_yet \<Rightarrow>
         then_do (ingest W local e) (\<lambda>r.
         case r of
           Ingested (Some _) \<Rightarrow> abort
         | Ingested None \<Rightarrow> keys_loop W local es
         | Ticked \<Rightarrow> then_do (flush_send W) (\<lambda>_. keys_loop W local es)
         | Broken _ \<Rightarrow> abort))"

definition navette_connect_until_handshake_keys ::
  "('q, 'h) lab \<Rightarrow> u16 \<Rightarrow> recv_result list \<Rightarrow> (log, 'q \<times> SocketAddr \<times> SocketAddr) act" where
  "navette_connect_until_handshake_keys W port events =
     (let server = server_addr_with_port port in
      then_do (open_client W server) (\<lambda>(conn, local).
      then_do (with_conn (raw.make conn)
        (then_do (flush_send W) (\<lambda>_. keys_loop W local events))) (\<lambda>(_, conn).
      yield (conn, local, server))))"

section \<open>Injection\<close>

text \<open>An encoder of the patched quiche on the live connection; its panic is one of the caller.\<close>

definition encode :: "('q \<Rightarrow> (quic_error + bytes) option \<times> 'q) \<Rightarrow> (('q, 'm) raw_scheme, quic_error + bytes) act" where
  "encode f s =
     (case f (r_conn s) of
        (Some r, q) \<Rightarrow> Some (Ret (Inr r), s\<lparr>r_conn := q\<rparr>)
      | (None, q) \<Rightarrow> Some (Panic, s\<lparr>r_conn := q\<rparr>))"

definition send_encoded ::
  "('q, 'h) lab \<Rightarrow> SocketAddr \<Rightarrow> string \<Rightarrow> ('q \<Rightarrow> (quic_error + bytes) option \<times> 'q) \<Rightarrow> (('q, 'm) raw_scheme, nat) act" where
  "send_encoded W server msg f =
     then_do (encode f) (\<lambda>r.
     then_do (try_with (\<lambda>e. msg @ q_debug (quic W) e) r) (\<lambda>pkt.
     then_do (sock_send W server pkt) (\<lambda>r.
     try_with ie_text r)))"

definition send_raw_1rtt :: "('q, 'h) lab \<Rightarrow> SocketAddr \<Rightarrow> raw_frame list \<Rightarrow> (('q, 'm) raw_scheme, nat) act" where
  "send_raw_1rtt W server frames =
     send_encoded W server ''encode_pkt: '' (q_encode_pkt (quic W) Type_Short frames MAX_DATAGRAM_SIZE)"

definition send_raw_1rtt_bytes :: "('q, 'h) lab \<Rightarrow> SocketAddr \<Rightarrow> bytes \<Rightarrow> (('q, 'm) raw_scheme, nat) act" where
  "send_raw_1rtt_bytes W server frame_payload =
     send_encoded W server ''encode_pkt_with_payload: ''
       (q_encode_pkt_with_payload (quic W) Type_Short frame_payload MAX_DATAGRAM_SIZE)"

definition read_accept_profile_counter :: "string \<Rightarrow> int option" where
  "read_accept_profile_counter name = None"

definition drain_pending :: "('q, 'h) lab \<Rightarrow> SocketAddr \<Rightarrow> (('q, 'm) raw_scheme, unit) act" where
  "drain_pending W server = flush_send W"

section \<open>Waiting for the close\<close>

definition decode_reason :: "bytes \<Rightarrow> string" where
  "decode_reason bs = from_utf8_lossy (take (min (length bs) 256) bs)"

definition reported :: "ConnectionError \<Rightarrow> u64 \<times> string" where
  "reported ce = (ce_error_code ce, decode_reason (ce_reason ce))"

fun close_loop :: "('q, 'h) lab \<Rightarrow> SocketAddr \<Rightarrow> recv_result list \<Rightarrow> (('q, 'm) raw_scheme, (u64 \<times> string) option) act" where
  "close_loop W local [] = yield None"
| "close_loop W local (e # es) =
     then_do (gets (\<lambda>s. q_peer_error (quic W) (r_conn s))) (\<lambda>ce.
     case ce of
       Some ce \<Rightarrow> yield (Some (reported ce))
     | None \<Rightarrow>
         then_do (gets (\<lambda>s. q_is_closed (quic W) (r_conn s))) (\<lambda>closed.
         if closed then
           then_do (gets (\<lambda>s. q_local_error (quic W) (r_conn s))) (\<lambda>ce. yield (map_option reported ce))
         else
           then_do (ingest W local e) (\<lambda>r.
           case r of
             Broken _ \<Rightarrow> yield None
           | _ \<Rightarrow> then_do (flush_send W) (\<lambda>_. close_loop W local es))))"

definition wait_connection_close ::
  "('q, 'h) lab \<Rightarrow> recv_result list \<Rightarrow> (('q, 'm) raw_scheme, (u64 \<times> string) option) act" where
  "wait_connection_close W events =
     then_do (pure (expect (n_local_addr W))) (\<lambda>local. close_loop W local events)"

definition assert_close :: "(u64 \<times> string) option \<Rightarrow> u64 \<Rightarrow> string \<Rightarrow> bool" where
  "assert_close res expected_code guard_tag =
     (case res of
        Some (code, reason) \<Rightarrow> code = expected_code \<and> contains reason guard_tag
      | None \<Rightarrow> False)"

end
