(* ===== verification/Raw_Resumption.thy ===== *)
theory Raw_Resumption
  imports Raw_Client
begin

text \<open>
  Session tickets and 0-RTT in the raw-frame client
  (\<open>conformance/quiche-raw-frame-scenarios/src/resumption.rs\<close>): capturing a ticket, resuming
  with it, capturing the datagrams of a resumed flight, replaying them, and an HTTP/3 request
  in early data. The waits at the end of a phase are not part of the model.
\<close>

section \<open>Pump\<close>

definition flush_step :: "('q, 'h) lab \<Rightarrow> (('q, 'm) raw_scheme, bool) act" where
  "flush_step W =
     then_do (send_next W) (\<lambda>o'.
     case o' of
       Sent _ \<Rightarrow> yield True
     | Refused _ e \<Rightarrow> if ie_kind e = WouldBlock then yield False else throw (ie_text e)
     | Idle \<Rightarrow> yield False
     | Failed e \<Rightarrow> throw (''conn.send: '' @ q_debug (quic W) e))"

definition flush :: "('q, 'h) lab \<Rightarrow> (('q, 'm) raw_scheme, unit) act" where
  "flush W = loop_while (flush_step W)"

text \<open>What is received reaches quiche, or the function is left with the error.\<close>

definition ingest_or_fail :: "('q, 'h) lab \<Rightarrow> SocketAddr \<Rightarrow> recv_result \<Rightarrow> (('q, 'm) raw_scheme, unit) act" where
  "ingest_or_fail W local e =
     then_do (ingest W local e) (\<lambda>r.
     case r of
       Ingested (Some e) \<Rightarrow> throw (''conn.recv: '' @ q_debug (quic W) e)
     | Broken e \<Rightarrow> throw (ie_text e)
     | _ \<Rightarrow> yield ())"

definition pump_once :: "('q, 'h) lab \<Rightarrow> SocketAddr \<Rightarrow> recv_result \<Rightarrow> (('q, 'm) raw_scheme, unit) act" where
  "pump_once W local e = then_do (ingest_or_fail W local e) (\<lambda>_. flush W)"

section \<open>Connecting with early data\<close>

definition open_early :: "('q, 'h) lab \<Rightarrow> SocketAddr \<Rightarrow> ('s, 'q \<times> SocketAddr) act" where
  "open_early W server =
     then_do (try_with (\<lambda>e. ''Config::new: '' @ q_debug (quic W) e) (q_Config_new (quic W))) (\<lambda>_.
     then_do (try_with (\<lambda>e. ''set_application_protos: '' @ q_debug (quic W) e) (q_set_application_protos (quic W) [ascii ''h3''])) (\<lambda>_.
     then_do (try_with ie_text (n_bind W ''0.0.0.0:0'')) (\<lambda>_.
     then_do (try_with ie_text (n_set_read_timeout W 25)) (\<lambda>_.
     then_do (try_with ie_text (n_local_addr W)) (\<lambda>local.
     then_do (try_with (\<lambda>_. ''random scid'') (n_random W MAX_CONN_ID_LEN)) (\<lambda>scid.
     then_do (try_with (\<lambda>e. ''quiche::connect: '' @ q_debug (quic W) e)
       (q_connect (quic W) ''localhost'' scid local server (base_config True))) (\<lambda>conn.
     yield (conn, local))))))))"

definition on_conn :: "('q \<Rightarrow> 'a \<times> 'q) \<Rightarrow> (('q, 'm) raw_scheme, 'a) act" where
  "on_conn f s = (case f (r_conn s) of (x, q) \<Rightarrow> Some (Ret (Inr x), s\<lparr>r_conn := q\<rparr>))"

definition resume :: "('q, 'h) lab \<Rightarrow> bytes \<Rightarrow> (('q, 'm) raw_scheme, unit) act" where
  "resume W session_blob =
     then_do (on_conn (q_set_session (quic W) session_blob)) (\<lambda>r.
     try_with (\<lambda>e. ''conn.set_session: '' @ q_debug (quic W) e) r)"

section \<open>HTTP/3\<close>

definition request_headers :: "string \<Rightarrow> string \<Rightarrow> string \<Rightarrow> header list" where
  "request_headers meth path agent =
     [(ascii '':method'', ascii meth), (ascii '':scheme'', ascii ''https''), (ascii '':authority'', ascii ''localhost''),
      (ascii '':path'', ascii path), (ascii ''user-agent'', ascii agent)]"

definition h3_on :: "('h \<times> 'q \<Rightarrow> 'a \<times> 'h \<times> 'q) \<Rightarrow> 'h \<Rightarrow> (('q, 'm) raw_scheme, 'a \<times> 'h) act" where
  "h3_on f h s = (case f (h, r_conn s) of (x, h, q) \<Rightarrow> Some (Ret (Inr (x, h)), s\<lparr>r_conn := q\<rparr>))"

text \<open>The HTTP/3 layer on the connection and the request; its stream ends with the body.\<close>

definition start_request ::
  "('q, 'h) lab \<Rightarrow> header list \<Rightarrow> bytes option \<Rightarrow> (('q, 'm) raw_scheme, u64 \<times> 'h) act" where
  "start_request W req body =
     then_do (on_conn (h3_with_transport (quic W))) (\<lambda>r.
     then_do (try_with (\<lambda>e. ''h3::with_transport: '' @ h3_debug (quic W) e) r) (\<lambda>h.
     then_do (h3_on (h3_send_request (quic W) req (Option.is_none body)) h) (\<lambda>(r, h).
     then_do (try_with (\<lambda>e. ''h3::send_request: '' @ h3_debug (quic W) e) r) (\<lambda>sid.
     case body of
       None \<Rightarrow> yield (sid, h)
     | Some b \<Rightarrow>
         then_do (h3_on (h3_send_body (quic W) sid b True) h) (\<lambda>(r, h).
         then_do (try_with (\<lambda>e. ''h3::send_body: '' @ h3_debug (quic W) e) r) (\<lambda>_.
         yield (sid, h)))))))"

text \<open>\<open>loop\<close> over \<open>h3.poll\<close> until it gives an error: the events and that error.\<close>

partial_function (option) poll_all ::
  "('q, 'h) quiche \<Rightarrow> 'h \<times> 'q \<Rightarrow> ((u64 \<times> h3_event) list \<times> h3_error \<times> 'h \<times> 'q) option" where
  "poll_all Q hq =
     (case h3_poll Q hq of
        (Inl e, hq) \<Rightarrow> Some ([], e, hq)
      | (Inr ev, hq) \<Rightarrow> Option.bind (poll_all Q hq) (\<lambda>(evs, e, hq). Some (ev # evs, e, hq)))"

definition drain_h3 :: "('q, 'h) lab \<Rightarrow> 'h \<Rightarrow> (('q, 'm) raw_scheme, (u64 \<times> h3_event) list \<times> h3_error \<times> 'h) act" where
  "drain_h3 W h s =
     map_option (\<lambda>(evs, e, h, q). (Ret (Inr (evs, e, h)), s\<lparr>r_conn := q\<rparr>)) (poll_all (quic W) (h, r_conn s))"

section \<open>Phase 1: the ticket\<close>

fun ticket_loop :: "('q, 'h) lab \<Rightarrow> SocketAddr \<Rightarrow> 'h \<Rightarrow> recv_result list \<Rightarrow> (('q, 'm) raw_scheme, bytes option) act" where
  "ticket_loop W local h [] = yield None"
| "ticket_loop W local h (e # es) =
     then_do (gets (\<lambda>s. q_session (quic W) (r_conn s))) (\<lambda>session.
     case session of
       Some blob \<Rightarrow> yield (Some blob)
     | None \<Rightarrow>
         then_do (pump_once W local e) (\<lambda>_.
         then_do (drain_h3 W h) (\<lambda>(_, _, h).
         ticket_loop W local h es)))"

text \<open>Closing; an error in it is dropped.\<close>

definition close_cleanly :: "('q, 'h) lab \<Rightarrow> (('q, 'm) raw_scheme, unit) act" where
  "close_cleanly W =
     then_do (on_conn (q_close (quic W) False 0 (ascii ''phase 1 done''))) (\<lambda>_.
     then_do (attempt (flush W)) (\<lambda>_.
     yield ()))"

text \<open>From the established connection: \<open>GET /\<close>, the ticket, the close.\<close>

definition request_ticket :: "('q, 'h) lab \<Rightarrow> SocketAddr \<Rightarrow> recv_result list \<Rightarrow> (('q, 'm) raw_scheme, bytes) act" where
  "request_ticket W local events =
     then_do (try_with (\<lambda>e. ''h3::Config::new: '' @ h3_debug (quic W) e) (h3_Config_new (quic W))) (\<lambda>_.
     then_do (start_request W (request_headers ''GET'' ''/'' ''navette-resumption-phase1'') None) (\<lambda>(_, h).
     then_do (flush W) (\<lambda>_.
     then_do (ticket_loop W local h events) (\<lambda>blob.
     case blob of
       None \<Rightarrow> throw ''no session ticket within 2000 ms''
     | Some blob \<Rightarrow> then_do (close_cleanly W) (\<lambda>_. yield blob)))))"

definition drive_to_session_ticket ::
  "('q, 'h) lab \<Rightarrow> SocketAddr \<Rightarrow> recv_result list \<Rightarrow> recv_result list \<Rightarrow> (log, bytes) act" where
  "drive_to_session_ticket W server events tail_events =
     (let established = (\<lambda>s. q_is_established (quic W) (r_conn s)) in
      then_do (open_early W server) (\<lambda>(conn, local).
      then_do (with_conn (raw.make conn)
        (then_do (flush W) (\<lambda>_.
         then_do (pump_until established (pump_once W local) events) (\<lambda>_.
         then_do (gets established) (\<lambda>b.
         if \<not> b then throw ''handshake not established within 2000 ms''
         else request_ticket W local tail_events)))))
        (\<lambda>(blob, _). yield blob)))"

section \<open>Phase 2: resuming\<close>

definition drive_to_zero_rtt_seal ::
  "('q, 'h) lab \<Rightarrow> SocketAddr \<Rightarrow> bytes \<Rightarrow> recv_result list \<Rightarrow> (log, 'q) act" where
  "drive_to_zero_rtt_seal W server session_blob events =
     (let sealed = (\<lambda>s. q_has_application_crypto_seal (quic W) (r_conn s)) in
      then_do (open_early W server) (\<lambda>(conn, local).
      then_do (with_conn (raw.make conn)
        (then_do (resume W session_blob) (\<lambda>_.
         then_do (flush W) (\<lambda>_.
         then_do (pump_until sealed (pump_once W local) events) (\<lambda>_.
         then_do (gets sealed) (\<lambda>b.
         if b then yield ()
         else throw ''Application crypto_seal not installed within 2000 ms (resumption likely rejected by server)''))))))
        (\<lambda>(_, conn). yield conn)))"

section \<open>Capturing the resumed flight\<close>

record 'q capture = "'q raw" +
  c_captured :: "bytes list"

definition capture_step :: "('q, 'h) lab \<Rightarrow> ('q capture, bool) act" where
  "capture_step W =
     then_do (send_next W) (\<lambda>o'.
     case o' of
       Sent d \<Rightarrow> then_do (modify (\<lambda>s. s\<lparr>c_captured := c_captured s @ [d]\<rparr>)) (\<lambda>_. yield True)
     | Refused d e \<Rightarrow> then_do (modify (\<lambda>s. s\<lparr>c_captured := c_captured s @ [d]\<rparr>)) (\<lambda>_. throw (ie_text e))
     | Idle \<Rightarrow> yield False
     | Failed e \<Rightarrow> throw (''conn.send: '' @ q_debug (quic W) e))"

text \<open>\<open>h\<close> is the HTTP/3 layer; it is there as soon as the request was sent.\<close>

fun capture_loop :: "('q, 'h) lab \<Rightarrow> SocketAddr \<Rightarrow> 'h option \<Rightarrow> recv_result list \<Rightarrow> ('q capture, unit) act" where
  "capture_loop W local h [] = yield ()"
| "capture_loop W local h (e # es) =
     then_do (gets (\<lambda>s. q_has_application_crypto_seal (quic W) (r_conn s))) (\<lambda>sealed.
     then_do (if Option.is_none h \<and> sealed then
                then_do (start_request W (request_headers ''GET'' ''/'' ''navette-replay-capture'') None) (\<lambda>(_, h). yield (Some h))
              else yield h) (\<lambda>h.
     then_do (loop_while (capture_step W)) (\<lambda>_.
     then_do (ingest_or_fail W local e) (\<lambda>_.
     then_do (case h of None \<Rightarrow> yield None | Some h \<Rightarrow> then_do (drain_h3 W h) (\<lambda>(_, _, h). yield (Some h))) (\<lambda>h.
     then_do (gets c_captured) (\<lambda>captured.
     if \<not> Option.is_none h \<and> captured \<noteq> [] then yield ()
     else capture_loop W local h es))))))"

definition drive_to_zero_rtt_with_datagram_capture ::
  "('q, 'h) lab \<Rightarrow> SocketAddr \<Rightarrow> bytes \<Rightarrow> recv_result list \<Rightarrow> (log, bytes list \<times> 'q) act" where
  "drive_to_zero_rtt_with_datagram_capture W server session_blob events =
     then_do (open_early W server) (\<lambda>(conn, local).
     with_conn (\<lambda>sent. \<lparr>r_conn = conn, r_sent = sent, c_captured = []\<rparr>)
       (then_do (resume W session_blob) (\<lambda>_.
        then_do (loop_while (capture_step W)) (\<lambda>_.
        then_do (try_with (\<lambda>e. ''h3::Config::new: '' @ h3_debug (quic W) e) (h3_Config_new (quic W))) (\<lambda>_.
        then_do (capture_loop W local None events) (\<lambda>_.
        then_do (gets c_captured) (\<lambda>captured.
        if captured = [] then throw ''drive_to_zero_rtt_with_datagram_capture: no datagrams captured''
        else yield captured)))))))"

section \<open>Replaying\<close>

text \<open>What comes back between the sends is read and dropped.\<close>

fun replay_loop :: "('q, 'h) lab \<Rightarrow> SocketAddr \<Rightarrow> bytes list \<Rightarrow> (log, unit) act" where
  "replay_loop W server [] = yield ()"
| "replay_loop W server (d # ds) =
     then_do (log_send W server d) (\<lambda>r.
     then_do (try_with ie_text r) (\<lambda>_.
     replay_loop W server ds))"

definition replay_datagrams_verbatim :: "('q, 'h) lab \<Rightarrow> SocketAddr \<Rightarrow> bytes list \<Rightarrow> (log, unit) act" where
  "replay_datagrams_verbatim W server datagrams =
     then_do (try_with ie_text (n_bind W ''0.0.0.0:0'')) (\<lambda>_.
     then_do (try_with ie_text (n_set_read_timeout W 25)) (\<lambda>_.
     replay_loop W server datagrams))"

section \<open>A request in early data\<close>

text \<open>The last parsable \<open>:status\<close> of the HEADERS on the request stream.\<close>

fun status_in :: "header list \<Rightarrow> u16 option \<Rightarrow> u16 option" where
  "status_in [] st = st"
| "status_in ((name, value) # hs) st =
     status_in hs
       (if name = ascii '':status'' then
          (case from_utf8 value of
             Inl _ \<Rightarrow> st
           | Inr text \<Rightarrow> (case parse_uint (2 ^ 16 - 1) text of None \<Rightarrow> st | Some v \<Rightarrow> Some (word_of_nat v)))
        else st)"

fun status_of_events :: "u64 \<Rightarrow> (u64 \<times> h3_event) list \<Rightarrow> u16 option \<Rightarrow> u16 option" where
  "status_of_events sid [] st = st"
| "status_of_events sid ((i, ev) # evs) st =
     status_of_events sid evs
       (case ev of Event_Headers hs \<Rightarrow> if i = sid then status_in hs st else st | Event_other \<Rightarrow> st)"

fun request_loop ::
  "('q, 'h) lab \<Rightarrow> SocketAddr \<Rightarrow> string \<Rightarrow> string \<Rightarrow> bytes option \<Rightarrow> (u64 \<times> 'h) option \<Rightarrow> recv_result list \<Rightarrow>
   (('q, 'm) raw_scheme, u16 option) act" where
  "request_loop W local meth path body st [] = yield None"
| "request_loop W local meth path body st (e # es) =
     then_do (gets (\<lambda>s. q_has_application_crypto_seal (quic W) (r_conn s))) (\<lambda>sealed.
     then_do (if Option.is_none st \<and> sealed then
                then_do (start_request W (request_headers meth path ''navette-zero-rtt-http'') body) (\<lambda>p. yield (Some p))
              else yield st) (\<lambda>st.
     then_do (flush W) (\<lambda>_.
     then_do (ingest_or_fail W local e) (\<lambda>_.
     case st of
       None \<Rightarrow> request_loop W local meth path body None es
     | Some (sid, h) \<Rightarrow>
         then_do (drain_h3 W h) (\<lambda>(evs, e, h).
         if e \<noteq> H3_Done then throw (''h3::poll: '' @ h3_debug (quic W) e)
         else case status_of_events sid evs None of
           Some v \<Rightarrow> yield (Some v)
         | None \<Rightarrow> request_loop W local meth path body (Some (sid, h)) es)))))"

definition drive_to_zero_rtt_with_h3_request ::
  "('q, 'h) lab \<Rightarrow> SocketAddr \<Rightarrow> bytes \<Rightarrow> string \<Rightarrow> string \<Rightarrow> bytes option \<Rightarrow> recv_result list \<Rightarrow> (log, u16 \<times> 'q) act" where
  "drive_to_zero_rtt_with_h3_request W server session_blob meth path body events =
     then_do (open_early W server) (\<lambda>(conn, local).
     with_conn (raw.make conn)
       (then_do (resume W session_blob) (\<lambda>_.
        then_do (flush W) (\<lambda>_.
        then_do (try_with (\<lambda>e. ''h3::Config::new: '' @ h3_debug (quic W) e) (h3_Config_new (quic W))) (\<lambda>_.
        then_do (request_loop W local meth path body None events) (\<lambda>status.
        case status of
          None \<Rightarrow> throw ''drive_to_zero_rtt_with_h3_request: no :status header observed''
        | Some v \<Rightarrow> yield v))))))"

end
