(* ===== verification/Raw_Scenarios.thy ===== *)
theory Raw_Scenarios
  imports Raw_Resumption
begin

text \<open>
  The binaries of the raw-frame client (\<open>conformance/quiche-raw-frame-scenarios/src/bin/*.rs\<close>):
  what each \<open>main\<close> injects and with which status it exits. What it prints is not part of the
  model. Each receive loop has its own list of results of \<open>recv_from\<close>.
\<close>

section \<open>One injected packet\<close>

definition qrf_port :: "('q, 'h) lab \<Rightarrow> u16" where
  "qrf_port W =
     (case Option.bind (n_env W ''QRF_SERVER_PORT'') (parse_uint (2 ^ 16 - 1)) of
        Some port \<Rightarrow> word_of_nat port
      | None \<Rightarrow> 4433)"

text \<open>
  The packet: frames or payload bytes under the 1-RTT keys through the library, frames under
  the Handshake keys, or frames under a header with reserved bits.
\<close>

datatype packet_kind = Short_frames "raw_frame list" | Short_payload bytes | Handshake_frames "raw_frame list"
  | Reserved_bits packet_type "raw_frame list" byte

definition inject :: "('q, 'h) lab \<Rightarrow> SocketAddr \<Rightarrow> packet_kind \<Rightarrow> (('q, 'm) raw_scheme, nat) act" where
  "inject W server p =
     (case p of
        Short_frames frames \<Rightarrow> send_raw_1rtt W server frames
      | Short_payload payload \<Rightarrow> send_raw_1rtt_bytes W server payload
      | Handshake_frames frames \<Rightarrow>
          send_encoded W server ''encode_pkt failed: '' (q_encode_pkt (quic W) Type_Handshake frames MAX_DATAGRAM_SIZE)
      | Reserved_bits ty frames reserved_mask \<Rightarrow>
          send_encoded W server ''encode_pkt_reserved_bits failed: ''
            (q_encode_pkt_reserved_bits (quic W) ty frames reserved_mask MAX_DATAGRAM_SIZE))"

text \<open>After the handshake: the injection, the wait and the verdict.\<close>

definition inject_and_judge ::
  "('q, 'h) lab \<Rightarrow> (('q, 'm) raw_scheme, nat) act \<Rightarrow> u64 \<Rightarrow> string \<Rightarrow> recv_result list \<Rightarrow> (('q, 'm) raw_scheme, nat) act" where
  "inject_and_judge W injection expected_code guard_tag events =
     then_do (attempt injection) (\<lambda>r.
     case r of
       Inl _ \<Rightarrow> yield 1
     | Inr _ \<Rightarrow>
         then_do (wait_connection_close W events) (\<lambda>res.
         yield (if assert_close res expected_code guard_tag then 0 else 1)))"

definition raw_scenario ::
  "(('q, 'h) lab \<Rightarrow> SocketAddr \<Rightarrow> ('q raw, nat) act) \<Rightarrow> u64 \<Rightarrow> string \<Rightarrow>
   ('q, 'h) lab \<Rightarrow> recv_result list \<Rightarrow> recv_result list \<Rightarrow> (log, nat) act" where
  "raw_scenario injection expected_code guard_tag W events wait_events =
     then_do (catch_unwind (navette_connect W (qrf_port W) events)) (\<lambda>r.
     case r of
       None \<Rightarrow> yield 1
     | Some (conn, local, server) \<Rightarrow>
         then_do (with_conn (raw.make conn) (inject_and_judge W (injection W server) expected_code guard_tag wait_events))
           (\<lambda>(status, _). yield status))"

text \<open>F12 and F13 stop before the Finished and do not catch the panic of the handshake.\<close>

definition handshake_scenario ::
  "(('q, 'h) lab \<Rightarrow> SocketAddr \<Rightarrow> ('q raw, nat) act) \<Rightarrow> u64 \<Rightarrow> string \<Rightarrow>
   ('q, 'h) lab \<Rightarrow> recv_result list \<Rightarrow> recv_result list \<Rightarrow> (log, nat) act" where
  "handshake_scenario injection expected_code guard_tag W events wait_events =
     then_do (navette_connect_until_handshake_keys W (qrf_port W) events) (\<lambda>(conn, local, server).
     then_do (with_conn (raw.make conn) (inject_and_judge W (injection W server) expected_code guard_tag wait_events))
       (\<lambda>(status, _). yield status))"

definition s_f01_main where
  "s_f01_main = raw_scenario (\<lambda>W server. inject W server (Short_frames [Frame_Stream 4 [] 0x3FFFFFFFFFFFFFFF False]))
     0x03 ''[QUIC-STREAM-LARGE-OFFSET]''"

definition s_f10_main where
  "s_f10_main = raw_scenario (\<lambda>W server. inject W server (Short_payload [0xFE, 0x00])) 0x07 ''[QUIC-UNKNOWN-FRAME]''"

definition s_f11_main where
  "s_f11_main = raw_scenario (\<lambda>W server. inject W server (Short_frames [])) 0x0A ''[QUIC-NO-FRAMES]''"

definition s_f12_main where
  "s_f12_main = handshake_scenario (\<lambda>W server. inject W server (Reserved_bits Type_Handshake [Frame_Ping] 0x0C))
     0x0A ''[QUIC-RESERVED-BITS-HS]''"

definition s_f13_main where
  "s_f13_main = handshake_scenario (\<lambda>W server. inject W server (Handshake_frames [Frame_PathChallenge (replicate 8 0)]))
     0x0A ''[QUIC-PATH-CHALLENGE-HS]''"

definition s_f14_main where
  "s_f14_main = raw_scenario (\<lambda>W server. inject W server (Reserved_bits Type_Short [Frame_Ping] 0x18))
     0x0A ''[QUIC-RESERVED-BITS-SHORT]''"

definition s_f15_main where
  "s_f15_main = raw_scenario (\<lambda>W server. inject W server (Short_frames [Frame_ResetStream 3 0 0]))
     0x05 ''[QUIC-RESET-SEND-ONLY]''"

definition s_f16_main where
  "s_f16_main = raw_scenario (\<lambda>W server. inject W server (Short_frames [Frame_StopSending 999 0]))
     0x05 ''[QUIC-STOP-LOCAL-NOT-CREATED]''"

definition s_f17_main where
  "s_f17_main = raw_scenario (\<lambda>W server. inject W server (Short_frames [Frame_NewToken (ascii ''x'')]))
     0x0A ''[QUIC-NEW-TOKEN-SERVER]''"

definition s_f18_main where
  "s_f18_main = raw_scenario (\<lambda>W server. inject W server (Short_frames [Frame_MaxStreamData 99999 0x10000]))
     0x05 ''[QUIC-MAX-STREAM-DATA-NONEXIST]''"

text \<open>F19 opens its stream through quiche first and drains the connection once.\<close>

definition drain_step :: "('q, 'h) lab \<Rightarrow> (('q, 'm) raw_scheme, bool) act" where
  "drain_step W =
     then_do (send_next W) (\<lambda>o'.
     case o' of
       Sent _ \<Rightarrow> yield True
     | Refused _ e \<Rightarrow> throw (ie_text e)
     | Idle \<Rightarrow> yield False
     | Failed e \<Rightarrow> throw (''conn.send: '' @ q_debug (quic W) e))"

definition drain_outgoing :: "('q, 'h) lab \<Rightarrow> (('q, 'm) raw_scheme, unit) act" where
  "drain_outgoing W = loop_while (drain_step W)"

definition open_then_inject :: "('q, 'h) lab \<Rightarrow> SocketAddr \<Rightarrow> (('q, 'm) raw_scheme, nat) act" where
  "open_then_inject W server =
     then_do (on_conn (q_stream_send (quic W) 2 (ascii ''x'') False)) (\<lambda>r.
     then_do (try_with (q_debug (quic W)) r) (\<lambda>_.
     then_do (drain_outgoing W) (\<lambda>_.
     inject W server (Short_frames [Frame_MaxStreamData 2 0x10000]))))"

definition s_f19_main where
  "s_f19_main = raw_scenario open_then_inject 0x05 ''[QUIC-MAX-STREAM-DATA-RECV-ONLY]''"

definition s_f20_main where
  "s_f20_main = raw_scenario (\<lambda>W server. inject W server (Short_frames [Frame_MaxStreamsBidi (push_bit 60 1 + 1)]))
     0x07 ''[QUIC-MAX-STREAMS-OVERFLOW]''"

definition s_f21_main where
  "s_f21_main = raw_scenario (\<lambda>W server. inject W server (Short_frames [Frame_StreamsBlockedBidi (push_bit 60 1 + 1)]))
     0x07 ''[QUIC-STREAMS-BLOCKED-OVERFLOW]''"

definition s_f22_main where
  "s_f22_main = raw_scenario
     (\<lambda>W server. inject W server (Short_frames [Frame_NewConnectionId 5 10 (replicate 8 1) (replicate 16 0)]))
     0x07 ''[QUIC-CID-RETIRE-PRIOR-GT-SEQ]''"

definition s_f23_main where
  "s_f23_main = raw_scenario
     (\<lambda>W server. inject W server (Short_frames [Frame_NewConnectionId 5 0 [] (replicate 16 0)]))
     0x07 ''[QUIC-CID-ZERO-LENGTH]''"

definition s_f24_main where
  "s_f24_main = raw_scenario (\<lambda>W server. inject W server (Short_frames [Frame_HandshakeDone]))
     0x0A ''[QUIC-HANDSHAKE-DONE-SERVER]''"

section \<open>Resumption scenarios\<close>

text \<open>\<open>match\<close> on a phase: an error of it is exit status 1.\<close>

definition phase :: "('s, 'a) act \<Rightarrow> ('a \<Rightarrow> ('s, nat) act) \<Rightarrow> ('s, nat) act" where
  "phase m next_phase = then_do (attempt m) (\<lambda>r. case r of Inl _ \<Rightarrow> yield 1 | Inr x \<Rightarrow> next_phase x)"

definition build_crypto_frame_payload :: bytes where
  "build_crypto_frame_payload = [0x06] @ [0x00] @ [0x08] @ replicate 8 0"

definition s_f30_main ::
  "('q, 'h) lab \<Rightarrow> recv_result list \<Rightarrow> recv_result list \<Rightarrow> recv_result list \<Rightarrow> recv_result list \<Rightarrow> (log, nat) act" where
  "s_f30_main W events tail_events resume_events wait_events =
     (let server = server_addr_with_port (qrf_port W) in
      phase (drive_to_session_ticket W server events tail_events) (\<lambda>ticket.
      phase (drive_to_zero_rtt_seal W server ticket resume_events) (\<lambda>conn.
      then_do (with_conn (raw.make conn)
        (inject_and_judge W
          (send_encoded W server ''encode_pkt_with_payload(ZeroRTT) failed: ''
            (q_encode_pkt_with_payload (quic W) Type_ZeroRTT build_crypto_frame_payload MAX_DATAGRAM_SIZE))
          0x0a ''[QUIC-CRYPTO-IN-0RTT]'' wait_events))
        (\<lambda>(status, _). yield status))))"

text \<open>After the capture: the replay, and a fresh handshake that shows the server alive.\<close>

definition replay_phases :: "('q, 'h) lab \<Rightarrow> SocketAddr \<Rightarrow> recv_result list \<Rightarrow> recv_result list \<Rightarrow> bytes list \<Rightarrow> (log, nat) act" where
  "replay_phases W server probe_events probe_tail_events captured =
     phase (replay_datagrams_verbatim W server captured) (\<lambda>_.
     phase (try_with ie_text (n_bind W ''0.0.0.0:0'')) (\<lambda>_.
     phase (try_with ie_text (n_set_read_timeout W 200)) (\<lambda>_.
     phase (drive_to_session_ticket W server probe_events probe_tail_events) (\<lambda>_.
     yield 0))))"

definition s_zero_rtt_replay_main ::
  "('q, 'h) lab \<Rightarrow> recv_result list \<Rightarrow> recv_result list \<Rightarrow> recv_result list \<Rightarrow> recv_result list \<Rightarrow> recv_result list \<Rightarrow> (log, nat) act" where
  "s_zero_rtt_replay_main W events tail_events capture_events probe_events probe_tail_events =
     (let server = server_addr_with_port (qrf_port W) in
      phase (drive_to_session_ticket W server events tail_events) (\<lambda>ticket.
      phase (drive_to_zero_rtt_with_datagram_capture W server ticket capture_events) (\<lambda>(captured, _).
      if captured = [] then yield 1
      else replay_phases W server probe_events probe_tail_events captured)))"

definition s_zero_rtt_fresh_resumption_main ::
  "('q, 'h) lab \<Rightarrow> recv_result list \<Rightarrow> recv_result list \<Rightarrow> recv_result list \<Rightarrow>
   recv_result list \<Rightarrow> recv_result list \<Rightarrow> recv_result list \<Rightarrow> (log, nat) act" where
  "s_zero_rtt_fresh_resumption_main W events1 tail1 resume1 events2 tail2 resume2 =
     (let server = server_addr_with_port (qrf_port W) in
      phase (drive_to_session_ticket W server events1 tail1) (\<lambda>t1.
      phase (drive_to_zero_rtt_seal W server t1 resume1) (\<lambda>_.
      phase (drive_to_session_ticket W server events2 tail2) (\<lambda>t2.
      if t1 = t2 then yield 1
      else
        phase (drive_to_zero_rtt_seal W server t2 resume2) (\<lambda>_.
        yield 0)))))"

definition zero_rtt_http ::
  "string \<Rightarrow> string \<Rightarrow> bytes option \<Rightarrow> u16 \<Rightarrow>
   ('q, 'h) lab \<Rightarrow> recv_result list \<Rightarrow> recv_result list \<Rightarrow> recv_result list \<Rightarrow> (log, nat) act" where
  "zero_rtt_http meth path body expected W events tail_events request_events =
     (let server = server_addr_with_port (qrf_port W) in
      phase (drive_to_session_ticket W server events tail_events) (\<lambda>ticket.
      phase (drive_to_zero_rtt_with_h3_request W server ticket meth path body request_events) (\<lambda>(status, _).
      yield (if status \<noteq> expected then 1 else 0))))"

definition s_zero_rtt_http_get_accepted_main where
  "s_zero_rtt_http_get_accepted_main = zero_rtt_http ''GET'' ''/'' None 200"

definition s_zero_rtt_http_post_rejected_main where
  "s_zero_rtt_http_post_rejected_main = zero_rtt_http ''POST'' ''/echo'' (Some (ascii ''hello-zero-rtt-post'')) 425"

section \<open>The baseline\<close>

definition saw_status :: "(u64 \<times> h3_event) list \<Rightarrow> bool" where
  "saw_status evs \<longleftrightarrow>
     list_ex (\<lambda>(_, ev). case ev of Event_Headers hs \<Rightarrow> list_ex (\<lambda>(name, _). name = ascii '':status'') hs | Event_other \<Rightarrow> False) evs"

text \<open>Every error ends in exit status 1; \<open>flush\<close> differs from the loop of this binary only in its message.\<close>

fun status_loop :: "('q, 'h) lab \<Rightarrow> SocketAddr \<Rightarrow> 'h \<Rightarrow> recv_result list \<Rightarrow> (('q, 'm) raw_scheme, nat) act" where
  "status_loop W local h [] = yield 1"
| "status_loop W local h (e # es) =
     then_do (ingest_or_fail W local e) (\<lambda>_.
     then_do (drain_h3 W h) (\<lambda>(evs, e, h).
     if e \<noteq> H3_Done then throw (''h3 poll: '' @ h3_debug (quic W) e)
     else
       then_do (flush W) (\<lambda>_.
       if saw_status evs then yield 0 else status_loop W local h es)))"

definition sanity_get_main :: "('q, 'h) lab \<Rightarrow> recv_result list \<Rightarrow> recv_result list \<Rightarrow> (log, nat) act" where
  "sanity_get_main W events status_events =
     then_do (catch_unwind (navette_connect W (qrf_port W) events)) (\<lambda>r.
     case r of
       None \<Rightarrow> yield 1
     | Some (conn, _, _) \<Rightarrow>
         phase (with_conn (raw.make conn)
           (then_do (try_with (h3_debug (quic W)) (h3_Config_new (quic W))) (\<lambda>_.
            then_do (start_request W (request_headers ''GET'' ''/'' ''quiche-raw-frame-sanity'') None) (\<lambda>(_, h).
            then_do (flush W) (\<lambda>_.
            then_do (try_with ie_text (n_local_addr W)) (\<lambda>local.
            status_loop W local h status_events))))))
           (\<lambda>(status, _). yield status))"

end
