(* ===== verification/Raw_Runs.thy ===== *)
theory Raw_Runs
  imports Raw_Scenarios Scenarios
begin

text \<open>
  Every run of the raw-frame client: its loops end when quiche has finitely much to send, what
  leaves the socket is what quiche emitted and the injected packet, and a pass was earned by
  a CONNECTION_CLOSE with the demanded code and tag.
\<close>

section \<open>Where a step lands\<close>

text \<open>
  From a state in \<open>P\<close> the step returns: with a value in \<open>Q\<close>, with an error in a state in \<open>E\<close>, or
  it panics in a state in \<open>J\<close>.
\<close>

fun landed ::
  "('a \<Rightarrow> 's \<Rightarrow> bool) \<Rightarrow> ('s \<Rightarrow> bool) \<Rightarrow> ('s \<Rightarrow> bool) \<Rightarrow> ((string + 'a) outcome \<times> 's) option \<Rightarrow> bool" where
  "landed Q E J (Some (Ret (Inr x), s)) = Q x s"
| "landed Q E J (Some (Ret (Inl e), s)) = E s"
| "landed Q E J (Some (Panic, s)) = J s"
| "landed Q E J _ = False"

definition lands ::
  "('s \<Rightarrow> bool) \<Rightarrow> ('s, 'a) act \<Rightarrow> ('a \<Rightarrow> 's \<Rightarrow> bool) \<Rightarrow> ('s \<Rightarrow> bool) \<Rightarrow> ('s \<Rightarrow> bool) \<Rightarrow> bool" where
  "lands P m Q E J \<longleftrightarrow> (\<forall>s. P s \<longrightarrow> landed Q E J (m s))"

named_theorems landing

lemma landed_iff:
  "landed Q E J r \<longleftrightarrow> (\<exists>x s. r = Some (Ret (Inr x), s) \<and> Q x s) \<or> (\<exists>e s. r = Some (Ret (Inl e), s) \<and> E s)
     \<or> (\<exists>s. r = Some (Panic, s) \<and> J s)"
  by (induction Q E J r rule: landed.induct) auto

lemma landsI: "(\<And>s. P s \<Longrightarrow> landed Q E J (m s)) \<Longrightarrow> lands P m Q E J"
  by (simp add: lands_def)

lemma landsD: "lands P m Q E J \<Longrightarrow> P s \<Longrightarrow> landed Q E J (m s)"
  by (simp add: lands_def)

lemma lands_conseq:
  "lands P m Q E J \<Longrightarrow> (\<And>s. P' s \<Longrightarrow> P s) \<Longrightarrow> (\<And>x s. Q x s \<Longrightarrow> Q' x s) \<Longrightarrow> (\<And>s. E s \<Longrightarrow> E' s) \<Longrightarrow>
   (\<And>s. J s \<Longrightarrow> J' s) \<Longrightarrow> lands P' m Q' E' J'"
  by (fastforce simp: lands_def landed_iff)

lemma lands_pre_conj: "lands P m Q E J \<Longrightarrow> lands (\<lambda>s. P s \<and> R s) m Q E J"
  by (simp add: lands_def)

lemma lands_yield [landing]: "(\<And>s. P s \<Longrightarrow> Q x s) \<Longrightarrow> lands P (yield x) Q E J"
  by (simp add: lands_def yield_def)

lemma lands_throw [landing]: "(\<And>s. P s \<Longrightarrow> E s) \<Longrightarrow> lands P (throw e) Q E J"
  by (simp add: lands_def throw_def)

lemma lands_abort [landing]: "(\<And>s. P s \<Longrightarrow> J s) \<Longrightarrow> lands P abort Q E J"
  by (simp add: lands_def abort_def)

lemma lands_then_do: "lands P m R E J \<Longrightarrow> (\<And>x. lands (R x) (f x) Q E J) \<Longrightarrow> lands P (then_do m f) Q E J"
proof (rule landsI)
  fix s assume "lands P m R E J" "P s" and f: "\<And>x. lands (R x) (f x) Q E J"
  from landsD [OF this(1,2)] show "landed Q E J (then_do m f s)"
    using landsD [OF f] by (auto simp: then_do_def landed_iff [where r = "m s"])
qed

lemma lands_seq: "lands P m (\<lambda>_. R) E J \<Longrightarrow> lands R m' Q E J \<Longrightarrow> lands P (then_do m (\<lambda>_. m')) Q E J"
  by (rule lands_then_do)

lemma lands_gets_do [landing]:
  "(\<And>x. lands (\<lambda>s. P s \<and> x = f s) (g x) Q E J) \<Longrightarrow> lands P (then_do (gets f) g) Q E J"
  by (simp add: lands_def then_do_def gets_def)

lemma lands_modify_do: "lands R g Q E J \<Longrightarrow> (\<And>s. P s \<Longrightarrow> R (f s)) \<Longrightarrow> lands P (then_do (modify f) (\<lambda>_. g)) Q E J"
  by (simp add: lands_def then_do_def modify_def)

lemma lands_pure_do [landing]:
  "(\<And>x. m = Ret x \<Longrightarrow> lands P (g x) Q E J) \<Longrightarrow> m \<noteq> Undef \<Longrightarrow> (\<And>s. P s \<Longrightarrow> J s) \<Longrightarrow> lands P (then_do (pure m) g) Q E J"
  by (cases m) (auto simp: lands_def then_do_def pure_def)

lemma lands_try [landing]: "(\<And>x s. r = Inr x \<Longrightarrow> P s \<Longrightarrow> Q x s) \<Longrightarrow> (\<And>s. P s \<Longrightarrow> E s) \<Longrightarrow> lands P (try_with msg r) Q E J"
  by (cases r) (auto simp: lands_def try_with_def yield_def throw_def)

lemma lands_try_do [landing]:
  "(\<And>x. r = Inr x \<Longrightarrow> lands P (g x) Q E J) \<Longrightarrow> (\<And>s. P s \<Longrightarrow> E s) \<Longrightarrow> lands P (then_do (try_with msg r) g) Q E J"
  by (cases r) (auto simp: lands_def then_do_def try_with_def yield_def throw_def)

lemma lands_if [landing]:
  "(b \<Longrightarrow> lands P m Q E J) \<Longrightarrow> (\<not> b \<Longrightarrow> lands P m' Q E J) \<Longrightarrow> lands P (if b then m else m') Q E J"
  by simp

lemma lands_pre: "(\<And>s. P s \<Longrightarrow> b) \<Longrightarrow> (b \<Longrightarrow> lands P m Q E J) \<Longrightarrow> lands P m Q E J"
  by (auto simp: lands_def)

lemma lands_each: "(\<And>l. P l \<Longrightarrow> lands (\<lambda>s. s = l) m Q E J) \<Longrightarrow> lands P m Q E J"
  by (simp add: lands_def)

lemma lands_attempt:
  "lands P m (\<lambda>x. Q (Inr x)) (\<lambda>s. \<forall>e. Q (Inl e) s) J \<Longrightarrow> lands P (attempt m) Q E J"
  by (fastforce simp: lands_def attempt_def landed_iff omap_def)

lemma lands_catch:
  "lands P m (\<lambda>x. Q (Some x)) E (Q None) \<Longrightarrow> lands P (catch_unwind m) Q E J"
  by (fastforce simp: lands_def catch_unwind_def landed_iff omap_def)

lemma lands_with_conn:
  "lands I m (\<lambda>x s. Q (x, r_conn s) (r_sent s)) (\<lambda>s. E (r_sent s)) (\<lambda>s. J (r_sent s)) \<Longrightarrow> (\<And>l. L l \<Longrightarrow> I (start l)) \<Longrightarrow>
   lands L (with_conn start m) Q E J"
  by (fastforce simp: lands_def with_conn_def landed_iff omap_def)

lemma lands_loop_while:
  assumes "\<And>n. lands (\<lambda>s. I s \<and> \<mu> s = n) step (\<lambda>again s. I s \<and> (again \<longrightarrow> \<mu> s < (n :: nat))) E J"
  shows "lands I (loop_while step) (\<lambda>_. I) E J"
proof (rule landsI)
  fix s assume "I s"
  then show "landed (\<lambda>_. I) E J (loop_while step s)"
  proof (induction "\<mu> s" arbitrary: s rule: less_induct)
    case less
    from landsD [OF assms, of s "\<mu> s"] less.prems
    have "landed (\<lambda>again t. I t \<and> (again \<longrightarrow> \<mu> t < \<mu> s)) E J (step s)" by simp
    then show ?case
      by (subst loop_while.simps) (auto simp: landed_iff [where r = "step s"] less.hyps)
  qed
qed

lemma lands_pump_until:
  assumes "\<And>e. lands I (body e) (\<lambda>_. I) E J"
  shows "lands I (pump_until stop body es) (\<lambda>_. I) E J"
proof (induction es)
  case (Cons e es)
  then show ?case
    using assms [of e] by (auto intro!: landing lands_then_do [where R = "\<lambda>_. I"] intro: lands_conseq)
qed (auto intro: landing)

text \<open>A step that returns and changes nothing but the connection.\<close>

definition calm :: "(('q, 'm) raw_scheme, 'a) act \<Rightarrow> bool" where
  "calm m \<longleftrightarrow> (\<forall>s. \<exists>r q. m s = Some (Ret (Inr r), s\<lparr>r_conn := q\<rparr>))"

lemma lands_calm: "calm m \<Longrightarrow> (\<And>s q. P s \<Longrightarrow> P (s\<lparr>r_conn := q\<rparr>)) \<Longrightarrow> lands P m (\<lambda>_. P) E J"
  by (fastforce simp: calm_def lands_def landed_iff)

lemma calm_ingest: "calm (ingest W local e)"
  by (auto simp: calm_def ingest_def split: sum.split prod.split) (metis raw.surjective raw.update_convs(1))

lemma calm_probe: "calm (probe W)"
  by (auto simp: calm_def probe_def split: prod.split)

lemma calm_on_conn: "calm (on_conn f)"
  by (auto simp: calm_def on_conn_def split: prod.split)

lemma calm_h3_on: "calm (h3_on f h)"
  by (auto simp: calm_def h3_on_def split: prod.split)

section \<open>The laws of quiche that the loops rely on\<close>

text \<open>
  Without new input a connection has finitely many datagrams to send, and its HTTP/3 layer
  finitely many events.
\<close>

definition drains :: "('q, 'h) lab \<Rightarrow> ('q \<Rightarrow> nat) \<Rightarrow> bool" where
  "drains W \<mu> \<longleftrightarrow> (\<forall>q d to q'. q_send (quic W) MAX_DATAGRAM_SIZE q = (Inr (d, to), q') \<longrightarrow> \<mu> q' < \<mu> q)"

definition polls :: "('q, 'h) lab \<Rightarrow> ('h \<times> 'q \<Rightarrow> nat) \<Rightarrow> bool" where
  "polls W \<nu> \<longleftrightarrow> (\<forall>hq ev hq'. h3_poll (quic W) hq = (Inr ev, hq') \<longrightarrow> \<nu> hq' < \<nu> hq)"

lemma poll_all_returns:
  assumes "polls W \<nu>"
  shows "\<exists>evs e hq'. poll_all (quic W) hq = Some (evs, e, hq')"
proof (induction "\<nu> hq" arbitrary: hq rule: less_induct)
  case less
  obtain r hq' where r: "h3_poll (quic W) hq = (r, hq')" by (metis surj_pair)
  show ?case
  proof (cases r)
    case (Inr ev)
    then obtain evs e hq'' where "poll_all (quic W) hq' = Some (evs, e, hq'')"
      using less assms r unfolding polls_def by metis
    then show ?thesis using r Inr by (subst poll_all.simps) simp
  qed (use r in \<open>subst poll_all.simps, simp\<close>)
qed

lemma calm_drain_h3:
  assumes "polls W \<nu>"
  shows "calm (drain_h3 W h)"
  unfolding calm_def
proof
  fix s :: "('a, 'c) raw_scheme"
  obtain evs e h' q where "poll_all (quic W) (h, r_conn s) = Some (evs, e, h', q)"
    using poll_all_returns [OF assms, of "(h, r_conn s)"] by auto
  then show "\<exists>r q. drain_h3 W h s = Some (Ret (Inr r), s\<lparr>r_conn := q\<rparr>)"
    by (auto simp: drain_h3_def)
qed

text \<open>A datagram that quiche gave out, and predicates that further ones and quiche's own work keep.\<close>

definition emitted :: "('q, 'h) lab \<Rightarrow> SocketAddr \<times> bytes \<Rightarrow> bool" where
  "emitted W = (\<lambda>(to, d). \<exists>q q'. q_send (quic W) MAX_DATAGRAM_SIZE q = (Inr (d, to), q'))"

definition open_to :: "('q, 'h) lab \<Rightarrow> (('q, 'm) raw_scheme \<Rightarrow> bool) \<Rightarrow> bool" where
  "open_to W I \<longleftrightarrow> (\<forall>s q. I s \<longrightarrow> I (s\<lparr>r_conn := q\<rparr>)) \<and> (\<forall>s x. I s \<longrightarrow> emitted W x \<longrightarrow> I (s\<lparr>r_sent := r_sent s @ [x]\<rparr>))"

lemma send_next_cases:
  assumes "drains W \<mu>"
  obtains q r where "send_next W s = Some (Ret (Inr r), s\<lparr>r_conn := q\<rparr>)" "\<forall>d. r \<noteq> Sent d"
  | q to d where "send_next W s = Some (Ret (Inr (Sent d)), s\<lparr>r_conn := q, r_sent := r_sent s @ [(to, d)]\<rparr>)"
      "emitted W (to, d)" "\<mu> q < \<mu> (r_conn s)"
proof (cases "q_send (quic W) MAX_DATAGRAM_SIZE (r_conn s)")
  case (Pair r q)
  show ?thesis
  proof (cases r)
    case (Inr x)
    obtain d to where x: "x = (d, to)" by fastforce
    with Pair Inr assms have "emitted W (to, d)" "\<mu> q < \<mu> (r_conn s)" by (auto simp: emitted_def drains_def)
    moreover have "send_next W s =
        (case n_send_to W (r_sent s) to d of
           Inl e \<Rightarrow> Some (Ret (Inr (Refused d e)), s\<lparr>r_conn := q\<rparr>)
         | Inr _ \<Rightarrow> Some (Ret (Inr (Sent d)), s\<lparr>r_conn := q, r_sent := r_sent s @ [(to, d)]\<rparr>))"
      using Pair Inr x
      by (cases s) (simp add: send_next_def then_do_def sock_send_def log_send_def yield_def split: sum.split)
    ultimately show ?thesis
      using that by (cases "n_send_to W (r_sent s) to d") auto
  qed (use Pair that in \<open>auto simp: send_next_def split: if_splits\<close>)
qed

lemma lands_send_next:
  assumes "drains W \<mu>" "open_to W I"
  shows "lands (\<lambda>s. I s \<and> \<mu> (r_conn s) = n) (send_next W) (\<lambda>r s. I s \<and> ((\<exists>d. r = Sent d) \<longrightarrow> \<mu> (r_conn s) < n)) E J"
proof (rule landsI)
  fix s assume s: "I s \<and> \<mu> (r_conn s) = n"
  show "landed (\<lambda>r s. I s \<and> ((\<exists>d. r = Sent d) \<longrightarrow> \<mu> (r_conn s) < n)) E J (send_next W s)"
  proof (rule send_next_cases [OF assms(1), of s])
    fix q to d
    assume "send_next W s = Some (Ret (Inr (Sent d)), s\<lparr>r_conn := q, r_sent := r_sent s @ [(to, d)]\<rparr>)"
      "emitted W (to, d)" "\<mu> q < \<mu> (r_conn s)"
    moreover from this(2) have "I (s\<lparr>r_conn := q\<rparr>\<lparr>r_sent := r_sent (s\<lparr>r_conn := q\<rparr>) @ [(to, d)]\<rparr>)"
      using s assms(2) unfolding open_to_def by metis
    ultimately show ?thesis using s by simp
  qed (use s assms(2) in \<open>auto simp: open_to_def\<close>)
qed

lemma lands_send_loop:
  assumes "drains W \<mu>" "open_to W I"
    and "\<And>n r. lands (\<lambda>s. I s \<and> ((\<exists>d. r = Sent d) \<longrightarrow> \<mu> (r_conn s) < n)) (k r) (\<lambda>again s. I s \<and> (again \<longrightarrow> \<mu> (r_conn s) < n)) E J"
  shows "lands I (loop_while (then_do (send_next W) k)) (\<lambda>_. I) E J"
  by (rule lands_loop_while [where \<mu> = "\<lambda>s. \<mu> (r_conn s)"], rule lands_then_do [OF lands_send_next [OF assms(1,2)] assms(3)])

lemma lands_flushes:
  assumes "drains W \<mu>" "open_to W I"
  shows lands_flush_send: "lands I (flush_send W) (\<lambda>_. I) E I"
    and lands_flush: "lands I (flush W) (\<lambda>_. I) I J"
    and lands_drain_outgoing: "lands I (drain_outgoing W) (\<lambda>_. I) I J"
  unfolding flush_send_def flush_send_step_def flush_def flush_step_def drain_outgoing_def drain_step_def
  by (rule lands_send_loop [OF assms], auto split: send_outcome.split intro!: landing)+

section \<open>The handshake\<close>

lemma expect_not_Undef [simp]: "expect r \<noteq> Undef"
  by (cases r) simp_all

lemma build_client_config_not_Undef [simp]: "build_client_config W \<noteq> Undef"
  by (cases "q_Config_new (quic W)"; cases "q_set_application_protos (quic W) [ascii ''h3'']")
    (simp_all add: build_client_config_def)

lemma lands_open_client: "lands P (open_client W server) (\<lambda>_. P) E P"
  unfolding open_client_def by (intro landing) auto

text \<open>The log has grown by datagrams that quiche emitted.\<close>

definition grown :: "('q, 'h) lab \<Rightarrow> log \<Rightarrow> log \<Rightarrow> bool" where
  "grown W pre sent \<longleftrightarrow> (\<exists>ds. sent = pre @ ds \<and> list_all (emitted W) ds)"

lemma grown_refl [simp]: "grown W pre pre"
  by (simp add: grown_def)

lemma grown_snoc: "grown W pre sent \<Longrightarrow> emitted W x \<Longrightarrow> grown W pre (sent @ [x])"
  by (fastforce simp: grown_def)

lemma open_to_log: "(\<And>l x. L l \<Longrightarrow> emitted W x \<Longrightarrow> L (l @ [x])) \<Longrightarrow> open_to W (\<lambda>s. L (r_sent s))"
  by (simp add: open_to_def)

lemma open_to_grown [simp]: "open_to W (\<lambda>s. grown W pre (r_sent s))"
  by (rule open_to_log) (rule grown_snoc)

lemma lands_connect_step:
  assumes "drains W \<mu>" "open_to W I"
  shows "lands I (connect_step W local e) (\<lambda>_. I) E I"
  unfolding connect_step_def
proof (rule lands_then_do [OF lands_calm [OF calm_ingest]])
  show "I (s\<lparr>r_conn := q\<rparr>)" if "I s" for s q using that assms(2) by (simp add: open_to_def)
  show "lands I (case r of Ingested None \<Rightarrow> flush_send W | Ingested (Some _) \<Rightarrow> abort | Ticked \<Rightarrow> flush_send W | Broken _ \<Rightarrow> abort)
      (\<lambda>_. I) E I" for r
    using lands_flush_send [OF assms] by (auto split: received.split option.split intro!: landing)
qed

lemma lands_keys_loop:
  assumes "drains W \<mu>" "open_to W I"
  shows "lands I (keys_loop W local es) (\<lambda>_. I) E I"
proof (induction es)
  case Nil
  show ?case
    using assms(2)
    by (auto simp: open_to_def split: probe_outcome.split intro!: lands_then_do [OF lands_calm [OF calm_probe]] landing)
next
  case (Cons e es)
  have I: "I (s\<lparr>r_conn := q\<rparr>)" if "I s" for s q using that assms(2) by (simp add: open_to_def)
  have "lands I (then_do (flush_send W) (\<lambda>_. keys_loop W local es)) (\<lambda>_. I) E I"
    by (rule lands_seq [OF lands_flush_send [OF assms] Cons])
  then show ?case
    using Cons I
    by (auto split: probe_outcome.split received.split option.split
        intro!: lands_then_do [OF lands_calm [OF calm_probe]] lands_then_do [OF lands_calm [OF calm_ingest]] landing)
qed

lemma lands_navette_connect:
  assumes "drains W \<mu>"
  shows "lands (grown W pre) (navette_connect W port events)
    (\<lambda>(q, local, server) l. grown W pre l \<and> q_is_established (quic W) q \<and> server = server_addr_with_port port) E (grown W pre)"
proof -
  let ?I = "\<lambda>s. grown W pre (r_sent s)"
  note I = open_to_grown [of W pre]
  have run: "lands (grown W pre) (with_conn (raw.make conn)
        (then_do (flush_send W) (\<lambda>_.
         then_do (pump_until (\<lambda>s. q_is_established (quic W) (r_conn s)) (connect_step W local) events) (\<lambda>_.
         then_do (gets (\<lambda>s. q_is_established (quic W) (r_conn s))) (\<lambda>b. if b then yield () else abort)))))
      (\<lambda>(_, q) l. grown W pre l \<and> q_is_established (quic W) q) E (grown W pre)" for conn local
    by (rule lands_with_conn [where I = ?I], rule lands_then_do [OF lands_flush_send [OF assms I]],
        rule lands_then_do [OF lands_pump_until [OF lands_connect_step [OF assms I]]])
      (auto simp: raw.make_def intro!: landing)
  show ?thesis
    unfolding navette_connect_def Let_def
    by (rule lands_then_do [OF lands_open_client], split prod.split, intro allI impI, rule lands_then_do [OF run])
      (auto intro!: landing)
qed

lemma lands_until_handshake_keys:
  assumes "drains W \<mu>"
  shows "lands (grown W pre) (navette_connect_until_handshake_keys W port events)
    (\<lambda>(q, local, server) l. grown W pre l \<and> server = server_addr_with_port port) E (grown W pre)"
proof -
  let ?I = "\<lambda>s. grown W pre (r_sent s)"
  note I = open_to_grown [of W pre]
  have run: "lands (grown W pre) (with_conn (raw.make conn) (then_do (flush_send W) (\<lambda>_. keys_loop W local events)))
      (\<lambda>_. grown W pre) E (grown W pre)" for conn local
    by (rule lands_with_conn [where I = ?I], rule lands_seq [OF lands_flush_send [OF assms I] lands_keys_loop [OF assms I]])
      (simp add: raw.make_def)
  show ?thesis
    unfolding navette_connect_until_handshake_keys_def Let_def
    by (rule lands_then_do [OF lands_open_client], split prod.split, intro allI impI, rule lands_then_do [OF run])
      (auto intro!: landing)
qed

section \<open>Injection and verdict\<close>

text \<open>The call of quiche that makes a packet, and the packets it can give on a connection.\<close>

definition maker :: "('q, 'h) lab \<Rightarrow> packet_kind \<Rightarrow> 'q \<Rightarrow> (quic_error + bytes) option \<times> 'q" where
  "maker W p =
     (case p of
        Short_frames frames \<Rightarrow> q_encode_pkt (quic W) Type_Short frames MAX_DATAGRAM_SIZE
      | Short_payload payload \<Rightarrow> q_encode_pkt_with_payload (quic W) Type_Short payload MAX_DATAGRAM_SIZE
      | Handshake_frames frames \<Rightarrow> q_encode_pkt (quic W) Type_Handshake frames MAX_DATAGRAM_SIZE
      | Reserved_bits ty frames reserved_mask \<Rightarrow> q_encode_pkt_reserved_bits (quic W) ty frames reserved_mask MAX_DATAGRAM_SIZE)"

lemma inject_eq: "\<exists>msg. inject W server p = send_encoded W server msg (maker W p)"
  by (cases p) (auto simp: inject_def maker_def send_raw_1rtt_def send_raw_1rtt_bytes_def)

lemma lands_send_encoded:
  "lands (\<lambda>s. r_conn s = q \<and> r_sent s = l) (send_encoded W server msg f)
     (\<lambda>_ s. \<exists>d q'. f q = (Some (Inr d), q') \<and> r_sent s = l @ [(server, d)]) (\<lambda>s. r_sent s = l) (\<lambda>s. r_sent s = l)"
proof (rule landsI)
  fix s :: "('a, 'b) raw_scheme" assume s: "r_conn s = q \<and> r_sent s = l"
  obtain r q' where f: "f q = (r, q')" by (metis surj_pair)
  show "landed (\<lambda>_ s. \<exists>d q'. f q = (Some (Inr d), q') \<and> r_sent s = l @ [(server, d)]) (\<lambda>s. r_sent s = l) (\<lambda>s. r_sent s = l)
      (send_encoded W server msg f s)"
  proof (cases r)
    case (Some x)
    then show ?thesis
      using s f
      by (cases x; cases "n_send_to W l server (projr x)")
        (auto simp: send_encoded_def encode_def then_do_def try_with_def throw_def yield_def sock_send_def log_send_def)
  qed (use s f in \<open>simp add: send_encoded_def encode_def then_do_def\<close>)
qed

text \<open>A close that quiche can report: the peer's, or the local one of a closed connection.\<close>

definition closes :: "('q, 'h) lab \<Rightarrow> ConnectionError \<Rightarrow> bool" where
  "closes W ce \<longleftrightarrow> (\<exists>q. q_peer_error (quic W) q = Some ce \<or> q_is_closed (quic W) q \<and> q_local_error (quic W) q = Some ce)"

lemma lands_close_loop:
  assumes "drains W \<mu>" "open_to W I"
  shows "lands I (close_loop W local es) (\<lambda>res s. I s \<and> (\<forall>x. res = Some x \<longrightarrow> (\<exists>ce. closes W ce \<and> x = reported ce))) E I"
proof (induction es)
  case (Cons e es)
  let ?Q = "\<lambda>res s. I s \<and> (\<forall>x. res = Some x \<longrightarrow> (\<exists>ce. closes W ce \<and> x = reported ce))"
  have I: "I (s\<lparr>r_conn := q\<rparr>)" if "I s" for s q using that assms(2) by (simp add: open_to_def)
  have next': "lands I (then_do (flush_send W) (\<lambda>_. close_loop W local es)) ?Q E I"
    by (rule lands_seq [OF lands_flush_send [OF assms] Cons])
  have rest: "lands I (then_do (ingest W local e) (\<lambda>r. case r of Broken _ \<Rightarrow> yield None
      | _ \<Rightarrow> then_do (flush_send W) (\<lambda>_. close_loop W local es))) ?Q E I"
    by (rule lands_then_do [OF lands_calm [OF calm_ingest]])
      (use I next' in \<open>auto split: received.split intro!: landing\<close>)
  show ?case
    unfolding close_loop.simps
    by (rule lands_gets_do, split option.split, intro conjI impI allI lands_gets_do lands_if lands_yield)
      (use rest in \<open>auto simp: closes_def intro: lands_conseq\<close>)
qed (auto intro: landing)

lemma lands_wait:
  assumes "drains W \<mu>" "open_to W I"
  shows "lands I (wait_connection_close W events)
    (\<lambda>res s. I s \<and> (\<forall>x. res = Some x \<longrightarrow> (\<exists>ce. closes W ce \<and> x = reported ce))) E I"
  unfolding wait_connection_close_def by (rule lands_pure_do [OF lands_close_loop [OF assms]]) auto

text \<open>The close with the demanded code, whose decoded reason contains the tag.\<close>

definition earned :: "('q, 'h) lab \<Rightarrow> u64 \<Rightarrow> string \<Rightarrow> bool" where
  "earned W code tag \<longleftrightarrow>
     (\<exists>ce us vs. closes W ce \<and> ce_error_code ce = code \<and> decode_reason (ce_reason ce) = us @ tag @ vs)"

text \<open>One packet that \<open>f\<close> made on the connection \<open>q\<close>, sent to the server, and what quiche emitted after it.\<close>

definition injected ::
  "('q, 'h) lab \<Rightarrow> SocketAddr \<Rightarrow> ('q \<Rightarrow> (quic_error + bytes) option \<times> 'q) \<Rightarrow> 'q \<Rightarrow> log \<Rightarrow> log \<Rightarrow> bool" where
  "injected W server f q l sent \<longleftrightarrow> (\<exists>d q'. f q = (Some (Inr d), q') \<and> grown W (l @ [(server, d)]) sent)"

lemma assert_close_earned:
  "assert_close res code tag \<Longrightarrow> (\<And>x. res = Some x \<Longrightarrow> \<exists>ce. closes W ce \<and> x = reported ce) \<Longrightarrow> earned W code tag"
  by (cases res) (auto simp: assert_close_def earned_def reported_def contains_iff, metis)

lemma lands_inject_and_judge:
  assumes "drains W \<mu>"
  shows "lands (\<lambda>s. r_conn s = q \<and> r_sent s = l) (inject_and_judge W (send_encoded W server msg f) code tag events)
    (\<lambda>x s. x = 1 \<and> r_sent s = l
         \<or> (x = 0 \<and> earned W code tag \<or> x = 1) \<and> injected W server f q l (r_sent s))
    E (\<lambda>s. r_sent s = l \<or> injected W server f q l (r_sent s))"
    (is "lands ?P _ ?Q E ?J")
proof -
  let ?I = "\<lambda>s. injected W server f q l (r_sent s)"
  let ?R = "\<lambda>r s. case r of Inl _ \<Rightarrow> r_sent s = l | Inr _ \<Rightarrow> ?I s"
  have I: "open_to W ?I"
    by (rule open_to_log) (auto simp: injected_def intro: grown_snoc)
  have a: "lands ?P (send_encoded W server msg f) (\<lambda>x. ?R (Inr x)) (\<lambda>s. \<forall>e. ?R (Inl e) s) ?J"
    by (rule lands_conseq [OF lands_send_encoded [of q l]]) (auto simp: injected_def)
  have "lands ?I (wait_connection_close W events)
      (\<lambda>res s. ?I s \<and> (\<forall>x. res = Some x \<longrightarrow> (\<exists>ce. closes W ce \<and> x = reported ce))) E ?J"
    by (rule lands_conseq [OF lands_wait [OF assms I]]) auto
  then have b: "lands ?I (then_do (wait_connection_close W events)
      (\<lambda>res. yield (if assert_close res code tag then 0 else 1))) ?Q E ?J"
    by (rule lands_then_do) (auto intro!: lands_yield assert_close_earned)
  show ?thesis
    unfolding inject_and_judge_def
    by (rule lands_then_do [OF lands_attempt [where Q = ?R, OF a]]) (auto split: sum.split intro!: landing b [simplified])
qed

lemma lands_judged_conn:
  assumes "drains W \<mu>"
  shows "lands (\<lambda>l'. l' = l) (then_do (with_conn (raw.make q)
        (inject_and_judge W (send_encoded W server msg f) code tag events)) (\<lambda>(status, _). yield status))
    (\<lambda>x sent. x = 1 \<and> sent = l \<or> (x = 0 \<and> earned W code tag \<or> x = 1) \<and> injected W server f q l sent)
    E (\<lambda>sent. sent = l \<or> injected W server f q l sent)"
proof -
  let ?Q = "\<lambda>x sent. x = 1 \<and> sent = l \<or> (x = 0 \<and> earned W code tag \<or> x = 1) \<and> injected W server f q l sent"
  have "lands (\<lambda>s. r_conn s = q \<and> r_sent s = l) (inject_and_judge W (send_encoded W server msg f) code tag events)
      (\<lambda>x s. (\<lambda>(x, _). ?Q x) (x, r_conn s) (r_sent s)) (\<lambda>s. E (r_sent s)) (\<lambda>s. r_sent s = l \<or> injected W server f q l (r_sent s))"
    by (rule lands_conseq [OF lands_inject_and_judge [OF assms]]) auto
  then have "lands (\<lambda>l'. l' = l) (with_conn (raw.make q) (inject_and_judge W (send_encoded W server msg f) code tag events))
      (\<lambda>(x, _). ?Q x) E (\<lambda>sent. sent = l \<or> injected W server f q l sent)"
    by (rule lands_with_conn) (simp add: raw.make_def)
  then show ?thesis
    by (rule lands_then_do) (auto intro!: landing)
qed

text \<open>Where a scenario can end: nothing was injected, or one packet was.\<close>

definition accounts ::
  "('q, 'h) lab \<Rightarrow> ('q \<Rightarrow> bool) \<Rightarrow> packet_kind \<Rightarrow> u64 \<Rightarrow> string \<Rightarrow> log \<Rightarrow> (string + nat) outcome \<Rightarrow> log \<Rightarrow> bool" where
  "accounts W ready p code tag log r sent \<longleftrightarrow>
     r \<in> {Ret (Inr 1), Panic} \<and> grown W log sent
   \<or> (r = Ret (Inr 0) \<and> earned W code tag \<or> r \<in> {Ret (Inr 1), Panic})
     \<and> (\<exists>l q. grown W log l \<and> ready q \<and> injected W (server_addr_with_port (qrf_port W)) (maker W p) q l sent)"

lemma lands_judged:
  assumes "drains W \<mu>" "grown W log l" "ready q" "server = server_addr_with_port (qrf_port W)"
  shows "lands (\<lambda>l'. l' = l) (then_do (with_conn (raw.make q) (inject_and_judge W (inject W server p) code tag events))
        (\<lambda>(status, _). yield status))
      (\<lambda>x. accounts W ready p code tag log (Ret (Inr x))) (\<lambda>_. False) (accounts W ready p code tag log Panic)"
proof -
  obtain msg where "(inject W server p :: ('a raw, nat) act) = send_encoded W server msg (maker W p)"
    using inject_eq by metis
  moreover have "accounts W ready p code tag log r sent"
    if "r = Ret (Inr 0) \<and> earned W code tag \<or> r \<in> {Ret (Inr 1), Panic}" "injected W server (maker W p) q l sent" for r sent
    using that assms(2-4) by (auto simp: accounts_def)
  moreover have "accounts W ready p code tag log r l" if "r \<in> {Ret (Inr 1), Panic}" for r
    using that assms(2) by (simp add: accounts_def)
  ultimately show ?thesis
    by (auto intro!: lands_conseq [OF lands_judged_conn [OF assms(1), of l]])
qed

lemma lands_raw_scenario:
  assumes "drains W \<mu>"
  shows "lands (\<lambda>l. l = log) (raw_scenario (\<lambda>W server. inject W server p) code tag W events wait_events)
    (\<lambda>x. accounts W (q_is_established (quic W)) p code tag log (Ret (Inr x))) (\<lambda>_. False)
    (accounts W (q_is_established (quic W)) p code tag log Panic)"
    (is "lands _ _ ?Q _ ?J")
proof -
  let ?R = "\<lambda>r l. grown W log l \<and> (\<forall>q local server. r = Some (q, local, server) \<longrightarrow>
      q_is_established (quic W) q \<and> server = server_addr_with_port (qrf_port W))"
  have "lands (\<lambda>l. l = log) (navette_connect W (qrf_port W) events) (\<lambda>x. ?R (Some x)) (\<lambda>_. False) (?R None)"
    by (rule lands_conseq [OF lands_navette_connect [OF assms, of log]]) auto
  note run = lands_catch [where Q = ?R, OF this]
  show ?thesis
    unfolding raw_scenario_def
  proof (rule lands_then_do [OF run lands_each])
    fix r l assume R: "?R r l"
    show "lands (\<lambda>s. s = l) (case r of None \<Rightarrow> yield 1
        | Some (conn, local, server) \<Rightarrow>
            then_do (with_conn (raw.make conn) (inject_and_judge W (inject W server p) code tag wait_events))
              (\<lambda>(status, _). yield status)) ?Q (\<lambda>_. False) ?J"
    proof (cases r)
      case None
      have "?Q 1 l" using R by (simp add: accounts_def)
      with None show ?thesis by (simp add: lands_def yield_def)
    next
      case (Some x)
      with R show ?thesis by (cases x) (simp add: lands_judged [OF assms])
    qed
  qed
qed

lemma lands_handshake_scenario:
  assumes "drains W \<mu>"
  shows "lands (\<lambda>l. l = log) (handshake_scenario (\<lambda>W server. inject W server p) code tag W events wait_events)
    (\<lambda>x. accounts W (\<lambda>_. True) p code tag log (Ret (Inr x))) (\<lambda>_. False) (accounts W (\<lambda>_. True) p code tag log Panic)"
proof -
  let ?R = "\<lambda>(q, local, server) l. grown W log l \<and> server = server_addr_with_port (qrf_port W)"
  have "lands (\<lambda>l. l = log) (navette_connect_until_handshake_keys W (qrf_port W) events) ?R (\<lambda>_. False)
      (accounts W (\<lambda>_. True) p code tag log Panic)"
    by (rule lands_conseq [OF lands_until_handshake_keys [OF assms, of log]]) (auto simp: accounts_def)
  then show ?thesis
    unfolding handshake_scenario_def
    by (rule lands_then_do [OF _ lands_each]) (auto intro!: lands_judged [OF assms])
qed

section \<open>Resumption\<close>

lemma lands_open_early: "(\<And>s. P s \<Longrightarrow> E s) \<Longrightarrow> lands P (open_early W server) (\<lambda>_. P) E J"
  unfolding open_early_def by (intro landing) auto

lemma lands_ingest_or_fail:
  assumes "\<And>s q. I s \<Longrightarrow> I (s\<lparr>r_conn := q\<rparr>)" "\<And>s. I s \<Longrightarrow> E s"
  shows "lands I (ingest_or_fail W local e) (\<lambda>_. I) E J"
  unfolding ingest_or_fail_def
  by (rule lands_then_do [OF lands_calm [OF calm_ingest]])
    (use assms in \<open>auto split: received.split option.split intro!: landing\<close>)

lemma lands_start_request:
  assumes "\<And>s q. I s \<Longrightarrow> I (s\<lparr>r_conn := q\<rparr>)" "\<And>s. I s \<Longrightarrow> E s"
  shows "lands I (start_request W req body) (\<lambda>_. I) E J"
  unfolding start_request_def
  using assms
  by (intro lands_then_do [OF lands_calm [OF calm_on_conn]] lands_try_do)
    (auto split: option.split intro!: lands_then_do [OF lands_calm [OF calm_h3_on]] landing)

lemma lands_resume:
  assumes "\<And>s q. I s \<Longrightarrow> I (s\<lparr>r_conn := q\<rparr>)" "\<And>s. I s \<Longrightarrow> E s"
  shows "lands I (resume W blob) (\<lambda>_. I) E J"
  unfolding resume_def using assms by (intro lands_then_do [OF lands_calm [OF calm_on_conn]] landing) auto

lemma open_toD: "open_to W I \<Longrightarrow> I s \<Longrightarrow> I (s\<lparr>r_conn := q\<rparr>)"
  by (simp add: open_to_def)

lemma lands_pump_once:
  assumes "drains W \<mu>" "open_to W I"
  shows "lands I (pump_once W local e) (\<lambda>_. I) I J"
  unfolding pump_once_def
  by (rule lands_seq [OF lands_ingest_or_fail lands_flush [OF assms]]) (use open_toD [OF assms(2)] in auto)

lemma lands_ticket_loop:
  assumes "drains W \<mu>" "polls W \<nu>" "open_to W I"
  shows "lands I (ticket_loop W local h es) (\<lambda>_. I) I J"
proof (induction es arbitrary: h)
  case (Cons e es)
  have "lands I (then_do (pump_once W local e) (\<lambda>_. then_do (drain_h3 W h) (\<lambda>(_, _, h). ticket_loop W local h es))) (\<lambda>_. I) I J"
    by (rule lands_seq [OF lands_pump_once [OF assms(1,3)]], rule lands_then_do [OF lands_calm [OF calm_drain_h3 [OF assms(2)]]])
      (auto intro: open_toD [OF assms(3)] Cons split: prod.split)
  then show ?case
    by (auto split: option.split intro!: landing intro: lands_conseq)
qed (auto intro: landing)

lemma lands_close_cleanly:
  assumes "drains W \<mu>" "open_to W I"
  shows "lands I (close_cleanly W) (\<lambda>_. I) E J"
  unfolding close_cleanly_def
  by (rule lands_then_do [OF lands_calm [OF calm_on_conn]], erule open_toD [OF assms(2)], rule lands_seq [OF lands_attempt])
    (auto intro!: landing lands_conseq [OF lands_flush [OF assms]])

lemma lands_request_ticket:
  assumes "drains W \<mu>" "polls W \<nu>" "open_to W I"
  shows "lands I (request_ticket W local events) (\<lambda>_. I) I J"
proof -
  note I = open_toD [OF assms(3)]
  have "lands I (then_do (close_cleanly W) (\<lambda>_. yield blob)) (\<lambda>_. I) I J" for blob :: bytes
    by (rule lands_seq [OF lands_close_cleanly [OF assms(1,3)]]) (rule lands_yield)
  then have "lands I (then_do (flush W) (\<lambda>_. then_do (ticket_loop W local h events) (\<lambda>blob. case blob of
      None \<Rightarrow> throw msg | Some blob \<Rightarrow> then_do (close_cleanly W) (\<lambda>_. yield blob)))) (\<lambda>_. I) I J" for h msg
    by (intro lands_seq [OF lands_flush [OF assms(1,3)]] lands_then_do [OF lands_ticket_loop [OF assms]])
      (auto split: option.split intro: landing)
  then show ?thesis
    unfolding request_ticket_def
    by (intro lands_try_do lands_then_do [OF lands_start_request]) (auto intro: I split: prod.split)
qed

lemma lands_session_ticket:
  assumes "drains W \<mu>" "polls W \<nu>"
  shows "lands (grown W pre) (drive_to_session_ticket W server events tail_events) (\<lambda>_. grown W pre) (grown W pre) J"
proof -
  let ?I = "\<lambda>s. grown W pre (r_sent s)" and ?est = "\<lambda>s. q_is_established (quic W) (r_conn s)"
  note I = open_to_grown [of W pre]
  have run: "lands (grown W pre) (with_conn (raw.make conn)
      (then_do (flush W) (\<lambda>_. then_do (pump_until ?est (pump_once W local) events) (\<lambda>_. then_do (gets ?est) (\<lambda>b.
        if \<not> b then throw msg else request_ticket W local tail_events))))) (\<lambda>_. grown W pre) (grown W pre) J" for conn local msg
    by (rule lands_with_conn [where I = ?I], rule lands_seq [OF lands_flush [OF assms(1) I]],
        rule lands_seq [OF lands_pump_until [OF lands_pump_once [OF assms(1) I]]])
      (auto simp: raw.make_def intro!: landing lands_conseq [OF lands_request_ticket [OF assms I]])
  show ?thesis
    unfolding drive_to_session_ticket_def Let_def
    by (rule lands_then_do [OF lands_open_early], assumption, split prod.split, intro allI impI, rule lands_then_do [OF run])
      (auto intro!: landing)
qed

section \<open>Capture and replay\<close>

text \<open>The log has grown by a flight of emitted datagrams, which are the captured ones.\<close>

definition captures :: "('q, 'h) lab \<Rightarrow> log \<Rightarrow> 'q capture \<Rightarrow> bool" where
  "captures W l s \<longleftrightarrow> (\<exists>flight. r_sent s = l @ flight \<and> list_all (emitted W) flight \<and> map snd flight = c_captured s)"

lemma captures_conn [simp]: "captures W l (s\<lparr>r_conn := q\<rparr>) = captures W l s"
  by (simp add: captures_def)

lemma captures_sent:
  "captures W l s \<Longrightarrow> emitted W (to, d) \<Longrightarrow> captures W l (s\<lparr>r_conn := q, r_sent := r_sent s @ [(to, d)], c_captured := c_captured s @ [d]\<rparr>)"
  by (fastforce simp: captures_def)

lemma lands_capture_flush:
  assumes "drains W \<mu>"
  shows "lands (captures W l) (loop_while (capture_step W)) (\<lambda>_. captures W l) (\<lambda>_. True) J"
proof (rule lands_loop_while [where \<mu> = "\<lambda>s. \<mu> (r_conn s)"], rule landsI)
  fix n and s :: "'a capture" assume s: "captures W l s \<and> \<mu> (r_conn s) = n"
  show "landed (\<lambda>again s. captures W l s \<and> (again \<longrightarrow> \<mu> (r_conn s) < n)) (\<lambda>_. True) J (capture_step W s)"
  proof (rule send_next_cases [OF assms, of s])
    fix q r assume "send_next W s = Some (Ret (Inr r), s\<lparr>r_conn := q\<rparr>)" "\<forall>d. r \<noteq> Sent d"
    then show ?thesis
      using s by (cases r) (simp_all add: capture_step_def then_do_def yield_def throw_def modify_def)
  next
    fix q to d assume "send_next W s = Some (Ret (Inr (Sent d)), s\<lparr>r_conn := q, r_sent := r_sent s @ [(to, d)]\<rparr>)"
      "emitted W (to, d)" "\<mu> q < \<mu> (r_conn s)"
    then show ?thesis
      using s captures_sent [of W l s to d q] by (simp add: capture_step_def then_do_def yield_def modify_def)
  qed
qed

lemma lands_capture_loop:
  assumes "drains W \<mu>" "polls W \<nu>"
  shows "lands (captures W l) (capture_loop W local h es) (\<lambda>_. captures W l) (\<lambda>_. True) J"
proof (induction es arbitrary: h)
  case (Cons e es)
  let ?C = "captures W l"
  have start: "lands ?C (if Option.is_none h \<and> sealed
      then then_do (start_request W req None) (\<lambda>(_, h). yield (Some h)) else yield h) (\<lambda>_. ?C) (\<lambda>_. True) J" for sealed req
    by (intro lands_if lands_then_do [OF lands_start_request]) (auto intro: landing)
  have drain: "lands ?C (case h of None \<Rightarrow> yield None | Some h \<Rightarrow> then_do (drain_h3 W h) (\<lambda>(_, _, h). yield (Some h)))
      (\<lambda>_. ?C) (\<lambda>_. True) J" for h
    by (auto split: option.split intro!: landing lands_then_do [OF lands_calm [OF calm_drain_h3 [OF assms(2)]]])
  have last: "lands ?C (then_do (gets c_captured) (\<lambda>captured. if \<not> Option.is_none h \<and> captured \<noteq> [] then yield ()
      else capture_loop W local h es)) (\<lambda>_. ?C) (\<lambda>_. True) J" for h
    by (intro landing) (auto intro: lands_conseq [OF Cons])
  show ?case
    unfolding capture_loop.simps
    by (rule lands_gets_do, intro lands_then_do [OF lands_pre_conj [OF start]] lands_seq [OF lands_capture_flush [OF assms(1)]]
        lands_seq [OF lands_ingest_or_fail] lands_then_do [OF drain] last) auto
qed (auto intro: landing)

lemma lands_capture:
  assumes "drains W \<mu>" "polls W \<nu>"
  shows "lands (\<lambda>l'. l' = l) (drive_to_zero_rtt_with_datagram_capture W server blob events)
    (\<lambda>(captured, _) sent. captured \<noteq> [] \<and> (\<exists>flight. sent = l @ flight \<and> list_all (emitted W) flight \<and> map snd flight = captured))
    (\<lambda>_. True) J"
proof -
  let ?C = "captures W l"
  have "lands (\<lambda>l'. l' = l) (with_conn (\<lambda>sent. \<lparr>r_conn = conn, r_sent = sent, c_captured = []\<rparr>)
       (then_do (resume W blob) (\<lambda>_. then_do (loop_while (capture_step W)) (\<lambda>_. then_do (try_with msg (h3_Config_new (quic W))) (\<lambda>_.
        then_do (capture_loop W local None events) (\<lambda>_. then_do (gets c_captured) (\<lambda>captured.
        if captured = [] then throw msg' else yield captured)))))))
      (\<lambda>(captured, _) sent. captured \<noteq> [] \<and> (\<exists>flight. sent = l @ flight \<and> list_all (emitted W) flight \<and> map snd flight = captured))
      (\<lambda>_. True) J" for conn local msg msg'
    by (rule lands_with_conn [where I = ?C], intro lands_seq [OF lands_resume] lands_seq [OF lands_capture_flush [OF assms(1)]]
        lands_try_do lands_seq [OF lands_capture_loop [OF assms]] lands_gets_do lands_if lands_throw lands_yield)
      (auto simp: captures_def)
  then show ?thesis
    unfolding drive_to_zero_rtt_with_datagram_capture_def
    by (intro lands_then_do [OF lands_open_early]) (auto split: prod.split)
qed

lemma lands_replay_loop:
  "lands (\<lambda>l'. l' = l) (replay_loop W server ds) (\<lambda>_ sent. sent = l @ map (Pair server) ds) (\<lambda>_. True) J"
proof (induction ds arbitrary: l)
  case (Cons d ds)
  have "landed (\<lambda>_ sent. sent = l @ map (Pair server) (d # ds)) (\<lambda>_. True) J (replay_loop W server (d # ds) l)"
    using landsD [OF Cons, of "l @ [(server, d)]" "l @ [(server, d)]"]
    by (cases "n_send_to W l server d") (simp_all add: then_do_def log_send_def try_with_def throw_def yield_def)
  then show ?case by (simp add: lands_def)
qed (auto intro: landing)

lemma lands_replay:
  "lands (\<lambda>l'. l' = l) (replay_datagrams_verbatim W server ds) (\<lambda>_ sent. sent = l @ map (Pair server) ds) (\<lambda>_. True) J"
  unfolding replay_datagrams_verbatim_def by (intro lands_try_do lands_replay_loop) auto

lemma lands_phase:
  assumes "lands P m R (\<lambda>_. True) J" "\<And>x. lands (R x) (k x) Q E J" "\<And>s. Q 1 s"
  shows "lands P (phase m k) Q E J"
  unfolding phase_def
  by (rule lands_then_do [OF lands_attempt [where Q = "\<lambda>r. case r of Inl _ \<Rightarrow> \<lambda>_. True | Inr x \<Rightarrow> R x"]])
    (use assms in \<open>auto split: sum.split intro!: landing\<close>)

text \<open>
  A flight of emitted datagrams that was sent a second time to the server, byte for byte and in
  order; whatever else was sent was emitted.
\<close>

definition replayed :: "('q, 'h) lab \<Rightarrow> SocketAddr \<Rightarrow> log \<Rightarrow> log \<Rightarrow> bool" where
  "replayed W server log sent \<longleftrightarrow>
     (\<exists>before flight rest. sent = log @ before @ flight @ map (\<lambda>(_, d). (server, d)) flight @ rest
        \<and> flight \<noteq> [] \<and> list_all (emitted W) (before @ flight @ rest))"

lemma replayedI:
  assumes "grown W log l" "list_all (emitted W) flight" "flight \<noteq> []"
    "grown W (l @ flight @ map (Pair server) (map snd flight)) sent"
  shows "replayed W server log sent"
proof -
  obtain before rest where "l = log @ before" "list_all (emitted W) before"
    "sent = l @ flight @ map (Pair server) (map snd flight) @ rest" "list_all (emitted W) rest"
    using assms(1,4) by (auto simp: grown_def)
  moreover have "map (Pair server) (map snd flight) = map (\<lambda>(_, d). (server, d)) flight"
    by (simp add: case_prod_beta)
  ultimately show ?thesis
    unfolding replayed_def using assms(2,3)
    by (intro exI [of _ before] exI [of _ flight] exI [of _ rest]) simp
qed

lemma lands_ticket_phase:
  assumes "drains W \<mu>" "polls W \<nu>" "\<And>x. lands (grown W l) (k x) Q E (\<lambda>_. False)" "\<And>s. Q 1 s"
  shows "lands (\<lambda>l'. l' = l) (phase (drive_to_session_ticket W server es es') k) Q E (\<lambda>_. False)"
  by (rule lands_phase [OF lands_conseq [OF lands_session_ticket [OF assms(1,2), of l], where Q' = "\<lambda>_. grown W l"]])
    (use assms(3,4) in auto)

lemma lands_replay_phases:
  assumes "drains W \<mu>" "polls W \<nu>" "grown W log l" "list_all (emitted W) flight" "flight \<noteq> []"
  shows "lands (\<lambda>l'. l' = l @ flight) (replay_phases W server es es' (map snd flight))
    (\<lambda>x sent. x = 1 \<or> x = 0 \<and> replayed W server log sent) (\<lambda>_. False) (\<lambda>_. False)"
    (is "lands _ _ ?Q _ _")
proof -
  let ?l = "l @ flight @ map (Pair server) (map snd flight)"
  have "lands (\<lambda>l'. l' = ?l) (phase (drive_to_session_ticket W server es es') (\<lambda>_. yield 0)) ?Q (\<lambda>_. False) (\<lambda>_. False)"
    by (intro lands_ticket_phase [OF assms(1,2)] lands_yield) (simp_all add: replayedI [OF assms(3-5)])
  then have "lands (\<lambda>l'. l' = ?l) (phase (try_with ie_text (n_bind W addr)) (\<lambda>_.
      phase (try_with ie_text (n_set_read_timeout W ms)) (\<lambda>_.
      phase (drive_to_session_ticket W server es es') (\<lambda>_. yield 0)))) ?Q (\<lambda>_. False) (\<lambda>_. False)" for addr ms
    by (intro lands_phase [OF lands_try [where Q = "\<lambda>_ l'. l' = ?l"]]) simp_all
  then show ?thesis
    unfolding replay_phases_def by (intro lands_phase [OF lands_replay]) simp_all
qed

lemma lands_capture_phase:
  assumes "drains W \<mu>" "polls W \<nu>"
  shows "lands (grown W log) (phase (drive_to_zero_rtt_with_datagram_capture W server ticket events)
      (\<lambda>(captured, _). if captured = [] then yield 1 else replay_phases W server es es' captured))
    (\<lambda>x sent. x = 1 \<or> x = 0 \<and> replayed W server log sent) (\<lambda>_. False) (\<lambda>_. False)"
    (is "lands _ _ ?Q _ _")
proof (rule lands_each, rule lands_phase [OF lands_capture [OF assms]])
  fix l and x :: "bytes list \<times> 'a" assume l: "grown W log l"
  obtain captured q where x: "x = (captured, q)" by fastforce
  have "lands (\<lambda>sent. captured \<noteq> [] \<and> (\<exists>flight. sent = l @ flight \<and> list_all (emitted W) flight \<and> map snd flight = captured))
      (replay_phases W server es es' captured) ?Q (\<lambda>_. False) (\<lambda>_. False)"
    by (rule lands_each) (use lands_replay_phases [OF assms l] in auto)
  then show "lands (case x of (captured, _) \<Rightarrow> \<lambda>sent. captured \<noteq> [] \<and>
        (\<exists>flight. sent = l @ flight \<and> list_all (emitted W) flight \<and> map snd flight = captured))
      (case x of (captured, _) \<Rightarrow> if captured = [] then yield 1 else replay_phases W server es es' captured) ?Q (\<lambda>_. False) (\<lambda>_. False)"
    by (auto simp: x intro: lands_yield)
qed simp

section \<open>A concrete quiche\<close>

text \<open>A connection is the number of datagrams it still has to send.\<close>

definition sample_close :: ConnectionError where
  "sample_close = \<lparr>ce_is_app = False, ce_error_code = 0x0A, ce_reason = ascii ''close [QUIC-HANDSHAKE-DONE-SERVER]''\<rparr>"

definition sample_quiche :: "(nat, unit) quiche" where
  "sample_quiche =
     \<lparr>q_Config_new = Inr (), q_set_application_protos = (\<lambda>_. Inr ()), q_connect = (\<lambda>_ _ _ _ _. Inr 2),
      q_is_established = (\<lambda>_. True), q_is_closed = (\<lambda>_. False), q_peer_error = (\<lambda>_. Some sample_close), q_local_error = (\<lambda>_. None),
      q_recv = (\<lambda>d _ q. (Inr (length d), q)), q_on_timeout = (\<lambda>q. q),
      q_send = (\<lambda>_ q. if q = 0 then (Inl Done, 0) else (Inr ([word_of_nat q], server_addr_with_port 4433), q - 1)),
      q_encode_pkt = (\<lambda>_ _ _ q. (Some (Inr [0x40]), q)), q_encode_pkt_with_payload = (\<lambda>_ _ _ q. (Some (Inr [0x41]), q)),
      q_encode_pkt_reserved_bits = (\<lambda>_ _ _ _ q. (Some (Inr [0x58]), q)), q_stream_send = (\<lambda>_ d _ q. (Inr (length d), q)),
      q_session = (\<lambda>_. Some [7]), q_set_session = (\<lambda>_ q. (Inr (), q)), q_has_application_crypto_seal = (\<lambda>_. True),
      q_close = (\<lambda>_ _ _ q. (Inr (), q)), h3_Config_new = Inr (), h3_with_transport = (\<lambda>q. (Inr (), q)),
      h3_send_request = (\<lambda>_ _ (h, q). (Inr 0, h, q + 1)), h3_send_body = (\<lambda>_ b _ hq. (Inr (length b), hq)),
      h3_poll = (\<lambda>hq. (Inl H3_Done, hq)), q_debug = (\<lambda>_. []), h3_debug = (\<lambda>_. [])\<rparr>"

definition sample_lab :: "(nat, unit) lab" where
  "sample_lab =
     \<lparr>n_bind = (\<lambda>_. Inr ()), n_set_read_timeout = (\<lambda>_. Inr ()), n_local_addr = Inr (server_addr_with_port 9),
      n_random = (\<lambda>n. Inr (replicate n 0)), n_send_to = (\<lambda>_ _ d. Inr (length d)), n_env = (\<lambda>_. None), quic = sample_quiche\<rparr>"

lemma sample_drains: "drains sample_lab id" and sample_polls: "polls sample_lab (\<lambda>_. 0)"
  by (auto simp: drains_def polls_def sample_lab_def sample_quiche_def split: if_splits)

section \<open>Properties\<close>





end
