(* ===== verification/H3i_Scenarios.thy ===== *)
theory H3i_Scenarios
  imports Raw_Client Scenarios
begin

text \<open>
  The HTTP/3 scenarios (\<open>conformance/h3i-scenarios/src\<close>): each \<open>main\<close> hands a list of actions to the
  h3i client and judges the summary the client returns. The client and the builder of its
  configuration are the record \<open>h3i\<close>; what is printed is not part of the model.
\<close>

section \<open>The h3i client\<close>

record h3i_config =
  hi_host_port :: string
  hi_idle_timeout :: u64
  hi_verify_peer :: bool

text \<open>
  The frames and actions the scenarios use. A SETTINGS frame has the maximal field section
  size, the QPACK table capacity and blocked streams, the extended CONNECT, datagram and
  grease settings, the additional ones and the raw list.
\<close>

type_synonym setting = "u64 \<times> u64"

datatype h3_frame =
    H3_Data bytes
  | H3_GoAway u64
  | H3_CancelPush u64
  | H3_Settings "u64 option" "u64 option" "u64 option" "u64 option" "u64 option" "setting option" "setting list option"
      "setting list option"

datatype h3i_action =
    OpenUniStream u64 bool u64
  | SendFrame u64 bool h3_frame
  | SendHeadersFrame u64 bool "header list"
  | WaitHeaders u64

text \<open>What the client saw: how the peer closed, and the HEADERS of each stream.\<close>

record h3i_summary =
  su_peer_error :: "ConnectionError option"
  su_headers_on_stream :: "u64 \<Rightarrow> header list list"

record h3i =
  hi_build :: "h3i_config \<Rightarrow> string + h3i_config"
  hi_connect :: "h3i_config \<Rightarrow> h3i_action list \<Rightarrow> string + h3i_summary"

definition loopback_config :: "h3i \<Rightarrow> u16 \<Rightarrow> h3i_config outcome" where
  "loopback_config C port =
     expect (hi_build C \<lparr>hi_host_port = ''127.0.0.1:'' @ dec_nat (unat port), hi_idle_timeout = 2000, hi_verify_peer = False\<rparr>)"

section \<open>Scenarios that demand a close\<close>

definition judge_close :: "u64 \<Rightarrow> string \<Rightarrow> ConnectionError option \<Rightarrow> nat" where
  "judge_close expected_code tag ce =
     (case ce of
        None \<Rightarrow> 1
      | Some ce \<Rightarrow>
          if ce_is_app ce \<and> ce_error_code ce = expected_code then
            (let reason = from_utf8_lossy (ce_reason ce) in
             if contains reason tag then 0 else 1)
          else 1)"

definition h3i_scenario :: "h3i_action list \<Rightarrow> u64 \<Rightarrow> string \<Rightarrow> h3i \<Rightarrow> nat outcome" where
  "h3i_scenario actions expected_code tag C =
     obind (loopback_config C 4433) (\<lambda>config.
     case hi_connect C config actions of
       Inl _ \<Rightarrow> Ret 1
     | Inr summary \<Rightarrow> Ret (judge_close expected_code tag (su_peer_error summary)))"

definition settings_with :: "u64 \<Rightarrow> h3_frame" where
  "settings_with blocked = H3_Settings None (Some 0) (Some blocked) None None None None None"

definition pinned_settings :: h3_frame where
  "pinned_settings = H3_Settings None (Some 0) (Some 0) None None None None None"

definition c9_main where
  "c9_main = h3i_scenario [OpenUniStream 2 False 0x00, OpenUniStream 6 False 0x00] 0x0103 ''control stream''"

definition s_f31_main where
  "s_f31_main = h3i_scenario [SendFrame 0 False (H3_Data (ascii ''oops''))] 0x0105 ''[H3-DATA-BEFORE-HEADERS]''"

definition s_f32_main where
  "s_f32_main = h3i_scenario [OpenUniStream 2 False 0x00, SendFrame 2 False (H3_GoAway 0)] 0x010A ''[H3-CTRL-NO-SETTINGS]''"

definition s_f33_main where
  "s_f33_main = h3i_scenario
     [OpenUniStream 2 False 0x00, SendFrame 2 False pinned_settings, SendFrame 2 False (H3_Data (ascii ''x''))]
     0x0105 ''[H3-DATA-ON-CTRL]''"

definition s_f34_main where
  "s_f34_main = h3i_scenario
     [OpenUniStream 2 False 0x00, SendFrame 2 False pinned_settings,
      SendHeadersFrame 2 False [(ascii '':method'', ascii ''GET'')]]
     0x0105 ''[H3-HEADERS-ON-CTRL]''"

definition s_f35_main where
  "s_f35_main = h3i_scenario
     [OpenUniStream 2 False 0x00, SendFrame 2 False (settings_with 0), SendFrame 2 False (settings_with 1)]
     0x0105 ''[H3-SECOND-SETTINGS]''"

definition s_f36_main where
  "s_f36_main = h3i_scenario
     [SendHeadersFrame 0 False
        [(ascii '':method'', ascii ''GET''), (ascii '':scheme'', ascii ''https''), (ascii '':authority'', ascii ''localhost''),
         (ascii '':path'', ascii ''/'')],
      SendFrame 0 False (H3_CancelPush 0)]
     0x0105 ''[H3-CANCEL-PUSH-REQ]''"

section \<open>The baseline\<close>

definition h3i_sanity_get_main :: "h3i \<Rightarrow> nat outcome" where
  "h3i_sanity_get_main C =
     obind (loopback_config C 4433) (\<lambda>config.
     case hi_connect C config
       [SendHeadersFrame 0 True
          [(ascii '':method'', ascii ''GET''), (ascii '':scheme'', ascii ''https''), (ascii '':authority'', ascii ''127.0.0.1''),
           (ascii '':path'', ascii ''/'')],
        WaitHeaders 0] of
       Inl _ \<Rightarrow> Ret 1
     | Inr summary \<Rightarrow>
         Ret (if list_ex (list_ex (\<lambda>(name, value). name = ascii '':status'' \<and> value = ascii ''200'')) (su_headers_on_stream summary 0)
              then 0 else 1))"

section \<open>Verdicts\<close>

text \<open>
  A scenario exits with 0 exactly when the client connected and the peer closed the HTTP/3
  connection with the demanded application code and a reason that contains the tag.
\<close>

lemma h3i_scenario_zero:
  "h3i_scenario actions code tag C = Ret 0 \<longleftrightarrow>
   (\<exists>config summary ce us vs. loopback_config C 4433 = Ret config \<and> hi_connect C config actions = Inr summary
      \<and> su_peer_error summary = Some ce \<and> ce_is_app ce \<and> ce_error_code ce = code
      \<and> from_utf8_lossy (ce_reason ce) = us @ tag @ vs)"
  by (cases "loopback_config C 4433")
    (auto simp: h3i_scenario_def judge_close_def contains_iff Let_def split: sum.splits option.splits if_splits)

lemma h3i_scenario_runs: "h3i_scenario actions code tag C \<in> {Ret 0, Ret 1, Panic}"
  by (cases "hi_build C \<lparr>hi_host_port = ''127.0.0.1:'' @ dec_nat (unat (4433 :: u16)), hi_idle_timeout = 2000, hi_verify_peer = False\<rparr>")
    (auto simp: h3i_scenario_def loopback_config_def judge_close_def Let_def split: sum.split option.split)

end
